(* ===== verification/Prelude.thy ===== *)
theory Prelude
  imports
    Main
    "HOL-Library.AList"
    "HOL-Library.Multiset"
    "HOL-Library.Char_ord"
    "HOL-Library.List_Lexorder"
begin

text \<open>
  Shared material of the development: Go's 64-bit \<open>int\<close> arithmetic, the "fill a field
  that is still zero" idiom, the "seen set" idiom of the list-building loops, Go maps as
  association lists, and \<open>sort.Strings\<close>. Every other theory imports this one.
\<close>

named_theorems go_map \<open>lookups in Go maps after an update\<close>
named_theorems fill_simps \<open>the first-non-zero idiom\<close>


section \<open>Go's int: 64-bit two's complement\<close>

text \<open>
  Go integers are modelled as \<open>int\<close> values in the range of \<open>int64\<close>; every operation of the
  code that can leave the range is followed by \<open>wrap64\<close>.
\<close>

definition in_int64 :: "int \<Rightarrow> bool" where
  "in_int64 x \<longleftrightarrow> - (2 ^ 63) \<le> x \<and> x < 2 ^ 63"

definition wrap64 :: "int \<Rightarrow> int" where
  "wrap64 x = (x + 2 ^ 63) mod 2 ^ 64 - 2 ^ 63"

lemma wrap64_range [simp]: "in_int64 (wrap64 x)"
proof -
  have "0 \<le> (x + 2 ^ 63) mod 2 ^ 64" and "(x + 2 ^ 63) mod 2 ^ 64 < (2 :: int) ^ 64"
    by (rule pos_mod_sign, simp) (rule pos_mod_bound, simp)
  then show ?thesis
    by (simp add: in_int64_def wrap64_def)
qed

lemma wrap64_id: "in_int64 x \<Longrightarrow> wrap64 x = x"
  by (simp add: in_int64_def wrap64_def)

lemma wrap64_idem [simp]: "wrap64 (wrap64 x) = wrap64 x"
  by (simp add: wrap64_id)

lemma wrap64_zero [simp]: "wrap64 0 = 0"
  by (simp add: wrap64_def)

lemma wrap64_add_left [simp]: "wrap64 (wrap64 x + y) = wrap64 (x + y)"
proof -
  have "(wrap64 x + y + 2 ^ 63) mod 2 ^ 64 = ((x + 2 ^ 63) mod 2 ^ 64 + y) mod (2 :: int) ^ 64"
    by (simp add: wrap64_def algebra_simps)
  also have "\<dots> = (x + 2 ^ 63 + y) mod 2 ^ 64"
    by (rule mod_add_left_eq)
  finally show ?thesis
    unfolding wrap64_def by (simp add: algebra_simps)
qed

lemma wrap64_add_right [simp]: "wrap64 (x + wrap64 y) = wrap64 (x + y)"
  using wrap64_add_left [of y x] by (simp add: add.commute)

text \<open>Go's division truncates towards zero.\<close>

definition quot :: "int \<Rightarrow> int \<Rightarrow> int" where
  "quot a b = (if (a < 0) = (b < 0) then \<bar>a\<bar> div \<bar>b\<bar> else - (\<bar>a\<bar> div \<bar>b\<bar>))"

text \<open>A loop that adds up values with wrap-around computes the wrapped mathematical sum.\<close>

lemma foldl_wrap64_sum:
  "in_int64 a \<Longrightarrow> foldl (\<lambda>t x. wrap64 (t + g x)) a xs = wrap64 (a + (\<Sum>x\<leftarrow>xs. g x))"
  by (induction xs arbitrary: a) (simp_all add: wrap64_id algebra_simps)


section \<open>Filling a field that is still at its zero value\<close>

definition fill :: "'a \<Rightarrow> 'a \<Rightarrow> 'a \<Rightarrow> 'a" where
  "fill z dst src = (if dst = z then src else dst)"

text \<open>The first value of a list that is not the zero value, or the zero value.\<close>

fun first_set :: "'a \<Rightarrow> 'a list \<Rightarrow> 'a" where
  "first_set z [] = z"
| "first_set z (x # xs) = (if x = z then first_set z xs else x)"

lemma fill_zero [fill_simps, simp]: "fill z z s = s"
  by (simp add: fill_def)

lemma fill_set [fill_simps]: "d \<noteq> z \<Longrightarrow> fill z d s = d"
  by (simp add: fill_def)

lemma foldl_fill: "foldl (fill z) a xs = first_set z (a # xs)"
  by (induction xs arbitrary: a) (auto simp: fill_def)

lemma first_set_eq_zero: "first_set z xs = z \<longleftrightarrow> (\<forall>x\<in>set xs. x = z)"
  by (induction xs) auto

lemma first_set_in: "first_set z xs \<noteq> z \<Longrightarrow> first_set z xs \<in> set xs"
  by (induction xs) auto

lemma first_set_append:
  "first_set z (xs @ ys) = (if first_set z xs = z then first_set z ys else first_set z xs)"
  by (induction xs) auto


section \<open>Appending what was not seen yet\<close>

text \<open>
  The loops that build a list without repetitions keep a map \<open>seen\<close> and an output slice. In
  the model \<open>seen\<close> is the list of the keys whose entry is true.
\<close>

fun add_unseen :: "'a list \<Rightarrow> 'a list \<Rightarrow> 'a list \<Rightarrow> 'a list" where
  "add_unseen seen out [] = out"
| "add_unseen seen out (v # vs) =
     (if v \<in> set seen then add_unseen seen out vs
      else add_unseen (v # seen) (out @ [v]) vs)"

lemma add_unseen_set:
  "set out \<subseteq> set seen \<Longrightarrow> set (add_unseen seen out vs) = set out \<union> (set vs - set seen)"
proof (induction seen out vs rule: add_unseen.induct)
  case (2 seen out v vs)
  show ?case
  proof (cases "v \<in> set seen")
    case True
    with 2 show ?thesis by auto
  next
    case False
    with 2 have "set (add_unseen (v # seen) (out @ [v]) vs)
        = set (out @ [v]) \<union> (set vs - set (v # seen))"
      by auto
    with False show ?thesis by auto
  qed
qed simp

lemma add_unseen_distinct:
  "set out \<subseteq> set seen \<Longrightarrow> distinct out \<Longrightarrow> distinct (add_unseen seen out vs)"
  by (induction seen out vs rule: add_unseen.induct) auto

lemma add_unseen_prefix: "\<exists>new. add_unseen seen out vs = out @ new"
  by (induction seen out vs rule: add_unseen.induct) auto


section \<open>Go maps\<close>

text \<open>
  A Go map is an association list with pairwise different keys. The order of the list stands
  for the order a \<open>range\<close> loop happens to visit the keys in, which Go leaves open; facts
  about the code's results are stated with \<open>map_of\<close>, which does not depend on it.
\<close>

type_synonym ('k, 'v) gomap = "('k \<times> 'v) list"

text \<open>Reading a missing key of a \<open>map[k]int\<close> gives 0.\<close>

definition count_of :: "('k, int) gomap \<Rightarrow> 'k \<Rightarrow> int" where
  "count_of m k = (case map_of m k of None \<Rightarrow> 0 | Some n \<Rightarrow> n)"

text \<open>\<open>m[k]++\<close>\<close>

definition incr :: "'k \<Rightarrow> ('k, int) gomap \<Rightarrow> ('k, int) gomap" where
  "incr k m = AList.update k (wrap64 (count_of m k + 1)) m"

lemma count_of_Nil [go_map, simp]: "count_of [] k = 0"
  by (simp add: count_of_def)

lemma count_of_incr [go_map]:
  "count_of (incr k m) k' = (if k' = k then wrap64 (count_of m k + 1) else count_of m k')"
  by (simp add: count_of_def incr_def update_conv')

lemma dom_incr [go_map]: "fst ` set (incr k m) = insert k (fst ` set m)"
  by (simp add: incr_def update_keys image_iff dom_update)

lemma distinct_incr: "distinct (map fst m) \<Longrightarrow> distinct (map fst (incr k m))"
  by (simp add: incr_def distinct_update)

lemma count_of_range: "\<forall>(k, v)\<in>set m. in_int64 v \<Longrightarrow> in_int64 (count_of m k)"
  by (auto simp: count_of_def in_int64_def split: option.splits dest: map_of_SomeD)

text \<open>Counting the entries of a list, one \<open>m[k]++\<close> at a time.\<close>

lemma count_of_foldl_incr:
  assumes "in_int64 (count_of m k)"
  shows "count_of (foldl (\<lambda>m x. incr x m) m xs) k = wrap64 (count_of m k + int (count_list xs k))"
  using assms
proof (induction xs arbitrary: m)
  case Nil
  then show ?case by (simp add: wrap64_id)
next
  case (Cons x xs)
  have "in_int64 (count_of (incr x m) k)"
    using Cons.prems by (simp add: count_of_incr)
  from Cons.IH [OF this] show ?case
    by (simp add: count_of_incr algebra_simps)
qed


section \<open>sort.Strings\<close>

text \<open>
  \<open>sort.Strings\<close> sorts by the byte order of strings, which is the lexicographic order
  of \<open>char\<close> lists. Equal strings are indistinguishable, so any sorting algorithm gives the
  same slice and the library's \<open>sort\<close> is that slice.
\<close>

definition sort_Strings :: "string list \<Rightarrow> string list" where
  "sort_Strings xs = sort xs"

lemma sorted_sort_Strings [simp]: "sorted (sort_Strings xs)"
  by (simp add: sort_Strings_def)

lemma set_sort_Strings [simp]: "set (sort_Strings xs) = set xs"
  by (simp add: sort_Strings_def)

lemma mset_sort_Strings [simp]: "mset (sort_Strings xs) = mset xs"
  by (simp add: sort_Strings_def)

lemma distinct_sort_Strings [simp]: "distinct (sort_Strings xs) = distinct xs"
  by (simp add: sort_Strings_def)

lemma sort_Strings_cong: "mset xs = mset ys \<Longrightarrow> sort_Strings xs = sort_Strings ys"
  unfolding sort_Strings_def by (metis properties_for_sort mset_sort sorted_sort)

end
