(* ===== verification/Go_Strings.thy ===== *)
theory Go_Strings
  imports Prelude
begin

text \<open>
  The functions of Go's \<open>strings\<close>, \<open>strconv\<close> and \<open>path/filepath\<close> packages the program
  calls, on byte strings (\<open>char list\<close>). White space is Unicode white space in its UTF-8
  encoding, as \<open>strings.TrimSpace\<close> and \<open>strings.Fields\<close> treat it. Case folding is exact
  against an ASCII pattern (the program only folds against constants); \<open>ToLower\<close> and
  \<open>ToUpper\<close> change the ASCII letters and leave bytes above 127 alone.
\<close>


section \<open>Prefixes, suffixes, searching\<close>

definition HasPrefix :: "string \<Rightarrow> string \<Rightarrow> bool" where
  "HasPrefix s p \<longleftrightarrow> take (length p) s = p"

definition HasSuffix :: "string \<Rightarrow> string \<Rightarrow> bool" where
  "HasSuffix s p \<longleftrightarrow> HasPrefix (rev s) (rev p)"

definition TrimPrefix :: "string \<Rightarrow> string \<Rightarrow> string" where
  "TrimPrefix s p = (if HasPrefix s p then drop (length p) s else s)"

definition TrimSuffix :: "string \<Rightarrow> string \<Rightarrow> string" where
  "TrimSuffix s p = (if HasSuffix s p then take (length s - length p) s else s)"

fun IndexByte :: "string \<Rightarrow> char \<Rightarrow> nat option" where
  "IndexByte [] c = None"
| "IndexByte (x # xs) c = (if x = c then Some 0 else map_option Suc (IndexByte xs c))"

definition LastIndexByte :: "string \<Rightarrow> char \<Rightarrow> nat option" where
  "LastIndexByte s c = map_option (\<lambda>i. length s - 1 - i) (IndexByte (rev s) c)"

fun Contains :: "string \<Rightarrow> string \<Rightarrow> bool" where
  "Contains [] p = (p = [])"
| "Contains (x # xs) p = (HasPrefix (x # xs) p \<or> Contains xs p)"

lemma IndexByte_None: "c \<notin> set s \<Longrightarrow> IndexByte s c = None"
  by (induction s) auto

lemma IndexByte_found: "c \<notin> set u \<Longrightarrow> IndexByte (u @ c # v) c = Some (length u)"
  by (induction u) auto

text \<open>\<open>strings.Cut\<close> with a one-byte separator: before, after, found.\<close>

fun Cut :: "string \<Rightarrow> char \<Rightarrow> string \<times> string \<times> bool" where
  "Cut [] c = ([], [], False)"
| "Cut (x # xs) c =
     (if x = c then ([], xs, True)
      else case Cut xs c of (b, a, ok) \<Rightarrow> (x # b, a, ok))"

text \<open>\<open>strings.Split\<close> with a one-byte separator. The result is never empty.\<close>

fun Split :: "string \<Rightarrow> char \<Rightarrow> string list" where
  "Split [] c = [[]]"
| "Split (x # xs) c =
     (if x = c then [] # Split xs c
      else case Split xs c of [] \<Rightarrow> [[x]] | p # ps \<Rightarrow> (x # p) # ps)"

fun Join :: "string list \<Rightarrow> string \<Rightarrow> string" where
  "Join [] sep = []"
| "Join [x] sep = x"
| "Join (x # y # ys) sep = x @ sep @ Join (y # ys) sep"

definition ReplaceByte :: "string \<Rightarrow> char \<Rightarrow> char \<Rightarrow> string" where
  "ReplaceByte s a b = List.map (\<lambda>c. if c = a then b else c) s"

text \<open>\<open>strings.TrimRight\<close> and \<open>strings.Trim\<close> with a one-byte cutset.\<close>

definition TrimRightByte :: "string \<Rightarrow> char \<Rightarrow> string" where
  "TrimRightByte s c = rev (dropWhile (\<lambda>x. x = c) (rev s))"

definition TrimByte :: "string \<Rightarrow> char \<Rightarrow> string" where
  "TrimByte s c = TrimRightByte (dropWhile (\<lambda>x. x = c) s) c"

lemma HasPrefix_append [simp]: "HasPrefix (p @ s) p"
  by (simp add: HasPrefix_def)

lemma HasPrefix_Nil [simp]: "HasPrefix s []"
  by (simp add: HasPrefix_def)

lemma HasPrefix_iff: "HasPrefix s p \<longleftrightarrow> (\<exists>t. s = p @ t)"
  unfolding HasPrefix_def by (metis append_eq_conv_conj append_take_drop_id)

lemma HasPrefix_Cons [simp]: "HasPrefix (c # s) (d # p) \<longleftrightarrow> c = d \<and> HasPrefix s p"
  by (auto simp: HasPrefix_iff)

lemma HasSuffix_iff: "HasSuffix s p \<longleftrightarrow> (\<exists>t. s = t @ p)"
  unfolding HasSuffix_def HasPrefix_iff by (metis rev_append rev_rev_ident)

lemma TrimPrefix_append [simp]: "TrimPrefix (p @ s) p = s"
  by (simp add: TrimPrefix_def)

lemma TrimSuffix_append [simp]: "TrimSuffix (s @ p) p = s"
  by (simp add: TrimSuffix_def HasSuffix_iff)

lemma Cut_found: "c \<notin> set b \<Longrightarrow> Cut (b @ c # a) c = (b, a, True)"
  by (induction b) auto

lemma Cut_missing: "c \<notin> set s \<Longrightarrow> Cut s c = (s, [], False)"
  by (induction s) auto

lemma Cut_True: "Cut s c = (b, a, True) \<Longrightarrow> s = b @ c # a \<and> c \<notin> set b"
  by (induction s arbitrary: b) (auto split: if_splits prod.splits)

lemma Split_not_Nil [simp]: "Split s c \<noteq> []"
  by (cases s) (auto split: list.splits)

lemma Split_no_sep: "c \<notin> set s \<Longrightarrow> Split s c = [s]"
  by (induction s) auto

lemma Split_append_sep: "c \<notin> set p \<Longrightarrow> Split (p @ c # s) c = p # Split s c"
  by (induction p) auto

lemma Split_Join:
  "xs \<noteq> [] \<Longrightarrow> \<forall>x\<in>set xs. c \<notin> set x \<Longrightarrow> Split (Join xs [c]) c = xs"
  by (induction xs "[c]" rule: Join.induct) (auto simp: Split_no_sep Split_append_sep)

lemma Split_parts_no_sep: "p \<in> set (Split s c) \<Longrightarrow> c \<notin> set p"
proof (induction s arbitrary: p)
  case (Cons x s)
  then show ?case
    by (cases "Split s c") (auto split: if_splits)
qed simp

lemma Join_snoc: "xs \<noteq> [] \<Longrightarrow> Join (xs @ [x]) sep = Join xs sep @ sep @ x"
  by (induction xs sep rule: Join.induct) auto

lemma Join_Split: "Join (Split s c) [c] = s"
proof (induction s)
  case (Cons x s)
  obtain p ps where s: "Split s c = p # ps"
    by (cases "Split s c") auto
  with Cons show ?case
    by (cases ps) auto
qed simp

lemma Split_append_last:
  "Split (s @ c # t) c = Split s c @ Split t c"
proof (induction s)
  case (Cons x s)
  obtain p ps where "Split s c = p # ps"
    by (cases "Split s c") auto
  with Cons show ?case by simp
qed simp


section \<open>White space\<close>

definition ascii_space :: "char \<Rightarrow> bool" where
  "ascii_space c \<longleftrightarrow> c \<in> {CHR '' '', CHR 0x09, CHR 0x0A, CHR 0x0B, CHR 0x0C, CHR 0x0D}"

text \<open>The UTF-8 encodings of the white space characters above U+007F.\<close>

definition wide_spaces :: "string list" where
  "wide_spaces =
     [[CHR 0xC2, CHR 0x85], [CHR 0xC2, CHR 0xA0], [CHR 0xE1, CHR 0x9A, CHR 0x80],
      [CHR 0xE2, CHR 0x80, CHR 0xA8], [CHR 0xE2, CHR 0x80, CHR 0xA9],
      [CHR 0xE2, CHR 0x80, CHR 0xAF], [CHR 0xE2, CHR 0x81, CHR 0x9F],
      [CHR 0xE3, CHR 0x80, CHR 0x80],
      [CHR 0xE2, CHR 0x80, CHR 0x80], [CHR 0xE2, CHR 0x80, CHR 0x81], [CHR 0xE2, CHR 0x80, CHR 0x82],
      [CHR 0xE2, CHR 0x80, CHR 0x83], [CHR 0xE2, CHR 0x80, CHR 0x84], [CHR 0xE2, CHR 0x80, CHR 0x85],
      [CHR 0xE2, CHR 0x80, CHR 0x86], [CHR 0xE2, CHR 0x80, CHR 0x87], [CHR 0xE2, CHR 0x80, CHR 0x88],
      [CHR 0xE2, CHR 0x80, CHR 0x89], [CHR 0xE2, CHR 0x80, CHR 0x8A]]"

text \<open>
  The number of bytes of the white space character a string starts with, 0 if it starts with
  another one; the second argument lists the multi-byte characters.
\<close>

fun lead_space :: "string list \<Rightarrow> string \<Rightarrow> nat" where
  "lead_space ws [] = 0"
| "lead_space ws (c # cs) =
     (if ascii_space c then 1
      else case find (HasPrefix (c # cs)) ws of None \<Rightarrow> 0 | Some w \<Rightarrow> length w)"

function trim_lead :: "string list \<Rightarrow> string \<Rightarrow> string" where
  "trim_lead ws s = (if s = [] \<or> lead_space ws s = 0 then s else trim_lead ws (drop (lead_space ws s) s))"
  by pat_completeness auto
termination
  by (relation "measure (\<lambda>(ws, s). length s)") auto

declare trim_lead.simps [simp del]

definition TrimSpace :: "string \<Rightarrow> string" where
  "TrimSpace s = rev (trim_lead (List.map rev wide_spaces) (rev (trim_lead wide_spaces s)))"

text \<open>
  \<open>strings.Fields\<close>: the maximal runs of non-space characters. The second argument is the
  run read so far.
\<close>

function fields_from :: "string \<Rightarrow> string \<Rightarrow> string list" where
  "fields_from [] cur = (if cur = [] then [] else [cur])"
| "fields_from (c # cs) cur =
     (if lead_space wide_spaces (c # cs) = 0 then fields_from cs (cur @ [c])
      else (if cur = [] then [] else [cur])
             @ fields_from (drop (lead_space wide_spaces (c # cs)) (c # cs)) [])"
  by pat_completeness auto
termination
  by (relation "measure (\<lambda>(s, cur). length s)") (auto simp del: lead_space.simps)

definition Fields :: "string \<Rightarrow> string list" where
  "Fields s = fields_from s []"

definition wide_lead :: "string list \<Rightarrow> bool" where
  "wide_lead ws \<longleftrightarrow> list_all (\<lambda>w. w \<noteq> [] \<and> (128 :: nat) \<le> of_char (hd w)) ws"

lemma wide_lead_wide_spaces: "wide_lead wide_spaces"
  by code_simp

lemma wide_lead_rev_wide_spaces: "wide_lead (List.map rev wide_spaces)"
  by code_simp

lemma wide_lead_find:
  assumes "wide_lead ws" and "of_char c < (128 :: nat)"
  shows "find (HasPrefix (c # cs)) ws = None"
proof -
  have "\<not> HasPrefix (c # cs) w" if "w \<in> set ws" for w
  proof -
    have "w \<noteq> []" and "128 \<le> (of_char (hd w) :: nat)"
      using that assms(1) by (auto simp: wide_lead_def list_all_iff)
    then obtain x xs where "w = x # xs" and "128 \<le> (of_char x :: nat)"
      by (metis list.collapse)
    with assms(2) show ?thesis by auto
  qed
  then show ?thesis by (auto simp: find_None_iff)
qed

lemma lead_space_plain:
  "wide_lead ws \<Longrightarrow> \<not> ascii_space c \<Longrightarrow> of_char c < (128 :: nat) \<Longrightarrow> lead_space ws (c # cs) = 0"
  by (simp add: wide_lead_find)

text \<open>A string whose first and last characters are printable ASCII is trimmed already.\<close>

definition plain_char :: "char \<Rightarrow> bool" where
  "plain_char c \<longleftrightarrow> of_char c > (32 :: nat) \<and> of_char c < (128 :: nat)"

lemma plain_char_not_space: "plain_char c \<Longrightarrow> \<not> ascii_space c"
  by (auto simp: plain_char_def ascii_space_def)

lemma trim_lead_plain: "wide_lead ws \<Longrightarrow> plain_char c \<Longrightarrow> trim_lead ws (c # cs) = c # cs"
  by (subst trim_lead.simps)
    (simp add: lead_space_plain plain_char_not_space plain_char_def del: lead_space.simps)

lemma trim_lead_Nil [simp]: "trim_lead ws [] = []"
  by (simp add: trim_lead.simps)

lemma TrimSpace_Nil [simp]: "TrimSpace [] = []"
  by (simp add: TrimSpace_def)

lemma TrimSpace_plain:
  assumes "s \<noteq> []" and "plain_char (hd s)" and "plain_char (last s)"
  shows "TrimSpace s = s"
proof -
  have "trim_lead wide_spaces (hd s # tl s) = hd s # tl s"
    using assms(2) by (rule trim_lead_plain [OF wide_lead_wide_spaces])
  moreover have "trim_lead (List.map rev wide_spaces) (hd (rev s) # tl (rev s)) = hd (rev s) # tl (rev s)"
    using assms(1,3) by (intro trim_lead_plain [OF wide_lead_rev_wide_spaces]) (simp add: hd_rev)
  ultimately show ?thesis
    using assms(1) by (simp add: TrimSpace_def del: rev.simps)
qed

lemma TrimSpace_all_plain: "\<forall>c\<in>set s. plain_char c \<Longrightarrow> TrimSpace s = s"
  by (cases "s = []") (auto intro: TrimSpace_plain)

lemma trim_lead_space: "ascii_space c \<Longrightarrow> trim_lead ws (c # cs) = trim_lead ws cs"
  by (subst trim_lead.simps) simp

lemma TrimSpace_lead_space: "ascii_space c \<Longrightarrow> TrimSpace (c # cs) = TrimSpace cs"
  by (simp add: TrimSpace_def trim_lead_space)


text \<open>Words of printable ASCII separated by one space are the fields of their line.\<close>

lemma fields_from_plain: "\<forall>c\<in>set u. plain_char c \<Longrightarrow> fields_from (u @ s) cur = fields_from s (cur @ u)"
proof (induction u arbitrary: cur)
  case (Cons c u)
  then have "plain_char c" by simp
  then have "lead_space wide_spaces (c # u @ s) = 0"
    by (intro lead_space_plain) (simp_all add: wide_lead_wide_spaces plain_char_not_space plain_char_def)
  with Cons show ?case
    by (simp del: lead_space.simps)
qed simp

lemma fields_from_space: "ascii_space c \<Longrightarrow> fields_from (c # s) cur = (if cur = [] then [] else [cur]) @ fields_from s []"
  by simp

definition word_ok :: "string \<Rightarrow> bool" where
  "word_ok u \<longleftrightarrow> u \<noteq> [] \<and> list_all plain_char u"

lemma word_trim: "word_ok u \<Longrightarrow> TrimSpace u = u"
  by (simp add: word_ok_def list_all_iff TrimSpace_all_plain)

lemma TrimSpace_blank_end:
  assumes "s \<noteq> []" and "plain_char (hd s)" and "plain_char (last s)" and "ascii_space c"
  shows "TrimSpace (s @ [c]) = s"
proof -
  obtain x xs y ys where u: "s = x # xs" "rev s = y # ys"
    using assms(1) by (metis list.exhaust rev_is_Nil_conv)
  then have plain: "plain_char x" "plain_char y"
    using assms(2,3) by (simp, metis hd_rev list.sel(1))
  have "trim_lead wide_spaces (s @ [c]) = s @ [c]"
    using plain(1) by (simp add: u(1) trim_lead_plain wide_lead_wide_spaces)
  moreover have "trim_lead (List.map rev wide_spaces) (c # rev s) = rev s"
    using plain(2) assms(4) by (simp add: trim_lead_space) (simp add: u(2) trim_lead_plain wide_lead_rev_wide_spaces)
  ultimately show ?thesis
    by (simp add: TrimSpace_def)
qed

lemma word_trim_blank: "word_ok u \<Longrightarrow> ascii_space c \<Longrightarrow> TrimSpace (u @ [c]) = u"
  by (intro TrimSpace_blank_end) (auto simp: word_ok_def list_all_iff)

lemma Fields_word_space:
  assumes "word_ok u" and "ascii_space c"
  shows "Fields (u @ c # s) = u # Fields s"
proof -
  have "fields_from (u @ c # s) [] = fields_from (c # s) u"
    using assms(1) fields_from_plain [of u "c # s" "[]"] by (simp add: word_ok_def list_all_iff del: fields_from.simps)
  also have "\<dots> = u # fields_from s []"
    using assms by (simp add: word_ok_def fields_from_space del: fields_from.simps)
  finally show ?thesis
    by (simp add: Fields_def del: fields_from.simps)
qed

lemma Fields_word: "word_ok u \<Longrightarrow> Fields u = [u]"
  using fields_from_plain [of u "[]" "[]"] by (simp add: Fields_def word_ok_def list_all_iff)

lemma Fields_space: "ascii_space c \<Longrightarrow> Fields (c # s) = Fields s"
  by (simp add: Fields_def fields_from_space del: fields_from.simps)

lemma Fields_Nil [simp]: "Fields [] = []"
  by (simp add: Fields_def)

lemma Fields_Join: "list_all word_ok us \<Longrightarrow> Fields (Join us '' '') = us"
proof (induction us rule: induct_list012)
  case (3 u v us)
  then show ?case
    by (simp add: Fields_word_space ascii_space_def)
qed (simp_all add: Fields_word)


section \<open>Letter case\<close>

definition upper_letters :: string where
  "upper_letters = ''ABCDEFGHIJKLMNOPQRSTUVWXYZ''"

definition lower_letters :: string where
  "lower_letters = ''abcdefghijklmnopqrstuvwxyz''"

definition lower_char :: "char \<Rightarrow> char" where
  "lower_char c = (case map_of (zip upper_letters lower_letters) c of None \<Rightarrow> c | Some d \<Rightarrow> d)"

definition upper_char :: "char \<Rightarrow> char" where
  "upper_char c = (case map_of (zip lower_letters upper_letters) c of None \<Rightarrow> c | Some d \<Rightarrow> d)"

definition ToLower :: "string \<Rightarrow> string" where
  "ToLower s = List.map lower_char s"

definition ToUpper :: "string \<Rightarrow> string" where
  "ToUpper s = List.map upper_char s"

text \<open>
  \<open>strings.EqualFold\<close> against an ASCII pattern. Besides the two ASCII cases of a letter,
  Unicode folding identifies k with the Kelvin sign (U+212A) and s with the long s (U+017F).
\<close>

fun EqualFold :: "string \<Rightarrow> string \<Rightarrow> bool" where
  "EqualFold s [] = (s = [])"
| "EqualFold s (t # ts) =
     (case s of
        [] \<Rightarrow> False
      | c # cs \<Rightarrow>
          if lower_char c = lower_char t then EqualFold cs ts
          else if lower_char t = CHR ''k'' \<and> HasPrefix s [CHR 0xE2, CHR 0x84, CHR 0xAA]
            then EqualFold (drop 3 s) ts
          else if lower_char t = CHR ''s'' \<and> HasPrefix s [CHR 0xC5, CHR 0xBF]
            then EqualFold (drop 2 s) ts
          else False)"

lemma EqualFold_refl [simp]: "EqualFold s s"
  by (induction s) auto

lemma EqualFold_Nil [simp]: "EqualFold [] t \<longleftrightarrow> t = []"
  by (cases t) auto


section \<open>Decimal integers\<close>

definition is_digit :: "char \<Rightarrow> bool" where
  "is_digit c \<longleftrightarrow> c \<in> set ''0123456789''"

definition digit_val :: "char \<Rightarrow> int" where
  "digit_val c = of_char c - 48"

definition digit_char :: "int \<Rightarrow> char" where
  "digit_char d = ''0123456789'' ! nat d"

definition digits_val :: "int \<Rightarrow> string \<Rightarrow> int" where
  "digits_val a ds = foldl (\<lambda>a c. 10 * a + digit_val c) a ds"

text \<open>The decimal digits of a non-negative number.\<close>

function nat_str :: "int \<Rightarrow> string" where
  "nat_str n = (if n < 10 then [digit_char n] else nat_str (n div 10) @ [digit_char (n mod 10)])"
  by pat_completeness auto
termination
  by (relation "measure nat") auto

declare nat_str.simps [simp del]

text \<open>\<open>strconv.Itoa\<close>\<close>

definition Itoa :: "int \<Rightarrow> string" where
  "Itoa i = (if i < 0 then CHR ''-'' # nat_str (- i) else nat_str i)"

text \<open>
  \<open>strconv.Atoi\<close> and \<open>strconv.ParseInt(s, 10, 64)\<close>: the value and whether the error is nil.
  A syntax error gives 0; a value out of range gives the nearest \<open>int64\<close> and an error.
\<close>

definition Atoi :: "string \<Rightarrow> int \<times> bool" where
  "Atoi s =
     (let (neg, ds) =
        (case s of
           [] \<Rightarrow> (False, [])
         | c # cs \<Rightarrow> if c = CHR ''-'' then (True, cs) else if c = CHR ''+'' then (False, cs) else (False, s))
      in if ds = [] \<or> \<not> list_all is_digit ds then (0, False)
         else let v = digits_val 0 ds
              in if neg then (if v \<le> 2 ^ 63 then (- v, True) else (- (2 ^ 63), False))
                 else (if v < 2 ^ 63 then (v, True) else (2 ^ 63 - 1, False)))"

lemma digit_char_cases:
  assumes "0 \<le> d" and "d < 10"
  shows "is_digit (digit_char d) \<and> digit_val (digit_char d) = d"
proof -
  have "d = 0 \<or> d = 1 \<or> d = 2 \<or> d = 3 \<or> d = 4 \<or> d = 5 \<or> d = 6 \<or> d = 7 \<or> d = 8 \<or> d = 9"
    using assms by presburger
  then show ?thesis
    by (elim disjE) (simp_all add: is_digit_def digit_val_def digit_char_def)
qed

lemma is_digit_plain: "is_digit c \<Longrightarrow> plain_char c"
  by (auto simp: is_digit_def plain_char_def)

lemma is_digit_not: "is_digit c \<Longrightarrow> c \<noteq> CHR ''-'' \<and> c \<noteq> CHR ''+''"
  by (auto simp: is_digit_def)

lemma nat_str_not_Nil [simp]: "nat_str n \<noteq> []"
  by (subst nat_str.simps) simp

lemma nat_str_digits: "0 \<le> n \<Longrightarrow> list_all is_digit (nat_str n)"
proof (induction n rule: nat_str.induct)
  case (1 n)
  then show ?case
    by (cases "n < 10") (auto simp: nat_str.simps [of n] digit_char_cases)
qed

lemma digits_val_nat_str: "0 \<le> n \<Longrightarrow> digits_val 0 (nat_str n) = n"
proof (induction n rule: nat_str.induct)
  case (1 n)
  then show ?case
    by (cases "n < 10") (auto simp: nat_str.simps [of n] digits_val_def digit_char_cases)
qed

lemma nat_str_hd: "0 \<le> n \<Longrightarrow> is_digit (hd (nat_str n))"
  using nat_str_digits [of n] nat_str_not_Nil [of n]
  by (cases "nat_str n") (auto simp del: nat_str_not_Nil)

lemma Atoi_Itoa:
  assumes "in_int64 i"
  shows "Atoi (Itoa i) = (i, True)"
proof (cases "i < 0")
  case True
  then show ?thesis
    using assms nat_str_digits [of "- i"]
    by (simp add: Atoi_def Itoa_def digits_val_nat_str in_int64_def)
next
  case False
  obtain c cs where n: "nat_str i = c # cs"
    using nat_str_not_Nil [of i] by (cases "nat_str i") auto
  have c: "is_digit c"
    using nat_str_hd [of i] n False by simp
  show ?thesis
    using False assms nat_str_digits [of i] digits_val_nat_str [of i] is_digit_not [OF c]
    by (simp add: Atoi_def Itoa_def n in_int64_def)
qed

lemma Itoa_inj: "in_int64 i \<Longrightarrow> in_int64 j \<Longrightarrow> Itoa i = Itoa j \<Longrightarrow> i = j"
  by (metis Atoi_Itoa prod.inject)

lemma Itoa_word: "word_ok (Itoa v)"
proof -
  have "plain_char (CHR ''-'')" by (simp add: plain_char_def)
  then show ?thesis
    using nat_str_digits [of v] nat_str_digits [of "- v"]
    by (auto simp: word_ok_def Itoa_def list_all_iff is_digit_plain)
qed

lemma Itoa_trimmed [simp]: "TrimSpace (Itoa n) = Itoa n"
  by (rule word_trim [OF Itoa_word])

lemma Itoa_nonneg: "0 \<le> n \<Longrightarrow> list_all is_digit (Itoa n)"
  by (simp add: Itoa_def nat_str_digits)

lemma digits_free: "list_all is_digit s \<Longrightarrow> \<not> is_digit c \<Longrightarrow> c \<notin> set s"
  by (auto simp: list_all_iff)

lemma digit_val_nonneg: "is_digit c \<Longrightarrow> 0 \<le> digit_val c"
  by (auto simp: is_digit_def digit_val_def)

lemma digits_val_nonneg: "0 \<le> a \<Longrightarrow> list_all is_digit ds \<Longrightarrow> 0 \<le> digits_val a ds"
  unfolding digits_val_def
  by (induction ds arbitrary: a) (auto simp: digit_val_nonneg)

lemma Atoi_range: "in_int64 (fst (Atoi s))"
proof -
  obtain neg ds where d:
    "(case s of [] \<Rightarrow> (False, []) | c # cs \<Rightarrow> if c = CHR ''-'' then (True, cs)
       else if c = CHR ''+'' then (False, cs) else (False, s)) = (neg, ds)"
    by fastforce
  show ?thesis
  proof (cases "ds = [] \<or> \<not> list_all is_digit ds")
    case True
    then show ?thesis by (simp add: Atoi_def d in_int64_def)
  next
    case False
    then have "0 \<le> digits_val 0 ds" by (simp add: digits_val_nonneg)
    with False show ?thesis by (auto simp: Atoi_def d in_int64_def Let_def)
  qed
qed


section \<open>File paths\<close>

text \<open>
  \<open>filepath.Clean\<close> on the components of a path: empty components and \<open>.\<close> disappear,
  \<open>..\<close> removes the component before it, and at the root it is dropped.
\<close>

fun clean_parts :: "bool \<Rightarrow> string list \<Rightarrow> string list \<Rightarrow> string list" where
  "clean_parts rooted acc [] = rev acc"
| "clean_parts rooted acc (p # ps) =
     (if p = [] \<or> p = ''.'' then clean_parts rooted acc ps
      else if p = ''..'' then
        (case acc of
           [] \<Rightarrow> clean_parts rooted (if rooted then [] else [p]) ps
         | a # as \<Rightarrow> if a = ''..'' then clean_parts rooted (p # acc) ps
                     else clean_parts rooted as ps)
      else clean_parts rooted (p # acc) ps)"

definition Clean :: "string \<Rightarrow> string" where
  "Clean p =
     (let rooted = HasPrefix p ''/'';
          parts = clean_parts rooted [] (Split p (CHR ''/''))
      in if rooted then CHR ''/'' # Join parts ''/''
         else if parts = [] then ''.'' else Join parts ''/'')"

definition FilepathJoin :: "string list \<Rightarrow> string" where
  "FilepathJoin elems =
     (let es = filter (\<lambda>e. e \<noteq> []) elems
      in if es = [] then [] else Clean (Join es ''/''))"

text \<open>\<open>filepath.Base\<close>: the last component, without trailing slashes.\<close>

definition FilepathBase :: "string \<Rightarrow> string" where
  "FilepathBase p =
     (if p = [] then ''.''
      else let q = TrimRightByte p (CHR ''/'')
           in if q = [] then ''/'' else last (Split q (CHR ''/'')))"

end
