(* ===== verification/Json.thy ===== *)
theory Json
  imports Go_Strings
begin

text \<open>
  The part of \<open>encoding/json\<close> the program relies on: JSON documents as trees, string
  literals with their escapes, and the rules by which \<open>Unmarshal\<close> fills struct fields.
  Numbers and strings keep their literal text, as the decoder of the library does until it
  knows the type it decodes into: \<open>JNum l\<close> is the number literal \<open>l\<close>, \<open>JStr r\<close> the string
  literal with the text \<open>r\<close> between its quotes.
\<close>

datatype json =
    JNull
  | JBool bool
  | JNum string
  | JStr string
  | JArr "json list"
  | JObj "(string \<times> json) list"


section \<open>UTF-8\<close>

definition byte_in :: "int \<Rightarrow> int \<Rightarrow> char \<Rightarrow> bool" where
  "byte_in lo hi c \<longleftrightarrow> lo \<le> of_char c \<and> of_char c \<le> hi"

definition cont :: "char \<Rightarrow> bool" where
  "cont c \<longleftrightarrow> byte_in 0x80 0xBF c"

text \<open>The length of the well-formed UTF-8 encoding a byte string starts with, 0 if none.\<close>

fun utf8_len :: "string \<Rightarrow> nat" where
  "utf8_len [] = 0"
| "utf8_len (a # s) =
     (if byte_in 0 0x7F a then 1
      else case s of
        [] \<Rightarrow> 0
      | b # s2 \<Rightarrow>
          if byte_in 0xC2 0xDF a \<and> cont b then 2
          else case s2 of
            [] \<Rightarrow> 0
          | c # s3 \<Rightarrow>
              if cont c \<and> (byte_in 0xE0 0xE0 a \<and> byte_in 0xA0 0xBF b
                  \<or> byte_in 0xED 0xED a \<and> byte_in 0x80 0x9F b
                  \<or> (byte_in 0xE1 0xEC a \<or> byte_in 0xEE 0xEF a) \<and> cont b) then 3
              else case s3 of
                [] \<Rightarrow> 0
              | d # s4 \<Rightarrow>
                  if cont c \<and> cont d \<and> (byte_in 0xF0 0xF0 a \<and> byte_in 0x90 0xBF b
                      \<or> byte_in 0xF4 0xF4 a \<and> byte_in 0x80 0x8F b
                      \<or> byte_in 0xF1 0xF3 a \<and> cont b) then 4
                  else 0)"

declare utf8_len.simps(2) [simp del]

lemma utf8_len_le: "utf8_len s \<le> length s"
  by (cases s) (auto simp: utf8_len.simps(2) split: list.split)

text \<open>The replacement character U+FFFD.\<close>

definition rune_error :: string where
  "rune_error = [CHR 0xEF, CHR 0xBF, CHR 0xBD]"

definition byte_of :: "int \<Rightarrow> char" where
  "byte_of n = char_of n"

text \<open>\<open>utf8.AppendRune\<close>; a surrogate half becomes U+FFFD.\<close>

definition utf8_encode :: "int \<Rightarrow> string" where
  "utf8_encode r =
     (if r < 0x80 then [byte_of r]
      else if r < 0x800 then [byte_of (0xC0 + r div 64), byte_of (0x80 + r mod 64)]
      else if 0xD800 \<le> r \<and> r < 0xE000 then rune_error
      else if r < 0x10000 then
        [byte_of (0xE0 + r div 4096), byte_of (0x80 + r div 64 mod 64), byte_of (0x80 + r mod 64)]
      else
        [byte_of (0xF0 + r div 262144), byte_of (0x80 + r div 4096 mod 64),
         byte_of (0x80 + r div 64 mod 64), byte_of (0x80 + r mod 64)])"

function valid_utf8 :: "string \<Rightarrow> bool" where
  "valid_utf8 s =
     (if s = [] then True else if utf8_len s = 0 then False else valid_utf8 (drop (utf8_len s) s))"
  by pat_completeness auto
termination
  by (relation "measure length") auto

declare valid_utf8.simps [simp del]


section \<open>String literals\<close>

definition hex_digits :: string where
  "hex_digits = ''0123456789abcdef''"

definition hex_val :: "char \<Rightarrow> int option" where
  "hex_val c = map_option int (IndexByte hex_digits (lower_char c))"

definition hex4 :: "string \<Rightarrow> int option" where
  "hex4 s =
     (case s of
        a # b # c # d # _ \<Rightarrow>
          (case (hex_val a, hex_val b, hex_val c, hex_val d) of
             (Some w, Some x, Some y, Some z) \<Rightarrow> Some (((w * 16 + x) * 16 + y) * 16 + z)
           | _ \<Rightarrow> None)
      | _ \<Rightarrow> None)"

definition u_escape :: "int \<Rightarrow> string" where
  "u_escape n =
     [CHR 0x5C, CHR ''u'', hex_digits ! nat (n div 4096 mod 16), hex_digits ! nat (n div 256 mod 16),
      hex_digits ! nat (n div 16 mod 16), hex_digits ! nat (n mod 16)]"

text \<open>
  The literal \<open>Marshal\<close> writes for one ASCII byte: escapes for quote, backslash and control
  characters, and for the characters that are special in HTML.
\<close>

definition quote_byte :: "char \<Rightarrow> string" where
  "quote_byte c =
     (if c = CHR 0x22 \<or> c = CHR 0x5C then [CHR 0x5C, c]
      else if c = CHR 0x08 then [CHR 0x5C, CHR ''b'']
      else if c = CHR 0x0C then [CHR 0x5C, CHR ''f'']
      else if c = CHR 0x0A then [CHR 0x5C, CHR ''n'']
      else if c = CHR 0x0D then [CHR 0x5C, CHR ''r'']
      else if c = CHR 0x09 then [CHR 0x5C, CHR ''t'']
      else if byte_in 0 0x1F c \<or> c = CHR ''<'' \<or> c = CHR ''>'' \<or> c = CHR ''&''
        then u_escape (of_char c)
      else [c])"

function quote :: "string \<Rightarrow> string" where
  "quote [] = []"
| "quote (c # s) =
     (let n = utf8_len (c # s)
      in if n = 0 then u_escape 0xFFFD @ quote s
         else if n = 1 then quote_byte c @ quote s
         else if take n (c # s) = [CHR 0xE2, CHR 0x80, CHR 0xA8] then u_escape 0x2028 @ quote (drop n (c # s))
         else if take n (c # s) = [CHR 0xE2, CHR 0x80, CHR 0xA9] then u_escape 0x2029 @ quote (drop n (c # s))
         else take n (c # s) @ quote (drop n (c # s)))"
  by pat_completeness auto
termination
  by (relation "measure length") auto

text \<open>
  Reading a literal back: escapes, surrogate pairs (a lone half becomes U+FFFD), and bytes that
  are not well-formed UTF-8 (each becomes U+FFFD).
\<close>

definition simple_escape :: "char \<Rightarrow> char option" where
  "simple_escape c =
     (if c = CHR 0x22 \<or> c = CHR 0x5C \<or> c = CHR ''/'' then Some c
      else if c = CHR ''b'' then Some (CHR 0x08)
      else if c = CHR ''f'' then Some (CHR 0x0C)
      else if c = CHR ''n'' then Some (CHR 0x0A)
      else if c = CHR ''r'' then Some (CHR 0x0D)
      else if c = CHR ''t'' then Some (CHR 0x09)
      else None)"

text \<open>A \<open>\u\<close> escape after its first two characters: the bytes and how many characters it took.\<close>

definition u_unescape :: "string \<Rightarrow> (string \<times> nat) option" where
  "u_unescape s =
     (case hex4 s of
        None \<Rightarrow> None
      | Some hi \<Rightarrow>
          if 0xD800 \<le> hi \<and> hi < 0xDC00 \<and> take 2 (drop 4 s) = [CHR 0x5C, CHR ''u''] then
            (case hex4 (drop 6 s) of
               Some lo \<Rightarrow>
                 if 0xDC00 \<le> lo \<and> lo < 0xE000
                 then Some (utf8_encode ((hi - 0xD800) * 1024 + (lo - 0xDC00) + 0x10000), 10)
                 else Some (rune_error, 4)
             | None \<Rightarrow> Some (rune_error, 4))
          else Some (utf8_encode hi, 4))"

function unquote :: "string \<Rightarrow> string option" where
  "unquote [] = Some []"
| "unquote (c # s) =
     (if c = CHR 0x5C then
        (case s of
           [] \<Rightarrow> None
         | e # t \<Rightarrow>
             if e = CHR ''u'' then
               (case u_unescape t of
                  None \<Rightarrow> None
                | Some (bs, n) \<Rightarrow> map_option ((@) bs) (unquote (drop n t)))
             else (case simple_escape e of
                     None \<Rightarrow> None
                   | Some b \<Rightarrow> map_option ((#) b) (unquote t)))
      else if c = CHR 0x22 \<or> byte_in 0 0x1F c then None
      else (let n = utf8_len (c # s)
            in if n = 0 then map_option ((@) rune_error) (unquote s)
               else map_option ((@) (take n (c # s))) (unquote (drop n (c # s)))))"
  by pat_completeness auto
termination
  by (relation "measure length") auto

declare quote.simps(2) [simp del] unquote.simps(2) [simp del]


subsection \<open>Reading back what was written\<close>

lemma hex_val_digit:
  assumes "0 \<le> k" and "k < 16"
  shows "hex_val (hex_digits ! nat k) = Some k"
proof -
  have "k = 0 \<or> k = 1 \<or> k = 2 \<or> k = 3 \<or> k = 4 \<or> k = 5 \<or> k = 6 \<or> k = 7 \<or> k = 8 \<or> k = 9
      \<or> k = 10 \<or> k = 11 \<or> k = 12 \<or> k = 13 \<or> k = 14 \<or> k = 15"
    using assms by presburger
  then show ?thesis
    by (elim disjE)
      (simp_all add: hex_val_def hex_digits_def lower_char_def upper_letters_def lower_letters_def)
qed

lemma hex4_digits:
  assumes "w \<in> {0..15}" and "x \<in> {0..15}" and "y \<in> {0..15}" and "z \<in> {0..15}"
  shows "hex4 (hex_digits ! nat w # hex_digits ! nat x # hex_digits ! nat y # hex_digits ! nat z # r)
    = Some (((w * 16 + x) * 16 + y) * 16 + z)"
  using assms by (simp add: hex4_def hex_val_digit)

lemma mod_16: "(k :: int) mod 16 \<in> {0..15}"
  using pos_mod_bound [of 16 k] pos_mod_sign [of 16 k] by auto

lemma hex4_u_escape:
  assumes "0 \<le> n" and "n < 65536"
  shows "hex4 (drop 2 (u_escape n) @ r) = Some n"
proof -
  have "n div 4096 mod 16 = n div 4096"
    using assms by (intro mod_pos_pos_trivial) auto
  moreover have "n div 4096 * 16 + n div 256 mod 16 = n div 256"
    using div_mult_mod_eq [of "n div 256" 16] by (simp add: zdiv_zmult2_eq [symmetric])
  moreover have "n div 256 * 16 + n div 16 mod 16 = n div 16"
    using div_mult_mod_eq [of "n div 16" 16] by (simp add: zdiv_zmult2_eq [symmetric])
  moreover have "n div 16 * 16 + n mod 16 = n"
    by (rule div_mult_mod_eq)
  ultimately have "((n div 4096 mod 16 * 16 + n div 256 mod 16) * 16 + n div 16 mod 16) * 16 + n mod 16 = n"
    by (simp only:)
  moreover have "drop 2 (u_escape n) @ r
      = hex_digits ! nat (n div 4096 mod 16) # hex_digits ! nat (n div 256 mod 16)
        # hex_digits ! nat (n div 16 mod 16) # hex_digits ! nat (n mod 16) # r"
    by (simp only: u_escape_def drop_Suc_Cons numeral_2_eq_2 drop_0 append_Cons append_Nil)
  ultimately show ?thesis
    by (simp only: hex4_digits mod_16)
qed

lemma u_unescape_u_escape:
  assumes "0 \<le> n" and "n < 0xD800"
  shows "u_unescape (drop 2 (u_escape n) @ r) = Some (utf8_encode n, 4)"
  using assms hex4_u_escape [of n r] by (simp add: u_unescape_def)

lemma unquote_u_escape:
  assumes "0 \<le> n" and "n < 0xD800"
  shows "unquote (u_escape n @ r) = map_option ((@) (utf8_encode n)) (unquote r)"
proof -
  obtain a b c d where u: "u_escape n = [CHR 0x5C, CHR ''u'', a, b, c, d]"
    by (simp add: u_escape_def)
  show ?thesis
    using u_unescape_u_escape [OF assms, of r] by (simp add: u unquote.simps(2))
qed

lemma of_char_nonneg [simp]: "0 \<le> (of_char c :: int)"
  by (metis of_nat_of_char of_nat_0_le_iff)

lemma append_single: "(@) [c] = (#) c"
  by auto

lemma byte_of_char: "byte_of (of_char c) = c"
  by (simp add: byte_of_def)

lemma utf8_len_ascii: "byte_in 0 0x7F c \<Longrightarrow> utf8_len (c # s) = 1"
  by (simp add: utf8_len.simps(2))

lemma unquote_quote_byte:
  assumes "byte_in 0 0x7F c"
  shows "unquote (quote_byte c @ r) = map_option ((#) c) (unquote r)"
proof -
  have u: "unquote (u_escape (of_char c) @ r) = map_option ((#) c) (unquote r)"
    using assms unquote_u_escape [of "of_char c" r]
    by (simp add: byte_in_def utf8_encode_def byte_of_char append_single)
  have "CHR 0x5C \<noteq> c \<and> CHR 0x22 \<noteq> c \<and> \<not> byte_in 0 0x1F c \<Longrightarrow> unquote (c # r) = map_option ((#) c) (unquote r)"
    using assms by (auto simp: unquote.simps(2) utf8_len_ascii append_single)
  with u show ?thesis
    unfolding quote_byte_def
    by (auto simp: unquote.simps(2) simple_escape_def)
qed

lemma utf8_len_take: "utf8_len s = n \<Longrightarrow> n \<noteq> 0 \<Longrightarrow> utf8_len (take n s @ r) = n"
  by (cases s) (auto simp: utf8_len.simps(2) split: list.splits if_splits)

lemma utf8_len_wide: "utf8_len (c # s) \<noteq> 0 \<Longrightarrow> utf8_len (c # s) \<noteq> 1 \<Longrightarrow> of_char c \<ge> (0x80 :: int)"
  using utf8_len_ascii [of c s] by (cases "of_char c \<le> (127 :: int)") (auto simp: byte_in_def)

lemma unquote_wide:
  assumes n: "utf8_len (c # s) = n" and "n \<noteq> 0" and "n \<noteq> 1"
  shows "unquote (take n (c # s) @ r) = map_option ((@) (take n (c # s))) (unquote r)"
proof -
  obtain m where m: "n = Suc m" using assms by (cases n) auto
  have len: "length (take n (c # s)) = n"
    using utf8_len_le [of "c # s"] n by simp
  have w: "(0x80 :: int) \<le> of_char c"
    using assms utf8_len_wide [of c s] by simp
  have "utf8_len (take n (c # s) @ r) = n"
    using assms by (intro utf8_len_take) auto
  then show ?thesis
    using w len by (auto simp: m unquote.simps(2) byte_in_def Let_def)
qed

theorem unquote_quote: "valid_utf8 s \<Longrightarrow> unquote (quote s) = Some s"
proof (induction s rule: quote.induct)
  case (2 c s)
  define n where "n = utf8_len (c # s)"
  have n0: "n \<noteq> 0" and v: "valid_utf8 (drop n (c # s))"
    using "2.prems" by (auto simp: n_def valid_utf8.simps [of "c # s"] split: if_splits)
  have split: "take n (c # s) @ drop n (c # s) = c # s"
    by (rule append_take_drop_id)
  show ?case
  proof (cases "n = 1")
    case True
    then have "byte_in 0 0x7F c"
      by (auto simp: n_def utf8_len.simps(2) split: if_splits list.splits)
    then show ?thesis
      using True v "2.IH"(2) [OF refl] n_def
      by (simp add: quote.simps(2) unquote_quote_byte)
  next
    case False
    have IH: "unquote (quote (drop n (c # s))) = Some (drop n (c # s))"
      using "2.IH"(3-5) [OF refl] v n0 False unfolding n_def by metis
    have line: "unquote (u_escape 0x2028 @ r) = map_option ((@) [CHR 0xE2, CHR 0x80, CHR 0xA8]) (unquote r)"
      and para: "unquote (u_escape 0x2029 @ r) = map_option ((@) [CHR 0xE2, CHR 0x80, CHR 0xA9]) (unquote r)" for r
      by (simp_all add: unquote_u_escape utf8_encode_def byte_of_def char_of_def
          bit_simps)
    define h where "h = (if take n (c # s) = [CHR 0xE2, CHR 0x80, CHR 0xA8] then u_escape 0x2028
        else if take n (c # s) = [CHR 0xE2, CHR 0x80, CHR 0xA9] then u_escape 0x2029 else take n (c # s))"
    have "quote (c # s) = h @ quote (drop n (c # s))"
      using n0 False by (simp add: quote.simps(2) n_def [symmetric] h_def Let_def del: take_Cons' drop_Cons')
    moreover have "unquote (h @ r) = map_option ((@) (take n (c # s))) (unquote r)" for r
      using line para unquote_wide [OF n_def [symmetric] n0 False, of r] unfolding h_def by presburger
    ultimately show ?thesis
      using IH split by simp
  qed
qed simp


section \<open>Filling Go values\<close>

text \<open>
  \<open>Unmarshal\<close> decodes into a Go type and reports an error when some value does not fit; the
  program drops the whole result in that case, so a decoder is a function into \<open>option\<close>.
  A struct field takes every member of the object whose key equals the field's JSON name up to
  letter case, the last one winning, and \<open>null\<close> leaves it as it is.
\<close>

type_synonym 'a decoder = "json \<Rightarrow> 'a option"

definition jstr :: "string \<Rightarrow> json" where
  "jstr s = JStr (quote s)"

definition jint :: "int \<Rightarrow> json" where
  "jint n = JNum (Itoa n)"

definition dec_string :: "string decoder" where
  "dec_string v = (case v of JStr r \<Rightarrow> unquote r | _ \<Rightarrow> None)"

definition dec_int :: "int decoder" where
  "dec_int v = (case v of JNum l \<Rightarrow> (case Atoi l of (n, ok) \<Rightarrow> if ok then Some n else None) | _ \<Rightarrow> None)"

definition dec_bool :: "bool decoder" where
  "dec_bool v = (case v of JBool b \<Rightarrow> Some b | _ \<Rightarrow> None)"

text \<open>A slice or a struct accepts \<open>null\<close> as its zero value.\<close>

definition as_array :: "json list decoder" where
  "as_array v = (case v of JArr vs \<Rightarrow> Some vs | JNull \<Rightarrow> Some [] | _ \<Rightarrow> None)"

definition as_object :: "(string \<times> json) list decoder" where
  "as_object v = (case v of JObj kvs \<Rightarrow> Some kvs | JNull \<Rightarrow> Some [] | _ \<Rightarrow> None)"

fun dec_all :: "'a decoder \<Rightarrow> json list \<Rightarrow> 'a list option" where
  "dec_all dec [] = Some []"
| "dec_all dec (v # vs) =
     (case dec v of
        None \<Rightarrow> None
      | Some x \<Rightarrow> (case dec_all dec vs of None \<Rightarrow> None | Some xs \<Rightarrow> Some (x # xs)))"

definition dec_slice :: "'a decoder \<Rightarrow> 'a list decoder" where
  "dec_slice dec v = (case as_array v of None \<Rightarrow> None | Some vs \<Rightarrow> dec_all dec vs)"

text \<open>A \<open>null\<close> element of a slice of scalars is the scalar's zero value.\<close>

definition or_zero :: "'a \<Rightarrow> 'a decoder \<Rightarrow> 'a decoder" where
  "or_zero z dec v = (if v = JNull then Some z else dec v)"

definition key_is :: "string \<Rightarrow> string \<Rightarrow> bool" where
  "key_is name k = (case unquote k of None \<Rightarrow> False | Some s \<Rightarrow> EqualFold s name)"

definition field_step :: "'a decoder \<Rightarrow> string \<Rightarrow> 'a option \<Rightarrow> string \<times> json \<Rightarrow> 'a option" where
  "field_step dec name acc kv =
     (case kv of (k, v) \<Rightarrow>
        if key_is name k \<and> v \<noteq> JNull then (case acc of None \<Rightarrow> None | Some _ \<Rightarrow> dec v) else acc)"

definition field :: "string \<Rightarrow> 'a decoder \<Rightarrow> 'a \<Rightarrow> (string \<times> json) list \<Rightarrow> 'a option" where
  "field name dec z kvs = foldl (field_step dec name) (Some z) kvs"

text \<open>
  A \<open>map[string]T\<close>: the keys are unquoted, a later equal key overwrites.
\<close>

fun dec_entries :: "'a decoder \<Rightarrow> (string \<times> json) list \<Rightarrow> (string, 'a) gomap \<Rightarrow> (string, 'a) gomap option" where
  "dec_entries dec [] m = Some m"
| "dec_entries dec ((k, v) # kvs) m =
     (case (unquote k, dec v) of
        (Some s, Some x) \<Rightarrow> dec_entries dec kvs (AList.update s x m)
      | _ \<Rightarrow> None)"

definition dec_map :: "'a decoder \<Rightarrow> (string, 'a) gomap decoder" where
  "dec_map dec v = (case as_object v of None \<Rightarrow> None | Some kvs \<Rightarrow> dec_entries dec kvs [])"

lemma dec_string_jstr: "valid_utf8 s \<Longrightarrow> dec_string (jstr s) = Some s"
  by (simp add: dec_string_def jstr_def unquote_quote)

lemma dec_int_jint: "in_int64 n \<Longrightarrow> dec_int (jint n) = Some n"
  by (simp add: dec_int_def jint_def Atoi_Itoa)

lemma dec_all_map: "\<forall>x\<in>set xs. dec (enc x) = Some x \<Longrightarrow> dec_all dec (List.map enc xs) = Some xs"
  by (induction xs) auto

end
