(* ===== verification/Facts.thy ===== *)
theory Facts
  imports Json
begin

text \<open>
  The data model of \<open>facts/types.go\<close>: a server's merged facts with its CPU, disks and network
  interfaces, and the instants that stamp them. Slices are lists (\<open>nil\<close> and the empty slice
  behave alike everywhere the program reads them), \<open>Raw\<close> is \<open>None\<close> for a \<open>nil\<close> map, and
  its values are the JSON trees \<open>encoding/json\<close> makes of them, which is the only way the
  program reads them back.
\<close>


section \<open>Instants\<close>

text \<open>
  A \<open>time.Time\<close> in UTC by its calendar fields: year, month, day, hour, minute, second and
  nanosecond. The code makes every instant with \<open>time.Now().UTC()\<close>.
\<close>

datatype gotime = GoTime (t_year: nat) (t_month: nat) (t_day: nat)
  (t_hour: nat) (t_min: nat) (t_sec: nat) (t_nano: nat)

text \<open>The zero \<open>time.Time\<close>: January 1, year 1, 00:00:00 UTC.\<close>

definition zero_time :: gotime where
  "zero_time = GoTime 1 1 1 0 0 0 0"

definition IsZero :: "gotime \<Rightarrow> bool" where
  "IsZero t \<longleftrightarrow> t = zero_time"

definition time_key :: "gotime \<Rightarrow> nat list" where
  "time_key t = [t_year t, t_month t, t_day t, t_hour t, t_min t, t_sec t, t_nano t]"

lemma time_key_inject: "time_key s = time_key t \<longleftrightarrow> s = t"
  by (cases s; cases t) (simp add: time_key_def)

instantiation gotime :: linorder
begin

definition less_eq_gotime :: "gotime \<Rightarrow> gotime \<Rightarrow> bool" where
  "less_eq_gotime s t \<longleftrightarrow> time_key s \<le> time_key t"

definition less_gotime :: "gotime \<Rightarrow> gotime \<Rightarrow> bool" where
  "less_gotime s t \<longleftrightarrow> time_key s < time_key t"

instance
  by intro_classes
    (auto simp: less_eq_gotime_def less_gotime_def time_key_inject [symmetric])

end


section \<open>Server facts\<close>

record CPUFacts =
  cpu_Vendor :: string
  cpu_Model :: string
  cpu_Sockets :: int
  cpu_Cores :: int
  cpu_Threads :: int

record DiskFacts =
  disk_Name :: string
  disk_Type :: string
  disk_SizeGB :: int
  disk_Rotational :: bool

record NICFacts =
  nic_Name :: string
  nic_MAC :: string
  nic_SpeedGbps :: int
  nic_Driver :: string
  nic_Features :: "string list"

record ServerFacts =
  sf_ServerID :: string
  sf_ObservedAt :: gotime
  sf_Source :: string
  sf_PowerState :: string
  sf_Provisioning :: string
  sf_Health :: string
  sf_CPU :: CPUFacts
  sf_MemoryGB :: int
  sf_Disks :: "DiskFacts list"
  sf_NICs :: "NICFacts list"
  sf_Capabilities :: "string list"
  sf_NetworkModes :: "string list"
  sf_FailureDomain :: string
  sf_Raw :: "(string, json) gomap option"

definition zero_cpu :: CPUFacts where
  "zero_cpu = \<lparr>cpu_Vendor = [], cpu_Model = [], cpu_Sockets = 0, cpu_Cores = 0, cpu_Threads = 0\<rparr>"

text \<open>The zero value of the struct, the start of every composite literal of the code.\<close>

definition zero_facts :: ServerFacts where
  "zero_facts =
     \<lparr>sf_ServerID = [], sf_ObservedAt = zero_time, sf_Source = [], sf_PowerState = [],
      sf_Provisioning = [], sf_Health = [], sf_CPU = zero_cpu, sf_MemoryGB = 0,
      sf_Disks = [], sf_NICs = [], sf_Capabilities = [], sf_NetworkModes = [],
      sf_FailureDomain = [], sf_Raw = None\<rparr>"

text \<open>Reading a key of \<open>Raw\<close>; a \<open>nil\<close> map has no keys.\<close>

definition raw_get :: "ServerFacts \<Rightarrow> string \<Rightarrow> json option" where
  "raw_get f k = (case sf_Raw f of None \<Rightarrow> None | Some m \<Rightarrow> map_of m k)"

lemmas zero_defs = zero_facts_def zero_cpu_def

end
