(* ===== verification/Infer.thy ===== *)
theory Infer
  imports Facts
begin

text \<open>
  \<open>facts/infer.go\<close>: the capabilities and the health that are derived from merged facts.
\<close>


section \<open>InferCapabilities\<close>

text \<open>
  The closure \<open>add\<close>: the state is the map \<open>seen\<close> (as the list of its true keys) and the
  slice \<open>out\<close>.
\<close>

type_synonym capset = "string list \<times> string list"

definition add_cap :: "capset \<Rightarrow> string \<Rightarrow> capset" where
  "add_cap st c =
     (case st of (seen, out) \<Rightarrow>
        if c = [] \<or> c \<in> set seen then (seen, out) else (c # seen, out @ [c]))"

text \<open>The loop over the disks stops at the first NVMe drive.\<close>

fun add_disks :: "capset \<Rightarrow> DiskFacts list \<Rightarrow> capset" where
  "add_disks st [] = st"
| "add_disks st (d # ds) =
     (if EqualFold (disk_Type d) ''nvme'' then add_cap st ''local_nvme'' else add_disks st ds)"

definition add_feature :: "capset \<Rightarrow> string \<Rightarrow> capset" where
  "add_feature st feat =
     (let l = ToLower feat
      in if l = ''sriov'' \<or> l = ''sr-iov'' then add_cap st ''sriov''
         else if l = ''rdma'' then add_cap st ''rdma''
         else st)"

definition add_nic :: "capset \<Rightarrow> NICFacts \<Rightarrow> capset" where
  "add_nic st n =
     foldl add_feature
       (if nic_SpeedGbps n \<ge> 25 then add_cap st ''high_bandwidth_networking'' else st)
       (nic_Features n)"

text \<open>A nil pointer has no capabilities; the code calls it with merged facts only.\<close>

definition InferCapabilities :: "ServerFacts option \<Rightarrow> string list" where
  "InferCapabilities fo =
     (case fo of
        None \<Rightarrow> []
      | Some f \<Rightarrow>
          let st = foldl add_cap ([], []) (sf_Capabilities f);
              st = add_disks st (sf_Disks f);
              st = foldl add_nic st (sf_NICs f);
              st = (if sf_PowerState f \<noteq> [] then add_cap st ''power_control'' else st)
          in sort_Strings (snd st))"


section \<open>InferHealth\<close>

definition hasHardwareFacts :: "ServerFacts \<Rightarrow> bool" where
  "hasHardwareFacts f \<longleftrightarrow>
     cpu_Cores (sf_CPU f) > 0 \<or> sf_MemoryGB f > 0 \<or> sf_Disks f \<noteq> [] \<or> sf_NICs f \<noteq> []"

definition InferHealth :: "ServerFacts option \<Rightarrow> string" where
  "InferHealth fo =
     (case fo of
        None \<Rightarrow> ''unknown''
      | Some f \<Rightarrow>
          if \<not> hasHardwareFacts f \<and> sf_PowerState f = [] \<and> sf_Provisioning f = [] then ''unknown''
          else if EqualFold (sf_Provisioning f) ''failed'' \<or> EqualFold (sf_Provisioning f) ''error''
            then ''degraded''
          else if sf_PowerState f \<noteq> [] \<and> \<not> EqualFold (sf_PowerState f) ''on'' then ''degraded''
          else if \<not> hasHardwareFacts f then ''degraded''
          else ''healthy'')"


section \<open>The set of inferred capabilities\<close>

text \<open>
  What the loops add, as a set: the specification the code is checked against.
\<close>

definition only_if :: "bool \<Rightarrow> 'a \<Rightarrow> 'a set" where
  "only_if P x = (if P then {x} else {})"

definition derived_caps :: "ServerFacts \<Rightarrow> string set" where
  "derived_caps f =
     only_if (\<exists>d\<in>set (sf_Disks f). EqualFold (disk_Type d) ''nvme'') ''local_nvme''
     \<union> only_if (\<exists>n\<in>set (sf_NICs f). nic_SpeedGbps n \<ge> 25) ''high_bandwidth_networking''
     \<union> only_if (\<exists>n\<in>set (sf_NICs f). \<exists>x\<in>set (nic_Features n). ToLower x = ''sriov'' \<or> ToLower x = ''sr-iov'') ''sriov''
     \<union> only_if (\<exists>n\<in>set (sf_NICs f). \<exists>x\<in>set (nic_Features n). ToLower x = ''rdma'') ''rdma''
     \<union> only_if (sf_PowerState f \<noteq> []) ''power_control''"

lemma only_if_simps [simp]: "only_if True x = {x}" "only_if False x = {}"
  by (simp_all add: only_if_def)

lemma in_only_if [simp]: "y \<in> only_if P x \<longleftrightarrow> P \<and> y = x"
  by (simp add: only_if_def)

lemma UN_only_if: "(\<Union>a\<in>A. only_if (P a) x) = only_if (\<exists>a\<in>A. P a) x"
  by auto

definition cap_inv :: "capset \<Rightarrow> bool" where
  "cap_inv st \<longleftrightarrow> set (fst st) = set (snd st) \<and> distinct (snd st) \<and> [] \<notin> set (snd st)"

lemma cap_inv_empty: "cap_inv ([], [])"
  by (simp add: cap_inv_def)

lemma cap_inv_add: "cap_inv st \<Longrightarrow> cap_inv (add_cap st c)"
  by (cases st) (auto simp: cap_inv_def add_cap_def)

lemma set_add_cap: "cap_inv st \<Longrightarrow> set (snd (add_cap st c)) = set (snd st) \<union> ({c} - {[]})"
  by (cases st) (auto simp: cap_inv_def add_cap_def)

text \<open>
  Each stage keeps the invariant and adds a known set: one lemma per stage, all of the shape
  \<open>adds st st' A\<close>.
\<close>

definition adds :: "capset \<Rightarrow> capset \<Rightarrow> string set \<Rightarrow> bool" where
  "adds st st' A \<longleftrightarrow> cap_inv st' \<and> set (snd st') = set (snd st) \<union> A"

lemma adds_refl: "cap_inv st \<Longrightarrow> adds st st {}"
  by (simp add: adds_def)

lemma adds_trans: "adds st st' A \<Longrightarrow> adds st' st'' B \<Longrightarrow> adds st st'' (A \<union> B)"
  by (auto simp: adds_def)

lemma adds_cap: "cap_inv st \<Longrightarrow> adds st (add_cap st c) ({c} - {[]})"
  by (simp add: adds_def cap_inv_add set_add_cap)

lemma adds_inv: "adds st st' A \<Longrightarrow> cap_inv st'"
  by (simp add: adds_def)

lemma adds_foldl:
  assumes "\<And>st x. cap_inv st \<Longrightarrow> adds st (g st x) (A x)"
  shows "cap_inv st \<Longrightarrow> adds st (foldl g st xs) (\<Union>x\<in>set xs. A x)"
proof (induction xs arbitrary: st)
  case Nil
  then show ?case by (simp add: adds_refl)
next
  case (Cons x xs)
  have "adds st (g st x) (A x)"
    using Cons.prems by (rule assms)
  moreover from this have "adds (g st x) (foldl g (g st x) xs) (\<Union>x\<in>set xs. A x)"
    by (intro Cons.IH adds_inv)
  ultimately show ?case
    using adds_trans by fastforce
qed

lemma adds_disks:
  "cap_inv st \<Longrightarrow> adds st (add_disks st ds)
     (only_if (\<exists>d\<in>set ds. EqualFold (disk_Type d) ''nvme'') ''local_nvme'')"
proof (induction ds)
  case Nil
  then show ?case by (simp add: adds_refl)
next
  case (Cons d ds)
  then show ?case
    using adds_cap [of st "''local_nvme''"] by simp
qed

definition feature_caps :: "string \<Rightarrow> string set" where
  "feature_caps x =
     only_if (ToLower x = ''sriov'' \<or> ToLower x = ''sr-iov'') ''sriov''
     \<union> only_if (ToLower x = ''rdma'') ''rdma''"

lemma adds_feature: "cap_inv st \<Longrightarrow> adds st (add_feature st x) (feature_caps x)"
  using adds_cap [of st "''sriov''"] adds_cap [of st "''rdma''"] adds_refl [of st]
  by (simp add: add_feature_def feature_caps_def Let_def)

lemma adds_nic:
  assumes "cap_inv st"
  shows "adds st (add_nic st n)
    (only_if (nic_SpeedGbps n \<ge> 25) ''high_bandwidth_networking'' \<union> (\<Union>x\<in>set (nic_Features n). feature_caps x))"
proof -
  define st' where
    "st' = (if nic_SpeedGbps n \<ge> 25 then add_cap st ''high_bandwidth_networking'' else st)"
  have 1: "adds st st' (only_if (nic_SpeedGbps n \<ge> 25) ''high_bandwidth_networking'')"
    using adds_cap [OF assms, of "''high_bandwidth_networking''"] adds_refl [OF assms]
    by (simp add: st'_def)
  have "adds st' (foldl add_feature st' (nic_Features n)) (\<Union>x\<in>set (nic_Features n). feature_caps x)"
    using adds_feature adds_inv [OF 1] by (rule adds_foldl)
  from adds_trans [OF 1 this] show ?thesis
    by (simp only: add_nic_def st'_def)
qed

lemma adds_collected: "adds ([], []) (foldl add_cap ([], []) cs) (set cs - {[]})"
  using adds_foldl [of add_cap "\<lambda>c. {c} - {[]}" "([], [])" cs] adds_cap cap_inv_empty
  by fastforce

lemma derived_caps_split:
  "derived_caps f =
     only_if (\<exists>d\<in>set (sf_Disks f). EqualFold (disk_Type d) ''nvme'') ''local_nvme''
     \<union> (\<Union>n\<in>set (sf_NICs f). only_if (nic_SpeedGbps n \<ge> 25) ''high_bandwidth_networking''
          \<union> (\<Union>x\<in>set (nic_Features n). feature_caps x))
     \<union> only_if (sf_PowerState f \<noteq> []) ''power_control''"
  by (simp only: derived_caps_def feature_caps_def UN_Un_distrib UN_only_if Un_assoc)

lemma infer_spec:
  "sorted (InferCapabilities (Some f)) \<and> distinct (InferCapabilities (Some f))
   \<and> set (InferCapabilities (Some f)) = (set (sf_Capabilities f) - {[]}) \<union> derived_caps f"
proof -
  define s1 where "s1 = foldl add_cap ([], []) (sf_Capabilities f)"
  define s2 where "s2 = add_disks s1 (sf_Disks f)"
  define s3 where "s3 = foldl add_nic s2 (sf_NICs f)"
  define s4 where "s4 = (if sf_PowerState f \<noteq> [] then add_cap s3 ''power_control'' else s3)"
  have 1: "adds ([], []) s1 (set (sf_Capabilities f) - {[]})"
    unfolding s1_def by (rule adds_collected)
  have 2: "adds s1 s2 (only_if (\<exists>d\<in>set (sf_Disks f). EqualFold (disk_Type d) ''nvme'') ''local_nvme'')"
    unfolding s2_def using adds_inv [OF 1] by (rule adds_disks)
  have 3: "adds s2 s3 (\<Union>n\<in>set (sf_NICs f). only_if (nic_SpeedGbps n \<ge> 25) ''high_bandwidth_networking''
      \<union> (\<Union>x\<in>set (nic_Features n). feature_caps x))"
    unfolding s3_def using adds_nic adds_inv [OF 2] by (rule adds_foldl)
  have 4: "adds s3 s4 (only_if (sf_PowerState f \<noteq> []) ''power_control'')"
    using adds_cap [OF adds_inv [OF 3], of "''power_control''"] adds_refl [OF adds_inv [OF 3]]
    by (cases "sf_PowerState f = []") (simp_all add: s4_def)
  have "InferCapabilities (Some f) = sort_Strings (snd s4)"
    by (simp add: InferCapabilities_def s1_def s2_def s3_def s4_def Let_def)
  moreover have "cap_inv s4"
    using 4 by (rule adds_inv)
  moreover have "set (snd s4) = (set (sf_Capabilities f) - {[]}) \<union> derived_caps f"
    using 1 2 3 4 unfolding adds_def derived_caps_split by (simp only: snd_conv list.set Un_assoc Un_empty_left)
  ultimately show ?thesis
    by (simp add: cap_inv_def)
qed

end
