(* ===== verification/Merge.thy ===== *)
theory Merge
  imports Infer
begin

text \<open>
  \<open>facts/merge.go\<close> and \<open>facts/collector.go\<close>: collectors run in order, a field set by an
  earlier one is kept, later ones fill gaps; capabilities and health are inferred from the
  result. A collector is the function of \<open>Collector.Collect\<close>: facts (or nil) and an error
  message (or nil). The log lines of \<open>BuildServerFacts\<close> are not part of the model.
\<close>

type_synonym collect_result = "ServerFacts option \<times> string option"
type_synonym Collector = "string \<Rightarrow> collect_result"


section \<open>Merging one collector's facts\<close>

definition mergeCPU :: "CPUFacts \<Rightarrow> CPUFacts \<Rightarrow> CPUFacts" where
  "mergeCPU dst src =
     \<lparr>cpu_Vendor = fill [] (cpu_Vendor dst) (cpu_Vendor src),
      cpu_Model = fill [] (cpu_Model dst) (cpu_Model src),
      cpu_Sockets = fill 0 (cpu_Sockets dst) (cpu_Sockets src),
      cpu_Cores = fill 0 (cpu_Cores dst) (cpu_Cores src),
      cpu_Threads = fill 0 (cpu_Threads dst) (cpu_Threads src)\<rparr>"

definition mergeSource :: "string \<Rightarrow> string \<Rightarrow> string" where
  "mergeSource dst src =
     (if src = [] then dst
      else if dst = [] then src
      else if src \<in> set (Split dst (CHR ''+'')) then dst
      else dst @ ''+'' @ src)"

text \<open>The loop of \<open>unionStrings\<close>: \<open>seen\<close> holds the strings seen so far, \<open>out\<close> the result.\<close>

fun union_loop :: "string list \<Rightarrow> string list \<Rightarrow> string list \<Rightarrow> string list" where
  "union_loop seen out [] = out"
| "union_loop seen out (v # vs) =
     (if v = [] \<or> v \<in> set seen then union_loop seen out vs
      else union_loop (v # seen) (out @ [v]) vs)"

definition unionStrings :: "string list \<Rightarrow> string list \<Rightarrow> string list" where
  "unionStrings dst src = (if src = [] then dst else union_loop dst dst src)"

text \<open>The loop over \<open>src.Raw\<close>: a key that is there already keeps its value.\<close>

fun merge_raw :: "(string, json) gomap \<Rightarrow> (string, json) gomap \<Rightarrow> (string, json) gomap" where
  "merge_raw dst [] = dst"
| "merge_raw dst ((k, v) # kvs) =
     merge_raw (case map_of dst k of None \<Rightarrow> AList.update k v dst | Some _ \<Rightarrow> dst) kvs"

definition mergeInto :: "ServerFacts \<Rightarrow> ServerFacts \<Rightarrow> ServerFacts" where
  "mergeInto dst src =
     dst\<lparr>sf_ServerID := fill [] (sf_ServerID dst) (sf_ServerID src),
         sf_ObservedAt := fill zero_time (sf_ObservedAt dst) (sf_ObservedAt src),
         sf_Source := mergeSource (sf_Source dst) (sf_Source src),
         sf_PowerState := fill [] (sf_PowerState dst) (sf_PowerState src),
         sf_Provisioning := fill [] (sf_Provisioning dst) (sf_Provisioning src),
         sf_CPU := mergeCPU (sf_CPU dst) (sf_CPU src),
         sf_MemoryGB := fill 0 (sf_MemoryGB dst) (sf_MemoryGB src),
         sf_Disks := fill [] (sf_Disks dst) (sf_Disks src),
         sf_NICs := fill [] (sf_NICs dst) (sf_NICs src),
         sf_NetworkModes := unionStrings (sf_NetworkModes dst) (sf_NetworkModes src),
         sf_Capabilities := unionStrings (sf_Capabilities dst) (sf_Capabilities src),
         sf_FailureDomain := fill [] (sf_FailureDomain dst) (sf_FailureDomain src),
         sf_Raw :=
           (case sf_Raw src of
              None \<Rightarrow> sf_Raw dst
            | Some s \<Rightarrow> Some (merge_raw (case sf_Raw dst of None \<Rightarrow> [] | Some d \<Rightarrow> d) s))\<rparr>"


section \<open>Running the collectors\<close>

definition joinErrors :: "string list \<Rightarrow> string option" where
  "joinErrors errs = (if errs = [] then None else Some (Join errs ''; ''))"

record build_state =
  bs_merged :: ServerFacts
  bs_errs :: "string list"
  bs_successes :: nat

definition build_step :: "string \<Rightarrow> build_state \<Rightarrow> Collector \<Rightarrow> build_state" where
  "build_step serverID st c =
     (case c serverID of (cf, err) \<Rightarrow>
        let st = (case err of None \<Rightarrow> st | Some e \<Rightarrow> st\<lparr>bs_errs := bs_errs st @ [e]\<rparr>)
        in (case cf of
              None \<Rightarrow> st
            | Some f \<Rightarrow> st\<lparr>bs_merged := mergeInto (bs_merged st) f, bs_successes := Suc (bs_successes st)\<rparr>))"

text \<open>
  \<open>now\<close> is the clock reading at the end of the build. Formatting a nil error with \<open>%w\<close>, as
  happens with no collectors at all, prints \<open>%!w(<nil>)\<close>.
\<close>

definition BuildServerFacts :: "gotime \<Rightarrow> string \<Rightarrow> Collector list \<Rightarrow> collect_result" where
  "BuildServerFacts now serverID collectors =
     (let st = foldl (build_step serverID)
                 \<lparr>bs_merged = zero_facts\<lparr>sf_ServerID := serverID, sf_Raw := Some []\<rparr>,
                  bs_errs = [], bs_successes = 0\<rparr> collectors
      in if bs_successes st = 0 then
           (None, Some (''all collectors failed for server '' @ serverID @ '': '' @
                    (case joinErrors (bs_errs st) of None \<Rightarrow> ''%!w(<nil>)'' | Some m \<Rightarrow> m)))
         else
           let m = (bs_merged st)\<lparr>sf_ServerID := serverID, sf_ObservedAt := now\<rparr>;
               m = m\<lparr>sf_Capabilities := InferCapabilities (Some m)\<rparr>;
               m = m\<lparr>sf_Health := InferHealth (Some m)\<rparr>
           in (Some m, None))"

text \<open>The facts the collectors contribute, in order, and their error messages.\<close>

definition contributions :: "string \<Rightarrow> Collector list \<Rightarrow> ServerFacts list" where
  "contributions sid cs = List.map_filter (\<lambda>c. fst (c sid)) cs"

definition failures :: "string \<Rightarrow> Collector list \<Rightarrow> string list" where
  "failures sid cs = List.map_filter (\<lambda>c. snd (c sid)) cs"


section \<open>Lemmas on the parts\<close>

lemma union_loop_set:
  "set out \<subseteq> set seen \<Longrightarrow> set (union_loop seen out vs) = set out \<union> (set vs - {[]} - set seen)"
proof (induction seen out vs rule: union_loop.induct)
  case (2 seen out v vs)
  show ?case
  proof (cases "v = [] \<or> v \<in> set seen")
    case True
    with 2 show ?thesis by auto
  next
    case False
    with 2 have "set (union_loop (v # seen) (out @ [v]) vs)
        = set (out @ [v]) \<union> (set vs - {[]} - set (v # seen))"
      by auto
    with False show ?thesis by auto
  qed
qed simp

lemma union_loop_distinct:
  "set out \<subseteq> set seen \<Longrightarrow> distinct out \<Longrightarrow> distinct (union_loop seen out vs)"
  by (induction seen out vs rule: union_loop.induct) auto

lemma union_loop_prefix: "\<exists>new. union_loop seen out vs = out @ new"
  by (induction seen out vs rule: union_loop.induct) auto

lemma set_unionStrings [simp]: "set (unionStrings dst src) = set dst \<union> (set src - {[]})"
  by (auto simp: unionStrings_def union_loop_set)

lemma distinct_unionStrings: "distinct dst \<Longrightarrow> distinct (unionStrings dst src)"
  by (simp add: unionStrings_def union_loop_distinct)

lemma unionStrings_prefix: "\<exists>new. unionStrings dst src = dst @ new"
  using union_loop_prefix by (auto simp: unionStrings_def)

lemma map_of_merge_raw: "map_of (merge_raw d s) = map_of s ++ map_of d"
proof (induction d s rule: merge_raw.induct)
  case (2 dst k v kvs)
  show ?case
  proof (rule ext)
    fix a
    show "map_of (merge_raw dst ((k, v) # kvs)) a = (map_of ((k, v) # kvs) ++ map_of dst) a"
      using 2 by (cases "map_of dst k") (auto simp: map_add_def update_conv' split: option.splits)
  qed
qed simp

lemma distinct_merge_raw: "distinct (map fst d) \<Longrightarrow> distinct (map fst (merge_raw d s))"
  by (induction d s rule: merge_raw.induct) (auto simp: distinct_update split: option.splits)

lemma raw_get_mergeInto:
  "raw_get (mergeInto d s) k = (case raw_get d k of None \<Rightarrow> raw_get s k | Some v \<Rightarrow> Some v)"
  by (auto simp: raw_get_def mergeInto_def map_of_merge_raw map_add_def split: option.splits)

lemma InferHealth_ServerID [simp]: "InferHealth (Some (f\<lparr>sf_ServerID := i\<rparr>)) = InferHealth (Some f)"
  by (simp add: InferHealth_def hasHardwareFacts_def)


section \<open>A whole build\<close>

text \<open>
  Fields merged by the same rule share one contract: merging keeps a value that is set and
  takes the other one otherwise. Folding such a merge picks the first value that is set.
\<close>

locale gap_field =
  fixes z :: 'v
    and sel :: "ServerFacts \<Rightarrow> 'v"
  assumes merge_field: "sel (mergeInto d s) = fill z (sel d) (sel s)"
begin

lemma foldl_field: "sel (foldl mergeInto m fs) = first_set z (sel m # List.map sel fs)"
proof (induction fs arbitrary: m)
  case Nil
  then show ?case by simp
next
  case (Cons g fs)
  have "sel (foldl mergeInto m (g # fs)) = first_set z (fill z (sel m) (sel g) # List.map sel fs)"
    by (simp add: Cons.IH merge_field)
  then show ?case by (auto simp: fill_def)
qed

lemma foldl_from_zero: "sel m = z \<Longrightarrow> sel (foldl mergeInto m fs) = first_set z (List.map sel fs)"
  by (simp add: foldl_field)

end

interpretation power: gap_field "[]" sf_PowerState
  by unfold_locales (simp add: mergeInto_def)

interpretation provisioning: gap_field "[]" sf_Provisioning
  by unfold_locales (simp add: mergeInto_def)

interpretation domain: gap_field "[]" sf_FailureDomain
  by unfold_locales (simp add: mergeInto_def)

interpretation memory: gap_field 0 sf_MemoryGB
  by unfold_locales (simp add: mergeInto_def)

interpretation disks: gap_field "[]" sf_Disks
  by unfold_locales (simp add: mergeInto_def)

interpretation nics: gap_field "[]" sf_NICs
  by unfold_locales (simp add: mergeInto_def)

interpretation vendor: gap_field "[]" "\<lambda>f. cpu_Vendor (sf_CPU f)"
  by unfold_locales (simp add: mergeInto_def mergeCPU_def)

interpretation model: gap_field "[]" "\<lambda>f. cpu_Model (sf_CPU f)"
  by unfold_locales (simp add: mergeInto_def mergeCPU_def)

interpretation sockets: gap_field 0 "\<lambda>f. cpu_Sockets (sf_CPU f)"
  by unfold_locales (simp add: mergeInto_def mergeCPU_def)

interpretation cores: gap_field 0 "\<lambda>f. cpu_Cores (sf_CPU f)"
  by unfold_locales (simp add: mergeInto_def mergeCPU_def)

interpretation threads: gap_field 0 "\<lambda>f. cpu_Threads (sf_CPU f)"
  by unfold_locales (simp add: mergeInto_def mergeCPU_def)

interpretation raw: gap_field None "\<lambda>f. raw_get f k" for k
  by unfold_locales (simp add: raw_get_mergeInto fill_def split: option.splits)

lemmas merged_fields =
  power.foldl_from_zero provisioning.foldl_from_zero domain.foldl_from_zero
  memory.foldl_from_zero disks.foldl_from_zero nics.foldl_from_zero
  vendor.foldl_from_zero model.foldl_from_zero sockets.foldl_from_zero
  cores.foldl_from_zero threads.foldl_from_zero

text \<open>The loop of \<open>BuildServerFacts\<close> in terms of what the collectors return.\<close>

lemma contributions_simps [simp]:
  "contributions sid [] = []"
  "contributions sid (c # cs) =
     (case fst (c sid) of None \<Rightarrow> contributions sid cs | Some f \<Rightarrow> f # contributions sid cs)"
  by (simp_all add: contributions_def map_filter_simps split: option.split)

lemma failures_simps [simp]:
  "failures sid [] = []"
  "failures sid (c # cs) =
     (case snd (c sid) of None \<Rightarrow> failures sid cs | Some e \<Rightarrow> e # failures sid cs)"
  by (simp_all add: failures_def map_filter_simps split: option.split)

lemma build_step_eq:
  "build_step sid st c =
     \<lparr>bs_merged = (case fst (c sid) of None \<Rightarrow> bs_merged st | Some f \<Rightarrow> mergeInto (bs_merged st) f),
      bs_errs = (case snd (c sid) of None \<Rightarrow> bs_errs st | Some e \<Rightarrow> bs_errs st @ [e]),
      bs_successes = (case fst (c sid) of None \<Rightarrow> bs_successes st | Some f \<Rightarrow> Suc (bs_successes st))\<rparr>"
  by (cases "c sid") (simp add: build_step_def split: option.split)

lemma build_fold:
  "foldl (build_step sid) st cs =
     \<lparr>bs_merged = foldl mergeInto (bs_merged st) (contributions sid cs),
      bs_errs = bs_errs st @ failures sid cs,
      bs_successes = bs_successes st + length (contributions sid cs)\<rparr>"
proof (induction cs arbitrary: st)
  case (Cons c cs)
  have "foldl (build_step sid) st (c # cs) = foldl (build_step sid) (build_step sid st c) cs"
    by simp
  also have "\<dots> = \<lparr>bs_merged = foldl mergeInto (bs_merged st) (contributions sid (c # cs)),
      bs_errs = bs_errs st @ failures sid (c # cs),
      bs_successes = bs_successes st + length (contributions sid (c # cs))\<rparr>"
    unfolding Cons.IH by (simp add: build_step_eq split: option.split)
  finally show ?case .
qed simp

definition build_start :: "string \<Rightarrow> ServerFacts" where
  "build_start sid = zero_facts\<lparr>sf_ServerID := sid, sf_Raw := Some []\<rparr>"

definition finish_build :: "gotime \<Rightarrow> string \<Rightarrow> ServerFacts \<Rightarrow> ServerFacts" where
  "finish_build now sid m =
     (let m = m\<lparr>sf_ServerID := sid, sf_ObservedAt := now\<rparr>;
          m = m\<lparr>sf_Capabilities := InferCapabilities (Some m)\<rparr>
      in m\<lparr>sf_Health := InferHealth (Some m)\<rparr>)"

lemma BuildServerFacts_eq:
  "BuildServerFacts now sid cs =
     (if contributions sid cs = [] then
        (None, Some (''all collectors failed for server '' @ sid @ '': '' @
           (case joinErrors (failures sid cs) of None \<Rightarrow> ''%!w(<nil>)'' | Some m \<Rightarrow> m)))
      else (Some (finish_build now sid (foldl mergeInto (build_start sid) (contributions sid cs))), None))"
  by (simp add: BuildServerFacts_def build_fold finish_build_def build_start_def Let_def)

lemma contributions_Nil_iff: "contributions sid cs = [] \<longleftrightarrow> (\<forall>c\<in>set cs. fst (c sid) = None)"
  by (induction cs) (auto split: option.splits)

lemma build_Some:
  "BuildServerFacts now sid cs = (Some f, e) \<Longrightarrow>
     f = finish_build now sid (foldl mergeInto (build_start sid) (contributions sid cs)) \<and> e = None"
  by (auto simp: BuildServerFacts_eq split: if_splits)

lemma finish_build_keeps:
  "sf_PowerState (finish_build now sid m) = sf_PowerState m"
  "sf_Provisioning (finish_build now sid m) = sf_Provisioning m"
  "sf_FailureDomain (finish_build now sid m) = sf_FailureDomain m"
  "sf_MemoryGB (finish_build now sid m) = sf_MemoryGB m"
  "sf_Disks (finish_build now sid m) = sf_Disks m"
  "sf_NICs (finish_build now sid m) = sf_NICs m"
  "sf_CPU (finish_build now sid m) = sf_CPU m"
  "sf_NetworkModes (finish_build now sid m) = sf_NetworkModes m"
  "sf_Source (finish_build now sid m) = sf_Source m"
  "sf_Raw (finish_build now sid m) = sf_Raw m"
  "sf_ServerID (finish_build now sid m) = sid"
  "sf_ObservedAt (finish_build now sid m) = now"
  by (simp_all add: finish_build_def Let_def)

lemma build_start_zero:
  "sf_PowerState (build_start sid) = []" "sf_Provisioning (build_start sid) = []"
  "sf_FailureDomain (build_start sid) = []" "sf_MemoryGB (build_start sid) = 0"
  "sf_Disks (build_start sid) = []" "sf_NICs (build_start sid) = []"
  "sf_CPU (build_start sid) = zero_cpu" "sf_Source (build_start sid) = []"
  "sf_Capabilities (build_start sid) = []" "sf_NetworkModes (build_start sid) = []"
  "raw_get (build_start sid) k = None"
  by (simp_all add: build_start_def zero_facts_def raw_get_def)

lemma mergeInto_lists:
  "sf_Capabilities (mergeInto d s) = unionStrings (sf_Capabilities d) (sf_Capabilities s)"
  "sf_NetworkModes (mergeInto d s) = unionStrings (sf_NetworkModes d) (sf_NetworkModes s)"
  "sf_Source (mergeInto d s) = mergeSource (sf_Source d) (sf_Source s)"
  by (simp_all add: mergeInto_def)

lemma merged_caps:
  "set (sf_Capabilities (foldl mergeInto m fs))
     = set (sf_Capabilities m) \<union> ((\<Union>g\<in>set fs. set (sf_Capabilities g)) - {[]})"
proof (induction fs arbitrary: m)
  case (Cons g fs)
  show ?case
    unfolding foldl_Cons Cons.IH mergeInto_lists set_unionStrings list.set UN_insert by blast
qed simp

lemma merged_modes:
  "set (sf_NetworkModes (foldl mergeInto m fs))
     = set (sf_NetworkModes m) \<union> ((\<Union>g\<in>set fs. set (sf_NetworkModes g)) - {[]})"
proof (induction fs arbitrary: m)
  case (Cons g fs)
  show ?case
    unfolding foldl_Cons Cons.IH mergeInto_lists set_unionStrings list.set UN_insert by blast
qed simp

lemma merged_modes_distinct:
  "distinct (sf_NetworkModes m) \<Longrightarrow> distinct (sf_NetworkModes (foldl mergeInto m fs))"
  by (induction fs arbitrary: m) (simp_all add: mergeInto_lists distinct_unionStrings)

text \<open>The list of sources: \<open>mergeSource\<close> keeps the labels, each once, joined by a plus sign.\<close>

lemma union_loop_seen_cong:
  "set seen = set seen' \<Longrightarrow> union_loop seen out vs = union_loop seen' out vs"
proof (induction vs arbitrary: seen seen' out)
  case (Cons v vs)
  have "set (v # seen) = set (v # seen')"
    using Cons.prems by simp
  from Cons.IH [OF Cons.prems, of out] Cons.IH [OF this, of "out @ [v]"] show ?case
    by (simp add: Cons.prems)
qed simp

lemma mergeSource_Join:
  assumes "\<forall>x\<in>set xs. x \<noteq> [] \<and> CHR ''+'' \<notin> set x"
  shows "mergeSource (Join xs ''+'') s = Join (if s = [] \<or> s \<in> set xs then xs else xs @ [s]) ''+''"
proof (cases "xs = []")
  case True
  then show ?thesis by (simp add: mergeSource_def)
next
  case False
  then have "Join xs ''+'' \<noteq> []"
    using assms by (cases xs; cases "tl xs") auto
  with False assms show ?thesis
    by (simp add: mergeSource_def Split_Join Join_snoc)
qed

lemma foldl_mergeSource:
  assumes "\<forall>x\<in>set xs. x \<noteq> [] \<and> CHR ''+'' \<notin> set x" and "\<forall>s\<in>set ss. CHR ''+'' \<notin> set s"
  shows "foldl mergeSource (Join xs ''+'') ss = Join (union_loop xs xs ss) ''+''"
  using assms
proof (induction ss arbitrary: xs)
  case Nil
  then show ?case by simp
next
  case (Cons s ss)
  define ys where "ys = (if s = [] \<or> s \<in> set xs then xs else xs @ [s])"
  have "foldl mergeSource (Join xs ''+'') (s # ss) = foldl mergeSource (Join ys ''+'') ss"
    using Cons.prems by (simp add: mergeSource_Join ys_def)
  also have "\<dots> = Join (union_loop ys ys ss) ''+''"
    using Cons.prems by (intro Cons.IH) (auto simp: ys_def)
  also have "union_loop ys ys ss = union_loop xs xs (s # ss)"
    by (auto simp: ys_def intro: union_loop_seen_cong)
  finally show ?case .
qed

lemma merged_source:
  "sf_Source (foldl mergeInto m fs) = foldl mergeSource (sf_Source m) (List.map sf_Source fs)"
  by (induction fs arbitrary: m) (simp_all add: mergeInto_lists)


section \<open>Properties of a build\<close>

lemma first_collector_inv:
  assumes "BuildServerFacts now sid cs = (Some f, e)"
  shows "sf_PowerState f = first_set [] (List.map sf_PowerState (contributions sid cs))"
    and "sf_Provisioning f = first_set [] (List.map sf_Provisioning (contributions sid cs))"
    and "sf_MemoryGB f = first_set 0 (List.map sf_MemoryGB (contributions sid cs))"
  using build_Some [OF assms] by (simp_all add: finish_build_keeps merged_fields build_start_zero)

text \<open>
  C1. Earlier collectors win, field by field: after a successful build every scalar field, the
  disks and the interfaces are those of the first collector (in the given order) that reported
  a non-zero value for that field, whatever the later ones say; a field no collector set is
  zero. Each field of the CPU is decided separately.
\<close>

theorem first_collector_wins:
  assumes "BuildServerFacts now sid cs = (Some f, e)"
  shows "sf_PowerState f = first_set [] (List.map sf_PowerState (contributions sid cs))
    \<and> sf_Provisioning f = first_set [] (List.map sf_Provisioning (contributions sid cs))
    \<and> sf_FailureDomain f = first_set [] (List.map sf_FailureDomain (contributions sid cs))
    \<and> sf_MemoryGB f = first_set 0 (List.map sf_MemoryGB (contributions sid cs))
    \<and> sf_Disks f = first_set [] (List.map sf_Disks (contributions sid cs))
    \<and> sf_NICs f = first_set [] (List.map sf_NICs (contributions sid cs))
    \<and> cpu_Vendor (sf_CPU f) = first_set [] (List.map (\<lambda>g. cpu_Vendor (sf_CPU g)) (contributions sid cs))
    \<and> cpu_Model (sf_CPU f) = first_set [] (List.map (\<lambda>g. cpu_Model (sf_CPU g)) (contributions sid cs))
    \<and> cpu_Sockets (sf_CPU f) = first_set 0 (List.map (\<lambda>g. cpu_Sockets (sf_CPU g)) (contributions sid cs))
    \<and> cpu_Cores (sf_CPU f) = first_set 0 (List.map (\<lambda>g. cpu_Cores (sf_CPU g)) (contributions sid cs))
    \<and> cpu_Threads (sf_CPU f) = first_set 0 (List.map (\<lambda>g. cpu_Threads (sf_CPU g)) (contributions sid cs))
    \<and> sf_ServerID f = sid \<and> sf_ObservedAt f = now"
  using build_Some [OF assms]
  by (simp add: finish_build_keeps merged_fields build_start_zero zero_cpu_def)

text \<open>Two collectors that disagree on the power state, as in the repository's merge test.\<close>

definition host_sample :: Collector where
  "host_sample sid = (Some (zero_facts\<lparr>sf_ServerID := sid, sf_Source := ''linux_host'',
     sf_PowerState := ''on'', sf_MemoryGB := 64,
     sf_Capabilities := [''vfio''], sf_Raw := Some [(''model'', jstr ''A'')]\<rparr>), None)"

definition bmc_sample :: Collector where
  "bmc_sample sid = (Some (zero_facts\<lparr>sf_ServerID := sid, sf_Source := ''redfish'',
     sf_PowerState := ''off'', sf_Provisioning := ''provisioned'', sf_FailureDomain := ''fd-1'',
     sf_Raw := Some [(''model'', jstr ''B''), (''vendor'', jstr ''V'')]\<rparr>), Some ''late'')"

definition dead_sample :: Collector where
  "dead_sample sid = (None, Some ''boom'')"

lemmas samples = host_sample_def bmc_sample_def dead_sample_def

lemma sample_contributions:
  "contributions sid [dead_sample, host_sample, bmc_sample] = [the (fst (host_sample sid)), the (fst (bmc_sample sid))]"
  by (simp add: samples)

lemma sample_build_Some:
  "\<exists>f. BuildServerFacts zero_time ''srv-1'' [dead_sample, host_sample, bmc_sample] = (Some f, None)"
  unfolding BuildServerFacts_eq sample_contributions by simp

theorem first_collector_wins_witness:
  "\<exists>f. BuildServerFacts zero_time ''srv-1'' [dead_sample, host_sample, bmc_sample] = (Some f, None)
     \<and> sf_PowerState f = ''on'' \<and> sf_Provisioning f = ''provisioned'' \<and> sf_MemoryGB f = 64"
proof -
  obtain f where f: "BuildServerFacts zero_time ''srv-1'' [dead_sample, host_sample, bmc_sample] = (Some f, None)"
    using sample_build_Some by blast
  from first_collector_wins [OF f] show ?thesis
    unfolding sample_contributions using f by (simp add: samples zero_defs)
qed



lemma build_lists:
  assumes "BuildServerFacts now sid cs = (Some f, e)"
  shows "sorted (sf_Capabilities f) \<and> distinct (sf_Capabilities f)
    \<and> set (sf_Capabilities f)
        = ((\<Union>g\<in>set (contributions sid cs). set (sf_Capabilities g)) - {[]}) \<union> derived_caps f
    \<and> distinct (sf_NetworkModes f)
    \<and> set (sf_NetworkModes f) = (\<Union>g\<in>set (contributions sid cs). set (sf_NetworkModes g)) - {[]}"
proof -
  define m where "m = (foldl mergeInto (build_start sid) (contributions sid cs))\<lparr>sf_ServerID := sid, sf_ObservedAt := now\<rparr>"
  have f: "f = finish_build now sid (foldl mergeInto (build_start sid) (contributions sid cs))"
    using build_Some [OF assms] by simp
  have caps: "sf_Capabilities f = InferCapabilities (Some m)"
    by (simp add: f finish_build_def m_def Let_def)
  have "derived_caps f = derived_caps m"
    by (simp add: f finish_build_def m_def Let_def derived_caps_def)
  moreover have "set (sf_Capabilities m) = (\<Union>g\<in>set (contributions sid cs). set (sf_Capabilities g)) - {[]}"
    by (simp add: m_def merged_caps build_start_zero)
  moreover have "set (sf_NetworkModes f) = (\<Union>g\<in>set (contributions sid cs). set (sf_NetworkModes g)) - {[]}"
    by (simp add: f finish_build_keeps merged_modes build_start_zero)
  moreover have "distinct (sf_NetworkModes f)"
    by (simp add: f finish_build_keeps merged_modes_distinct build_start_zero)
  ultimately show ?thesis
    using infer_spec [of m] caps by auto
qed

text \<open>
  C3. The capabilities of a build are sorted and free of repetitions, and they are exactly the
  non-empty ones some collector reported together with those derived from the merged disks,
  interfaces and power state. Network modes are the non-empty ones some collector reported,
  without repetitions.
\<close>

theorem build_capabilities:
  assumes "BuildServerFacts now sid cs = (Some f, e)"
  shows "sorted (sf_Capabilities f) \<and> distinct (sf_Capabilities f)
    \<and> set (sf_Capabilities f)
        = ((\<Union>g\<in>set (contributions sid cs). set (sf_Capabilities g)) - {[]}) \<union> derived_caps f
    \<and> distinct (sf_NetworkModes f)
    \<and> set (sf_NetworkModes f) = (\<Union>g\<in>set (contributions sid cs). set (sf_NetworkModes g)) - {[]}"
  by (rule build_lists [OF assms])

theorem build_capabilities_witness:
  "\<exists>f. BuildServerFacts zero_time ''srv-1'' [dead_sample, host_sample, bmc_sample] = (Some f, None)
     \<and> ''vfio'' \<in> set (sf_Capabilities f) \<and> sorted (sf_Capabilities f)"
proof -
  obtain f where f: "BuildServerFacts zero_time ''srv-1'' [dead_sample, host_sample, bmc_sample] = (Some f, None)"
    using sample_build_Some by blast
  from build_capabilities [OF f] show ?thesis
    unfolding sample_contributions using f by (simp add: samples zero_defs)
qed

text \<open>
  C4. \<open>Raw\<close> keys belong to the collector that wrote them first: after a build a key has the
  value of the first collector whose \<open>Raw\<close> has it, whatever order Go visits the maps in.
\<close>

theorem build_raw_first_writer:
  assumes "BuildServerFacts now sid cs = (Some f, e)"
  shows "raw_get f k = first_set None (List.map (\<lambda>g. raw_get g k) (contributions sid cs))"
proof -
  have "raw_get f k = raw_get (foldl mergeInto (build_start sid) (contributions sid cs)) k"
    using build_Some [OF assms] by (simp add: raw_get_def finish_build_keeps)
  then show ?thesis
    by (simp add: raw.foldl_from_zero build_start_zero)
qed

theorem build_raw_first_writer_witness:
  "\<exists>f. BuildServerFacts zero_time ''srv-1'' [dead_sample, host_sample, bmc_sample] = (Some f, None)
     \<and> raw_get f ''model'' = Some (jstr ''A'') \<and> raw_get f ''vendor'' = Some (jstr ''V'')"
proof -
  obtain f where f: "BuildServerFacts zero_time ''srv-1'' [dead_sample, host_sample, bmc_sample] = (Some f, None)"
    using sample_build_Some by blast
  from build_raw_first_writer [OF f, of "''model''"] build_raw_first_writer [OF f, of "''vendor''"] show ?thesis
    unfolding sample_contributions using f by (simp add: samples zero_defs raw_get_def)
qed

lemma build_source:
  assumes "BuildServerFacts now sid cs = (Some f, e)"
    and "\<forall>g\<in>set (contributions sid cs). CHR ''+'' \<notin> set (sf_Source g)"
  shows "sf_Source f = Join (unionStrings [] (List.map sf_Source (contributions sid cs))) ''+''"
proof -
  have "sf_Source f = foldl mergeSource (Join [] ''+'') (List.map sf_Source (contributions sid cs))"
    using build_Some [OF assms(1)] by (simp add: finish_build_keeps merged_source build_start_zero)
  also have "\<dots> = Join (unionStrings [] (List.map sf_Source (contributions sid cs))) ''+''"
    using assms(2) by (subst foldl_mergeSource) (auto simp: unionStrings_def)
  finally show ?thesis .
qed

text \<open>
  \<open>Source\<close> names every collector that contributed, in the order they first did, each once:
  when the labels contain no plus sign, it is the list of the distinct non-empty labels joined
  by plus signs, so splitting it at the plus signs gives the labels back.
\<close>

lemma build_source_labels:
  assumes "BuildServerFacts now sid cs = (Some f, e)"
    and "\<forall>g\<in>set (contributions sid cs). CHR ''+'' \<notin> set (sf_Source g)"
  shows "sf_Source f = Join (unionStrings [] (List.map sf_Source (contributions sid cs))) ''+''
    \<and> (sf_Source f \<noteq> [] \<longrightarrow>
         Split (sf_Source f) (CHR ''+'') = unionStrings [] (List.map sf_Source (contributions sid cs)))"
proof -
  let ?ss = "List.map sf_Source (contributions sid cs)"
  have "\<forall>x\<in>set (unionStrings [] ?ss). CHR ''+'' \<notin> set x"
    using assms(2) by auto
  then show ?thesis
    using build_source [OF assms] by (cases "unionStrings [] ?ss = []") (simp_all add: Split_Join)
qed

text \<open>
  C5. The health of a build is inferred from the merged facts alone: no collector's own opinion
  reaches it. It is healthy exactly when some hardware was found, the provisioning state is
  neither failed nor error, and the power state is on or was never reported; in particular a
  server whose power state nobody reported can be healthy.
\<close>

theorem build_health:
  assumes "BuildServerFacts now sid cs = (Some f, e)"
  shows "sf_Health f = InferHealth (Some f)
    \<and> (sf_Health f = ''healthy'' \<longleftrightarrow>
         hasHardwareFacts f
         \<and> (sf_PowerState f = [] \<or> EqualFold (sf_PowerState f) ''on'')
         \<and> \<not> EqualFold (sf_Provisioning f) ''failed'' \<and> \<not> EqualFold (sf_Provisioning f) ''error'')
    \<and> (sf_Health f = ''unknown'' \<longleftrightarrow>
         \<not> hasHardwareFacts f \<and> sf_PowerState f = [] \<and> sf_Provisioning f = [])"
proof -
  have h: "sf_Health f = InferHealth (Some f)"
    using build_Some [OF assms]
    by (simp add: finish_build_def Let_def InferHealth_def hasHardwareFacts_def)
  then show ?thesis
    by (auto simp: InferHealth_def)
qed

theorem build_health_witness:
  "\<exists>f. BuildServerFacts zero_time ''srv-1''
        [\<lambda>s. (Some (zero_facts\<lparr>sf_MemoryGB := 16, sf_Health := ''degraded''\<rparr>), None)] = (Some f, None)
     \<and> sf_PowerState f = [] \<and> sf_Health f = ''healthy''"
proof -
  let ?cs = "[\<lambda>s. (Some (zero_facts\<lparr>sf_MemoryGB := 16, sf_Health := ''degraded''\<rparr>), None)] :: Collector list"
  obtain f where f: "BuildServerFacts zero_time ''srv-1'' ?cs = (Some f, None)"
    by (simp add: BuildServerFacts_eq)
  have "sf_MemoryGB f = 16" and "sf_PowerState f = []" and "sf_Provisioning f = []"
    using first_collector_inv [OF f] by (simp_all add: zero_defs)
  with build_health [OF f] f show ?thesis
    by (auto simp: hasHardwareFacts_def)
qed

end
