(* ===== verification/Json_Text.thy ===== *)
theory Json_Text
  imports Json
begin

text \<open>
  The text layer of \<open>encoding/json\<close>: the compact text \<open>Marshal\<close> writes, the scanner, and the
  parser as the pushdown machine the library uses. The main result is that parsing a printed
  document gives the document back. The library's limit on nesting depth (10000) is not
  modelled.
\<close>

datatype token =
    TLBrace | TRBrace | TLBrack | TRBrack | TColon | TComma
  | TNull | TBool bool | TNum string | TStr string


section \<open>Scanning\<close>

definition json_space :: "char \<Rightarrow> bool" where
  "json_space c \<longleftrightarrow> c \<in> {CHR '' '', CHR 0x09, CHR 0x0A, CHR 0x0D}"

definition num_char :: "char \<Rightarrow> bool" where
  "num_char c \<longleftrightarrow> c \<in> set ''0123456789+-.eE''"

text \<open>The grammar of number literals: sign, integer part, fraction, exponent.\<close>

definition drop_exponent :: "string \<Rightarrow> bool" where
  "drop_exponent s =
     (case s of
        [] \<Rightarrow> True
      | c # t \<Rightarrow>
          (c = CHR ''e'' \<or> c = CHR ''E'')
          \<and> (let u = (case t of [] \<Rightarrow> [] | d # v \<Rightarrow> if d = CHR ''+'' \<or> d = CHR ''-'' then v else t)
             in u \<noteq> [] \<and> list_all is_digit u))"

definition drop_fraction :: "string \<Rightarrow> bool" where
  "drop_fraction s =
     (case s of
        [] \<Rightarrow> True
      | c # t \<Rightarrow>
          if c = CHR ''.'' then takeWhile is_digit t \<noteq> [] \<and> drop_exponent (dropWhile is_digit t)
          else drop_exponent s)"

definition json_number :: "string \<Rightarrow> bool" where
  "json_number s =
     (let t = (case s of [] \<Rightarrow> [] | c # u \<Rightarrow> if c = CHR ''-'' then u else s);
          ds = takeWhile is_digit t
      in ds \<noteq> [] \<and> (hd ds = CHR ''0'' \<longrightarrow> length ds = 1) \<and> drop_fraction (dropWhile is_digit t))"

text \<open>A string literal after its opening quote: its text and what follows the closing quote.\<close>

definition is_hex :: "char \<Rightarrow> bool" where
  "is_hex c \<longleftrightarrow> hex_val c \<noteq> None"

text \<open>How many characters the next element of a literal takes: 0 if it is not allowed there.\<close>

definition elem_len :: "string \<Rightarrow> nat" where
  "elem_len s =
     (case s of
        [] \<Rightarrow> 0
      | c # t \<Rightarrow>
          if byte_in 0 0x1F c then 0
          else if c \<noteq> CHR 0x5C then 1
          else (case t of
                  [] \<Rightarrow> 0
                | e # u \<Rightarrow>
                    if simple_escape e \<noteq> None then 2
                    else if e = CHR ''u'' \<and> 4 \<le> length u \<and> list_all is_hex (take 4 u) then 6
                    else 0))"

function lex_str :: "string \<Rightarrow> (string \<times> string) option" where
  "lex_str [] = None"
| "lex_str (c # s) =
     (if c = CHR 0x22 then Some ([], s)
      else if elem_len (c # s) = 0 then None
      else map_option (\<lambda>(b, r). (take (elem_len (c # s)) (c # s) @ b, r))
             (lex_str (drop (elem_len (c # s)) (c # s))))"
  by pat_completeness auto
termination
  by (relation "measure length") auto

declare lex_str.simps(2) [simp del]

lemma lex_str_shorter: "lex_str s = Some (b, r) \<Longrightarrow> length r < length s"
proof (induction s arbitrary: b rule: lex_str.induct)
  case (2 c s)
  show ?case
  proof (cases "c = CHR 0x22 \<or> elem_len (c # s) = 0")
    case True
    with "2.prems" show ?thesis
      by (auto simp: lex_str.simps(2) split: if_splits)
  next
    case False
    with "2.prems" obtain b' where "lex_str (drop (elem_len (c # s)) (c # s)) = Some (b', r)"
      by (auto simp: lex_str.simps(2))
    with "2.IH" False have "length r < length (drop (elem_len (c # s)) (c # s))"
      by blast
    then show ?thesis by simp
  qed
qed simp

definition punct :: "char \<Rightarrow> token option" where
  "punct c =
     (if c = CHR 0x7B then Some TLBrace else if c = CHR 0x7D then Some TRBrace
      else if c = CHR 0x5B then Some TLBrack else if c = CHR 0x5D then Some TRBrack
      else if c = CHR '':'' then Some TColon else if c = CHR '','' then Some TComma else None)"

text \<open>One token at the front of the input and the rest.\<close>

definition lex1 :: "string \<Rightarrow> (token \<times> string) option" where
  "lex1 s =
     (case s of
        [] \<Rightarrow> None
      | c # t \<Rightarrow>
          (case punct c of
             Some tok \<Rightarrow> Some (tok, t)
           | None \<Rightarrow>
               if c = CHR 0x22 then map_option (\<lambda>(b, r). (TStr b, r)) (lex_str t)
               else if HasPrefix s ''null'' then Some (TNull, drop 4 s)
               else if HasPrefix s ''true'' then Some (TBool True, drop 4 s)
               else if HasPrefix s ''false'' then Some (TBool False, drop 5 s)
               else if num_char c \<and> json_number (takeWhile num_char s)
                 then Some (TNum (takeWhile num_char s), dropWhile num_char s)
               else None))"

lemma lex1_shorter:
  assumes "lex1 s = Some (tok, r)"
  shows "length r < length s"
proof (cases s)
  case Nil
  with assms show ?thesis by (simp add: lex1_def)
next
  case (Cons c t)
  have "length (dropWhile num_char t) \<le> length t"
    by (rule length_dropWhile_le)
  with assms Cons show ?thesis
    by (auto simp: lex1_def dest: lex_str_shorter split: option.splits if_splits)
qed

function lex :: "string \<Rightarrow> token list option" where
  "lex [] = Some []"
| "lex (c # s) =
     (if json_space c then lex s
      else case lex1 (c # s) of
        None \<Rightarrow> None
      | Some (tok, r) \<Rightarrow> map_option ((#) tok) (lex r))"
  by pat_completeness auto
termination
  by (relation "measure length") (auto dest: lex1_shorter)

declare lex.simps(2) [simp del]


section \<open>Parsing\<close>

text \<open>
  Open arrays and objects are kept on a stack, innermost first, with the elements read so far
  in reverse; an object frame also has the key whose value comes next.
\<close>

datatype frame = FArr "json list" | FObj "(string \<times> json) list" string

datatype mode = MValue | MFirst | MKey | MFirstKey | MColon | MSep | MDone json

type_synonym pstate = "frame list \<times> mode"

text \<open>A value has been read completely.\<close>

fun complete :: "frame list \<Rightarrow> json \<Rightarrow> pstate" where
  "complete [] v = ([], MDone v)"
| "complete (FArr vs # fs) v = (FArr (v # vs) # fs, MSep)"
| "complete (FObj kvs k # fs) v = (FObj ((k, v) # kvs) [] # fs, MSep)"

definition begin_value :: "frame list \<Rightarrow> token \<Rightarrow> pstate option" where
  "begin_value fs tok =
     (case tok of
        TNull \<Rightarrow> Some (complete fs JNull)
      | TBool b \<Rightarrow> Some (complete fs (JBool b))
      | TNum l \<Rightarrow> Some (complete fs (JNum l))
      | TStr r \<Rightarrow> Some (complete fs (JStr r))
      | TLBrack \<Rightarrow> Some (FArr [] # fs, MFirst)
      | TLBrace \<Rightarrow> Some (FObj [] [] # fs, MFirstKey)
      | _ \<Rightarrow> None)"

definition pstep :: "pstate \<Rightarrow> token \<Rightarrow> pstate option" where
  "pstep st tok =
     (case st of (fs, m) \<Rightarrow>
        (case m of
           MValue \<Rightarrow> begin_value fs tok
         | MFirst \<Rightarrow>
             if tok = TRBrack then
               (case fs of FArr vs # fs' \<Rightarrow> Some (complete fs' (JArr [])) | _ \<Rightarrow> None)
             else begin_value fs tok
         | MFirstKey \<Rightarrow>
             (case (fs, tok) of
                (FObj kvs k # fs', TRBrace) \<Rightarrow> Some (complete fs' (JObj []))
              | (FObj kvs k # fs', TStr r) \<Rightarrow> Some (FObj kvs r # fs', MColon)
              | _ \<Rightarrow> None)
         | MKey \<Rightarrow>
             (case (fs, tok) of
                (FObj kvs k # fs', TStr r) \<Rightarrow> Some (FObj kvs r # fs', MColon)
              | _ \<Rightarrow> None)
         | MColon \<Rightarrow> if tok = TColon then Some (fs, MValue) else None
         | MSep \<Rightarrow>
             (case fs of
                FArr vs # fs' \<Rightarrow>
                  if tok = TComma then Some (FArr vs # fs', MValue)
                  else if tok = TRBrack then Some (complete fs' (JArr (rev vs))) else None
              | FObj kvs k # fs' \<Rightarrow>
                  if tok = TComma then Some (FObj kvs k # fs', MKey)
                  else if tok = TRBrace then Some (complete fs' (JObj (rev kvs))) else None
              | [] \<Rightarrow> None)
         | MDone v \<Rightarrow> None))"

fun prun :: "pstate \<Rightarrow> token list \<Rightarrow> pstate option" where
  "prun st [] = Some st"
| "prun st (t # ts) = (case pstep st t of None \<Rightarrow> None | Some st' \<Rightarrow> prun st' ts)"

definition parse_tokens :: "token list \<Rightarrow> json option" where
  "parse_tokens ts = (case prun ([], MValue) ts of Some ([], MDone v) \<Rightarrow> Some v | _ \<Rightarrow> None)"

text \<open>The document a byte string holds, if it is valid JSON.\<close>

definition parse_json :: "string \<Rightarrow> json option" where
  "parse_json s = (case lex s of None \<Rightarrow> None | Some ts \<Rightarrow> parse_tokens ts)"


section \<open>Printing\<close>

definition quoted :: "string \<Rightarrow> string" where
  "quoted r = CHR 0x22 # r @ [CHR 0x22]"

fun print_json :: "json \<Rightarrow> string" where
  "print_json JNull = ''null''"
| "print_json (JBool b) = (if b then ''true'' else ''false'')"
| "print_json (JNum l) = l"
| "print_json (JStr r) = quoted r"
| "print_json (JArr vs) = [CHR 0x5B] @ Join (List.map print_json vs) '','' @ [CHR 0x5D]"
| "print_json (JObj kvs) =
     [CHR 0x7B] @ Join (List.map (\<lambda>kv. quoted (fst kv) @ '':'' @ print_json (snd kv)) kvs) '','' @ [CHR 0x7D]"

text \<open>The documents \<open>Marshal\<close> produces: every literal is a literal of the grammar.\<close>

definition str_ok :: "string \<Rightarrow> bool" where
  "str_ok r \<longleftrightarrow> lex_str (r @ [CHR 0x22]) = Some (r, [])"

fun json_ok :: "json \<Rightarrow> bool" where
  "json_ok JNull = True"
| "json_ok (JBool b) = True"
| "json_ok (JNum l) = (json_number l \<and> list_all num_char l)"
| "json_ok (JStr r) = str_ok r"
| "json_ok (JArr vs) = list_all json_ok vs"
| "json_ok (JObj kvs) = list_all (\<lambda>kv. str_ok (fst kv) \<and> json_ok (snd kv)) kvs"

text \<open>The numbers of a document \<open>Marshal\<close> refuses to write, in document order.\<close>

fun bad_numbers :: "json \<Rightarrow> string list" where
  "bad_numbers (JNum l) = (if json_number l then [] else [l])"
| "bad_numbers (JArr vs) = concat (List.map bad_numbers vs)"
| "bad_numbers (JObj kvs) = concat (List.map (\<lambda>kv. bad_numbers (snd kv)) kvs)"
| "bad_numbers _ = []"

lemma json_ok_numbers: "json_ok v \<Longrightarrow> bad_numbers v = []"
  by (induction v rule: json_ok.induct) (auto simp: list_all_iff)


subsection \<open>Scanning printed text\<close>

fun sep_toks :: "token list list \<Rightarrow> token list" where
  "sep_toks [] = []"
| "sep_toks [x] = x"
| "sep_toks (x # y # ys) = x @ TComma # sep_toks (y # ys)"

fun toks :: "json \<Rightarrow> token list" where
  "toks JNull = [TNull]"
| "toks (JBool b) = [TBool b]"
| "toks (JNum l) = [TNum l]"
| "toks (JStr r) = [TStr r]"
| "toks (JArr vs) = TLBrack # sep_toks (List.map toks vs) @ [TRBrack]"
| "toks (JObj kvs) =
     TLBrace # sep_toks (List.map (\<lambda>kv. TStr (fst kv) # TColon # toks (snd kv)) kvs) @ [TRBrace]"

lemma elem_len_simps:
  "elem_len [c] = (if byte_in 0 0x1F c then 0 else if c \<noteq> CHR 0x5C then 1 else 0)"
  "elem_len (c # e # u) =
     (if byte_in 0 0x1F c then 0 else if c \<noteq> CHR 0x5C then 1
      else if simple_escape e \<noteq> None then 2
      else if e = CHR ''u'' \<and> 4 \<le> length u \<and> list_all is_hex (take 4 u) then 6 else 0)"
  by (simp_all only: elem_len_def list.case)

lemma elem_len_Nil [simp]: "elem_len [] = 0"
  by (simp add: elem_len_def)

lemma elem_len_plain: "\<not> byte_in 0 0x1F c \<Longrightarrow> c \<noteq> CHR 0x5C \<Longrightarrow> elem_len (c # s) = 1"
  by (simp add: elem_len_def)

lemma elem_len_append:
  assumes "elem_len a \<noteq> 0"
  shows "elem_len (a @ s) = elem_len a"
proof (cases a)
  case (Cons c t)
  show ?thesis
  proof (cases t)
    case Nil
    with Cons assms show ?thesis
      by (simp add: elem_len_simps elem_len_plain split: if_splits)
  next
    case (Cons e u)
    have "4 \<le> length u \<Longrightarrow> take 4 (u @ s) = take 4 u"
      by simp
    with \<open>a = c # t\<close> Cons assms show ?thesis
      by (auto simp: elem_len_simps(2) split: if_splits)
  qed
qed (use assms in simp)

lemma elem_len_le: "elem_len a \<le> length a"
proof (cases a)
  case (Cons c t)
  then show ?thesis
    by (cases t) (simp_all add: elem_len_simps)
qed simp

lemma lex_str_append: "lex_str a = Some (b, r) \<Longrightarrow> lex_str (a @ s) = Some (b, r @ s)"
proof (induction a arbitrary: b rule: lex_str.induct)
  case (2 c a)
  show ?case
  proof (cases "c = CHR 0x22 \<or> elem_len (c # a) = 0")
    case True
    with "2.prems" show ?thesis
      by (auto simp: lex_str.simps(2) split: if_splits)
  next
    case False
    define n where "n = elem_len (c # a)"
    from False "2.prems" obtain b' where b': "lex_str (drop n (c # a)) = Some (b', r)"
      and b: "b = take n (c # a) @ b'"
      by (auto simp: lex_str.simps(2) n_def)
    have "lex_str (drop n (c # a) @ s) = Some (b', r @ s)"
      using "2.IH" False b' unfolding n_def by blast
    moreover have "elem_len (c # a @ s) = n" and "n \<le> length (c # a)"
      using False elem_len_append [of "c # a" s] elem_len_le [of "c # a"] by (simp_all add: n_def)
    moreover have "drop n ((c # a) @ s) = drop n (c # a) @ s" and "take n ((c # a) @ s) = take n (c # a)"
      using \<open>n \<le> length (c # a)\<close> unfolding drop_append take_append by simp_all
    ultimately show ?thesis
      using False b n_def unfolding append_Cons lex_str.simps(2) by simp
  qed
qed simp

lemma lex_str_ok: "str_ok r \<Longrightarrow> lex_str (r @ CHR 0x22 # s) = Some (r, s)"
  using lex_str_append [of "r @ [CHR 0x22]" r "[]" s] by (simp add: str_ok_def)

text \<open>What may follow a printed number without becoming part of it.\<close>

definition stops :: "string \<Rightarrow> bool" where
  "stops s \<longleftrightarrow> s = [] \<or> \<not> num_char (hd s)"

lemma stops_simps [simp]:
  "stops []" "stops (CHR '','' # s)" "stops (CHR 0x5D # s)" "stops (CHR 0x7D # s)" "stops (CHR '':'' # s)"
  by (simp_all add: stops_def num_char_def)

lemma lex_punct:
  "lex (CHR 0x7B # s) = map_option ((#) TLBrace) (lex s)"
  "lex (CHR 0x7D # s) = map_option ((#) TRBrace) (lex s)"
  "lex (CHR 0x5B # s) = map_option ((#) TLBrack) (lex s)"
  "lex (CHR 0x5D # s) = map_option ((#) TRBrack) (lex s)"
  "lex (CHR '':'' # s) = map_option ((#) TColon) (lex s)"
  "lex (CHR '','' # s) = map_option ((#) TComma) (lex s)"
  by (simp_all add: lex.simps(2) lex1_def punct_def json_space_def)

lemma lex_quoted: "str_ok r \<Longrightarrow> lex (quoted r @ s) = map_option ((#) (TStr r)) (lex s)"
  by (simp add: quoted_def lex.simps(2) lex1_def punct_def json_space_def lex_str_ok)

lemma lex_word:
  "lex (''null'' @ s) = map_option ((#) TNull) (lex s)"
  "lex (''true'' @ s) = map_option ((#) (TBool True)) (lex s)"
  "lex (''false'' @ s) = map_option ((#) (TBool False)) (lex s)"
  by (simp_all add: lex.simps(2) lex1_def punct_def json_space_def)

lemma span_num: "list_all num_char l \<Longrightarrow> stops s \<Longrightarrow> takeWhile num_char (l @ s) = l \<and> dropWhile num_char (l @ s) = s"
  by (induction l) (auto simp: stops_def, (cases s; simp)+)

lemma num_char_first:
  "num_char c \<Longrightarrow> \<not> json_space c \<and> punct c = None \<and> c \<noteq> CHR 0x22 \<and> c \<noteq> CHR ''n'' \<and> c \<noteq> CHR ''t'' \<and> c \<noteq> CHR ''f''"
  unfolding num_char_def by (simp, elim disjE) (simp_all add: json_space_def punct_def)

lemma lex_num:
  assumes "json_number l" and "list_all num_char l" and "stops s"
  shows "lex (l @ s) = map_option ((#) (TNum l)) (lex s)"
proof -
  obtain c t where l: "l = c # t"
    using assms(1) by (cases l) (auto simp: json_number_def)
  have c: "num_char c" using assms(2) l by simp
  show ?thesis
    using num_char_first [OF c] span_num [OF assms(2,3)] assms(1) c
    by (simp add: l lex.simps(2) lex1_def)
qed


lemma map_option_Cons_append: "map_option ((@) (x # xs)) y = map_option ((#) x) (map_option ((@) xs) y)"
  by (cases y) simp_all

lemma map_option_append: "map_option ((@) (xs @ ys)) z = map_option ((@) xs) (map_option ((@) ys) z)"
  by (cases z) simp_all

lemma lex_blank: "list_all json_space ws \<Longrightarrow> lex (ws @ s) = lex s"
  by (induction ws) (simp_all add: lex.simps(2))

lemma lex_Join_blank:
  assumes "\<And>x s. x \<in> set xs \<Longrightarrow> stops s \<Longrightarrow> lex (pr x @ s) = map_option ((@) (tk x)) (lex s)"
    and "stops s" and "list_all json_space ws"
  shows "lex (Join (List.map pr xs) (CHR '','' # ws) @ s) = map_option ((@) (sep_toks (List.map tk xs))) (lex s)"
  using assms
proof (induction xs)
  case Nil
  then show ?case by (cases "lex s") simp_all
next
  case (Cons x xs)
  show ?case
  proof (cases xs)
    case Nil
    with Cons.prems show ?thesis by simp
  next
    case (Cons y ys)
    have "lex (pr x @ (CHR '','' # ws) @ Join (List.map pr xs) (CHR '','' # ws) @ s)
        = map_option ((@) (tk x)) (lex ((CHR '','' # ws) @ Join (List.map pr xs) (CHR '','' # ws) @ s))"
      by (rule Cons.prems(1)) simp_all
    also have "\<dots> = map_option ((@) (tk x)) (map_option ((#) TComma)
        (map_option ((@) (sep_toks (List.map tk xs))) (lex s)))"
      using Cons.IH Cons.prems by (simp add: lex_punct lex_blank)
    finally show ?thesis
      using Cons by (cases "lex s") simp_all
  qed
qed

lemmas lex_Join = lex_Join_blank [where ws = "[]", simplified]

lemma lex_print:
  "json_ok v \<Longrightarrow> stops s \<Longrightarrow> lex (print_json v @ s) = map_option ((@) (toks v)) (lex s)"
proof (induction v arbitrary: s rule: print_json.induct)
  case (5 vs)
  have "lex (Join (List.map print_json vs) '','' @ [CHR 0x5D] @ s)
      = map_option ((@) (sep_toks (List.map toks vs))) (lex ([CHR 0x5D] @ s))"
    using 5 by (intro lex_Join) (auto simp: list_all_iff)
  then show ?case
    by (cases "lex s") (simp_all add: lex_punct)
next
  case (6 kvs)
  have "lex (Join (List.map (\<lambda>kv. quoted (fst kv) @ '':'' @ print_json (snd kv)) kvs) '','' @ [CHR 0x7D] @ s)
      = map_option ((@) (sep_toks (List.map (\<lambda>kv. TStr (fst kv) # TColon # toks (snd kv)) kvs))) (lex ([CHR 0x7D] @ s))"
  proof (rule lex_Join)
    fix kv s'
    assume kv: "kv \<in> set kvs" and "stops s'"
    with 6 have "lex (print_json (snd kv) @ s') = map_option ((@) (toks (snd kv))) (lex s')"
      by (auto simp: list_all_iff)
    then show "lex ((quoted (fst kv) @ '':'' @ print_json (snd kv)) @ s')
        = map_option ((@) (TStr (fst kv) # TColon # toks (snd kv))) (lex s')"
      using 6 kv by (cases "lex s'") (auto simp: list_all_iff lex_quoted lex_punct)
  qed simp
  then show ?case
    by (cases "lex s") (simp_all add: lex_punct)
qed (auto simp: lex_word lex_quoted lex_num append_single simp del: append_Cons)

subsection \<open>Parsing printed tokens\<close>

lemma toks_first: "\<exists>t ts. toks v = t # ts \<and> t \<noteq> TRBrack"
  by (cases v) auto

lemma prun_first:
  assumes "toks v @ ts = us"
  shows "prun (fs, MFirst) us = prun (fs, MValue) us"
proof -
  obtain t us' where "us = t # us'" and "t \<noteq> TRBrack"
    using toks_first [of v] assms by auto
  then show ?thesis by (simp add: pstep_def)
qed

lemma prun_value: "prun (fs, MValue) (toks v @ ts) = prun (complete fs v) ts"
proof (induction v arbitrary: fs ts rule: toks.induct)
  case (5 vs)
  have elems: "prun (FArr acc # fs, MValue) (sep_toks (List.map toks (w # ws)) @ TRBrack # ts)
      = prun (complete fs (JArr (rev acc @ w # ws))) ts" if "set (w # ws) \<subseteq> set vs" for w ws acc
    using that
  proof (induction ws arbitrary: w acc)
    case Nil
    with 5 show ?case by (simp add: pstep_def)
  next
    case (Cons x xs)
    with 5 have "prun (FArr acc # fs, MValue) (toks w @ TComma # sep_toks (List.map toks (x # xs)) @ TRBrack # ts)
        = prun (FArr (w # acc) # fs, MSep) (TComma # sep_toks (List.map toks (x # xs)) @ TRBrack # ts)"
      by simp
    also have "\<dots> = prun (FArr (w # acc) # fs, MValue) (sep_toks (List.map toks (x # xs)) @ TRBrack # ts)"
      by (simp add: pstep_def)
    also have "\<dots> = prun (complete fs (JArr (rev (w # acc) @ x # xs))) ts"
      using Cons.prems by (intro Cons.IH) simp
    finally show ?case by simp
  qed
  show ?case
  proof (cases vs)
    case Nil
    then show ?thesis by (simp add: pstep_def begin_value_def)
  next
    case (Cons w ws)
    obtain us where "sep_toks (List.map toks vs) @ TRBrack # ts = toks w @ us"
      using Cons by (cases ws) auto
    then have "prun (FArr [] # fs, MFirst) (sep_toks (List.map toks vs) @ TRBrack # ts)
        = prun (FArr [] # fs, MValue) (sep_toks (List.map toks vs) @ TRBrack # ts)"
      by (metis prun_first)
    then show ?thesis
      using elems [of w ws "[]"] Cons by (simp add: pstep_def begin_value_def)
  qed
next
  case (6 kvs)
  let ?tk = "\<lambda>kv. TStr (fst kv) # TColon # toks (snd kv)"
  have elems: "prun (FObj acc k # fs, m) (sep_toks (List.map ?tk (w # ws)) @ TRBrace # ts)
      = prun (complete fs (JObj (rev acc @ w # ws))) ts"
    if "set (w # ws) \<subseteq> set kvs" and "m = MKey \<or> m = MFirstKey" for w ws acc k m
    using that
  proof (induction ws arbitrary: w acc k m)
    case Nil
    with 6 show ?case by (cases w) (auto simp: pstep_def)
  next
    case (Cons x xs)
    let ?rest = "TComma # sep_toks (List.map ?tk (x # xs)) @ TRBrace # ts"
    have "prun (FObj acc k # fs, m) (?tk w @ ?rest) = prun (FObj acc (fst w) # fs, MValue) (toks (snd w) @ ?rest)"
      using Cons.prems by (auto simp: pstep_def)
    also have "\<dots> = prun (complete (FObj acc (fst w) # fs) (snd w)) ?rest"
      by (rule 6) (use Cons.prems in auto)
    also have "\<dots> = prun (FObj (w # acc) [] # fs, MKey) (sep_toks (List.map ?tk (x # xs)) @ TRBrace # ts)"
      by (simp add: pstep_def)
    also have "\<dots> = prun (complete fs (JObj (rev (w # acc) @ x # xs))) ts"
      using Cons.prems by (intro Cons.IH) auto
    finally show ?case by simp
  qed
  show ?case
    using elems [of "hd kvs" "tl kvs" MFirstKey "[]" "[]"]
    by (cases kvs) (simp_all add: pstep_def begin_value_def)
qed (simp_all add: pstep_def begin_value_def)

theorem parse_print: "json_ok v \<Longrightarrow> parse_json (print_json v) = Some v"
  using lex_print [of v "[]"] prun_value [of "[]" v "[]"]
  by (simp add: parse_json_def parse_tokens_def)


subsection \<open>What Marshal writes is valid\<close>

text \<open>A piece of a literal the scanner passes over as a whole.\<close>

definition chunk :: "string \<Rightarrow> bool" where
  "chunk x \<longleftrightarrow> (\<forall>s. lex_str (x @ s) = map_option (\<lambda>(b, r). (x @ b, r)) (lex_str s))"

lemma map_option_pair_Nil: "map_option (\<lambda>(b, r). (b, r)) x = x"
  by (cases x) auto

lemma chunk_Nil: "chunk []"
  unfolding chunk_def append_Nil by (simp only: map_option_pair_Nil simp_thms)

lemma chunk_append: "chunk x \<Longrightarrow> chunk y \<Longrightarrow> chunk (x @ y)"
  by (simp add: chunk_def option.map_comp comp_def case_prod_unfold)

lemma chunk_elem:
  assumes "x \<noteq> []" and "hd x \<noteq> CHR 0x22" and "elem_len x = length x"
  shows "chunk x"
proof -
  obtain c t where x: "x = c # t" using assms(1) by (cases x) auto
  have "elem_len (c # t @ s) = length x" for s
    using elem_len_append [of x s] assms x by simp
  then show ?thesis
    using assms x by (simp add: chunk_def lex_str.simps(2))
qed

lemma chunk_plain: "\<not> byte_in 0 0x1F c \<Longrightarrow> c \<noteq> CHR 0x5C \<Longrightarrow> c \<noteq> CHR 0x22 \<Longrightarrow> chunk [c]"
  by (rule chunk_elem) (simp_all add: elem_len_simps)

lemma not_ctrl_backslash [simp]: "\<not> byte_in 0 0x1F (CHR 0x5C)"
  by (simp add: byte_in_def)

lemma chunk_escape: "simple_escape e \<noteq> None \<Longrightarrow> chunk [CHR 0x5C, e]"
  by (rule chunk_elem) (auto simp: elem_len_simps)

lemma is_hex_digit: "k \<in> {0..15} \<Longrightarrow> is_hex (hex_digits ! nat k)"
  by (simp add: is_hex_def hex_val_digit)

lemma chunk_u_escape: "chunk (u_escape n)"
  unfolding u_escape_def
  by (rule chunk_elem) (simp_all add: elem_len_simps simple_escape_def is_hex_digit mod_16 del: atLeastAtMost_iff)

lemma chunk_if: "(P \<Longrightarrow> chunk x) \<Longrightarrow> (\<not> P \<Longrightarrow> chunk y) \<Longrightarrow> chunk (if P then x else y)"
  by simp

lemma chunk_quote_byte: "chunk (quote_byte c)"
  unfolding quote_byte_def
  by (intro chunk_if chunk_u_escape chunk_escape chunk_plain) (simp_all add: simple_escape_def, auto)

lemma chunk_wide: "list_all (\<lambda>c. (0x80 :: int) \<le> of_char c) x \<Longrightarrow> chunk x"
proof (induction x)
  case (Cons c x)
  then have "chunk [c]"
    by (intro chunk_plain) (auto simp: byte_in_def)
  with Cons chunk_append [of "[c]" x] show ?case by simp
qed (rule chunk_Nil)

lemma utf8_take_wide:
  assumes "utf8_len s = n" and "n \<noteq> 0" and "n \<noteq> 1"
  shows "list_all (\<lambda>c. (0x80 :: int) \<le> of_char c) (take n s)"
proof (cases s)
  case (Cons a t)
  with assms show ?thesis
    by (auto simp: utf8_len.simps(2) byte_in_def cont_def split: if_splits list.splits)
qed (use assms in simp)

lemma chunk_quote: "chunk (quote s)"
proof (induction s rule: quote.induct)
  case 1
  show ?case by (simp add: chunk_Nil)
next
  case (2 c s)
  define n where "n = utf8_len (c # s)"
  show ?case
  proof (cases "n = 0 \<or> n = 1")
    case True
    with 2 show ?thesis
      unfolding quote.simps(2) n_def [symmetric] Let_def
      by (auto simp: n_def intro: chunk_append chunk_u_escape chunk_quote_byte)
  next
    case False
    then have q: "chunk (quote (drop n (c # s)))"
      using "2.IH"(3-5) [OF refl] unfolding n_def by metis
    have "chunk (take n (c # s))"
      using False n_def by (intro chunk_wide utf8_take_wide) auto
    with q False show ?thesis
      unfolding quote.simps(2) n_def [symmetric] Let_def
      by (auto intro: chunk_append chunk_u_escape simp del: take_Cons' drop_Cons')
  qed
qed

lemma str_ok_quote: "str_ok (quote s)"
  using chunk_quote [of s] by (simp add: str_ok_def chunk_def lex_str.simps(2))

lemma is_digit_num_char: "is_digit c \<Longrightarrow> num_char c"
  by (auto simp: is_digit_def num_char_def)

lemma num_char_minus: "num_char (CHR ''-'')"
  by (simp add: num_char_def)

lemma nat_str_head: "0 < n \<Longrightarrow> hd (nat_str n) \<noteq> CHR ''0''"
proof (induction n rule: nat_str.induct)
  case (1 n)
  show ?case
  proof (cases "n < 10")
    case True
    with 1 have "n = 1 \<or> n = 2 \<or> n = 3 \<or> n = 4 \<or> n = 5 \<or> n = 6 \<or> n = 7 \<or> n = 8 \<or> n = 9"
      by presburger
    then show ?thesis
      by (elim disjE) (simp_all add: nat_str.simps digit_char_def)
  next
    case False
    with 1 show ?thesis by (simp add: nat_str.simps [of n])
  qed
qed

lemma json_number_digits:
  assumes "0 \<le> n"
  shows "takeWhile is_digit (nat_str n) = nat_str n \<and> dropWhile is_digit (nat_str n) = []
    \<and> (hd (nat_str n) = CHR ''0'' \<longrightarrow> length (nat_str n) = 1)"
proof -
  have "\<forall>c\<in>set (nat_str n). is_digit c"
    using nat_str_digits [OF assms] by (simp add: list_all_iff)
  then show ?thesis
    using nat_str_head [of n] assms by (cases "n = 0") (auto simp: nat_str.simps)
qed

lemma json_number_Itoa: "json_number (Itoa n) \<and> list_all num_char (Itoa n)"
proof (cases "n < 0")
  case True
  then show ?thesis
    using json_number_digits [of "- n"] nat_str_digits [of "- n"] num_char_minus
    by (auto simp: Itoa_def json_number_def drop_fraction_def list_all_iff is_digit_num_char Let_def
        simp del: takeWhile_eq_all_conv dropWhile_eq_Nil_conv)
next
  case False
  obtain c cs where n: "nat_str n = c # cs"
    using nat_str_not_Nil [of n] by (cases "nat_str n") auto
  have "is_digit c" using nat_str_hd [of n] n False by simp
  moreover have "takeWhile is_digit cs = cs" and "dropWhile is_digit cs = []"
    and "c = CHR ''0'' \<longrightarrow> cs = []" and "list_all is_digit cs"
    using json_number_digits [of n] nat_str_digits [of n] calculation False by (auto simp: n)
  ultimately show ?thesis
    using False is_digit_not [of c]
    by (auto simp: Itoa_def json_number_def n drop_fraction_def list_all_iff is_digit_num_char
        simp del: takeWhile_eq_all_conv dropWhile_eq_Nil_conv)
qed

lemma json_ok_jstr [simp]: "json_ok (jstr s)"
  by (simp add: jstr_def str_ok_quote)

lemma json_ok_jint [simp]: "json_ok (jint n)"
  by (simp add: jint_def json_number_Itoa)

end
