(* ===== verification/Facts_Json.thy ===== *)
theory Facts_Json
  imports Facts Json_Text "HOL-Library.Monad_Syntax"
begin

text \<open>
  \<open>json.Marshal\<close> and \<open>json.Unmarshal\<close> on \<open>ServerFacts\<close>, from the struct tags of
  \<open>facts/types.go\<close>, with the RFC 3339 form of instants. The main lemma is that facts survive
  the round trip through their document, which is what the facts store relies on.
\<close>


section \<open>Field names\<close>

text \<open>The JSON names of the structs are lower case, so matching a key is equality.\<close>

definition name_chars :: string where
  "name_chars = ''abcdefghijklmnopqrstuvwxyz_0123456789''"

definition json_name :: "string \<Rightarrow> bool" where
  "json_name s \<longleftrightarrow> list_all (\<lambda>c. c \<in> set name_chars) s"

lemma name_char_facts:
  assumes "c \<in> set name_chars"
  shows "lower_char c = c \<and> c \<noteq> CHR 0x5C \<and> c \<noteq> CHR 0x22 \<and> \<not> byte_in 0 0x1F c \<and> byte_in 0 0x7F c
    \<and> c \<noteq> CHR 0xE2 \<and> c \<noteq> CHR 0xC5"
proof -
  have "list_all (\<lambda>c. lower_char c = c \<and> c \<noteq> CHR 0x5C \<and> c \<noteq> CHR 0x22 \<and> \<not> byte_in 0 0x1F c
    \<and> byte_in 0 0x7F c \<and> c \<noteq> CHR 0xE2 \<and> c \<noteq> CHR 0xC5) name_chars"
    by code_simp
  with assms show ?thesis by (auto simp: list_all_iff)
qed

lemma unquote_name: "json_name s \<Longrightarrow> unquote s = Some s"
proof (induction s)
  case (Cons c s)
  have "c \<in> set name_chars" and "json_name s"
    using Cons.prems by (simp_all add: json_name_def)
  with Cons.IH name_char_facts [of c] show ?case
    by (simp add: unquote.simps(2) utf8_len_ascii)
qed simp

lemma EqualFold_name: "json_name s \<Longrightarrow> json_name t \<Longrightarrow> EqualFold s t \<longleftrightarrow> s = t"
proof (induction t arbitrary: s)
  case (Cons d t)
  show ?case
  proof (cases s)
    case (Cons c u)
    with Cons.prems have "c \<in> set name_chars" "d \<in> set name_chars" "json_name u" "json_name t"
      by (simp_all add: json_name_def)
    with Cons.IH [of u] name_char_facts [of c] name_char_facts [of d] show ?thesis
      by (auto simp: Cons)
  qed simp
qed simp

lemma key_is_name: "json_name name \<Longrightarrow> json_name k \<Longrightarrow> key_is name k \<longleftrightarrow> k = name"
  by (simp add: key_is_def unquote_name EqualFold_name)

lemma field_steps_other:
  "\<forall>kv\<in>set kvs. \<not> key_is name (fst kv) \<Longrightarrow> foldl (field_step dec name) acc kvs = acc"
  by (induction kvs) (auto simp: field_step_def)

text \<open>Reading a field of an object with distinct lower-case keys is a lookup.\<close>

definition names_ok :: "(string \<times> json) list \<Rightarrow> bool" where
  "names_ok kvs \<longleftrightarrow> list_all json_name (List.map fst kvs) \<and> distinct (List.map fst kvs)"

lemma field_lookup:
  assumes "json_name name" and "names_ok kvs"
  shows "field name dec z kvs =
    (case map_of kvs name of None \<Rightarrow> Some z | Some v \<Rightarrow> if v = JNull then Some z else dec v)"
  using assms(2)
proof (induction kvs)
  case Nil
  then show ?case by (simp add: field_def)
next
  case (Cons kv kvs)
  obtain k v where kv: "kv = (k, v)" by fastforce
  have k: "json_name k" and ok: "names_ok kvs" and fresh: "k \<notin> fst ` set kvs"
    using Cons.prems by (simp_all add: names_ok_def kv)
  have names: "json_name (fst x)" if "x \<in> set kvs" for x
    using ok that by (auto simp: names_ok_def list_all_iff)
  show ?case
  proof (cases "k = name")
    case True
    with fresh names assms(1) have "\<forall>x\<in>set kvs. \<not> key_is name (fst x)"
      by (auto simp: key_is_name)
    with True assms(1) show ?thesis
      by (simp add: field_def kv field_step_def key_is_name field_steps_other)
  next
    case False
    with k assms(1) Cons.IH [OF ok] show ?thesis
      by (simp add: field_def kv field_step_def key_is_name)
  qed
qed


section \<open>Instants in RFC 3339 form\<close>

fun pad :: "nat \<Rightarrow> nat \<Rightarrow> string" where
  "pad 0 n = []"
| "pad (Suc w) n = pad w (n div 10) @ [digit_char (int (n mod 10))]"

definition strip_zeros :: "string \<Rightarrow> string" where
  "strip_zeros s = rev (dropWhile (\<lambda>c. c = CHR ''0'') (rev s))"

definition frac :: "nat \<Rightarrow> string" where
  "frac n = (if n = 0 then [] else CHR ''.'' # strip_zeros (pad 9 n))"

text \<open>\<open>time.RFC3339Nano\<close> in UTC.\<close>

definition format_time :: "gotime \<Rightarrow> string" where
  "format_time t =
     pad 4 (t_year t) @ ''-'' @ pad 2 (t_month t) @ ''-'' @ pad 2 (t_day t) @ ''T''
     @ pad 2 (t_hour t) @ '':'' @ pad 2 (t_min t) @ '':'' @ pad 2 (t_sec t) @ frac (t_nano t) @ ''Z''"

definition leap :: "nat \<Rightarrow> bool" where
  "leap y \<longleftrightarrow> y mod 4 = 0 \<and> (y mod 100 \<noteq> 0 \<or> y mod 400 = 0)"

definition days_in :: "nat \<Rightarrow> nat \<Rightarrow> nat" where
  "days_in y m =
     (if m = 2 then (if leap y then 29 else 28) else if m \<in> {4, 6, 9, 11} then 30 else 31)"

definition valid_time :: "gotime \<Rightarrow> bool" where
  "valid_time t \<longleftrightarrow>
     t_year t \<le> 9999 \<and> 1 \<le> t_month t \<and> t_month t \<le> 12 \<and> 1 \<le> t_day t \<and> t_day t \<le> days_in (t_year t) (t_month t)
     \<and> t_hour t \<le> 23 \<and> t_min t \<le> 59 \<and> t_sec t \<le> 59 \<and> t_nano t < 10 ^ 9"

definition num_at :: "nat \<Rightarrow> nat \<Rightarrow> string \<Rightarrow> nat option" where
  "num_at i w s =
     (let ds = take w (drop i s)
      in if length ds = w \<and> list_all is_digit ds then Some (nat (digits_val 0 ds)) else None)"

definition parse_frac :: "string \<Rightarrow> nat option" where
  "parse_frac s =
     (if s = ''Z'' then Some 0
      else case s of
        [] \<Rightarrow> None
      | c # t \<Rightarrow>
          let ds = takeWhile is_digit t
          in if c = CHR ''.'' \<and> ds \<noteq> [] \<and> dropWhile is_digit t = ''Z''
             then Some (nat (digits_val 0 (take 9 (ds @ ''000000000'')))) else None)"

text \<open>Parsing an instant in UTC; every instant the program stores is in UTC.\<close>

definition parse_time :: "string \<Rightarrow> gotime option" where
  "parse_time s =
     (if length s \<ge> 20 \<and> s ! 4 = CHR ''-'' \<and> s ! 7 = CHR ''-'' \<and> s ! 10 = CHR ''T''
         \<and> s ! 13 = CHR '':'' \<and> s ! 16 = CHR '':'' then
        do { y \<leftarrow> num_at 0 4 s; mo \<leftarrow> num_at 5 2 s; d \<leftarrow> num_at 8 2 s;
             h \<leftarrow> num_at 11 2 s; mi \<leftarrow> num_at 14 2 s; se \<leftarrow> num_at 17 2 s; n \<leftarrow> parse_frac (drop 19 s);
             if valid_time (GoTime y mo d h mi se n) then Some (GoTime y mo d h mi se n) else None }
      else None)"

lemma length_pad [simp]: "length (pad w n) = w"
  by (induction w n rule: pad.induct) auto

lemma pad_digits: "list_all is_digit (pad w n)"
  by (induction w n rule: pad.induct) (auto simp: digit_char_cases)

lemma digits_val_pad: "digits_val 0 (pad w n) = int (n mod 10 ^ w)"
proof (induction w n rule: pad.induct)
  case (2 w n)
  have "n mod (10 * 10 ^ w) = 10 * (n div 10 mod 10 ^ w) + n mod 10"
    by (rule mod_mult2_eq)
  with 2 show ?case
    by (simp add: digits_val_def digit_char_cases)
qed (simp add: digits_val_def)

lemma num_at_pad:
  assumes "s = a @ pad w n @ b" and "length a = i" and "n < 10 ^ w"
  shows "num_at i w s = Some n"
  using assms by (simp add: num_at_def Let_def pad_digits digits_val_pad)

lemma strip_zeros_decomp: "\<exists>k. s = strip_zeros s @ replicate k (CHR ''0'')"
proof -
  have "rev s = takeWhile (\<lambda>c. c = CHR ''0'') (rev s) @ dropWhile (\<lambda>c. c = CHR ''0'') (rev s)"
    by simp
  then have "s = strip_zeros s @ rev (takeWhile (\<lambda>c. c = CHR ''0'') (rev s))"
    unfolding strip_zeros_def by (metis rev_append rev_rev_ident)
  moreover have "rev (takeWhile (\<lambda>c. c = CHR ''0'') (rev s))
      = replicate (length (takeWhile (\<lambda>c. c = CHR ''0'') (rev s))) (CHR ''0'')"
    by (rule replicate_eqI) (auto dest: set_takeWhileD)
  ultimately show ?thesis by metis
qed

lemma digits_val_zeros: "digits_val 0 (replicate k (CHR ''0'')) = 0"
  by (induction k) (simp_all add: digits_val_def digit_val_def)

lemma parse_frac_frac:
  assumes "n < 10 ^ 9"
  shows "parse_frac (frac n @ ''Z'') = Some n"
proof (cases "n = 0")
  case True
  then show ?thesis by (simp add: frac_def parse_frac_def)
next
  case False
  define ds where "ds = strip_zeros (pad 9 n)"
  obtain k where k: "pad 9 n = ds @ replicate k (CHR ''0'')"
    using strip_zeros_decomp ds_def by metis
  have digits: "list_all is_digit ds"
    using pad_digits [of 9 n] by (simp add: k)
  have "ds \<noteq> []"
  proof
    assume "ds = []"
    then have "pad 9 n = replicate 9 (CHR ''0'')"
      using k length_pad [of 9 n] by (simp del: length_pad)
    then have "digits_val 0 (pad 9 n) = 0"
      by (simp only: digits_val_zeros)
    then show False
      using assms False by (simp add: digits_val_pad)
  qed
  moreover have "takeWhile is_digit (ds @ ''Z'') = ds" and "dropWhile is_digit (ds @ ''Z'') = ''Z''"
    using digits by (simp_all add: takeWhile_append dropWhile_append list_all_iff is_digit_def)
  moreover have "take 9 (ds @ ''000000000'') = pad 9 n"
  proof -
    have len: "length ds + k = 9"
      using k length_pad [of 9 n] by (metis length_append length_replicate)
    then have "''000000000'' = replicate k (CHR ''0'') @ replicate (length ds) (CHR ''0'')"
      by (simp add: replicate_add [symmetric] add.commute numeral_eq_Suc)
    with len show ?thesis by (simp add: k)
  qed
  ultimately show ?thesis
    using False assms
    by (simp add: frac_def parse_frac_def Let_def ds_def [symmetric] digits_val_pad)
qed


lemma days_in_le: "days_in y m \<le> 31"
  by (simp add: days_in_def)

theorem parse_format_time:
  assumes "valid_time t"
  shows "parse_time (format_time t) = Some t"
proof -
  obtain y mo d h mi se n where t: "t = GoTime y mo d h mi se n" by (cases t)
  define s where "s = format_time t"
  have b: "y < 10 ^ 4" "mo < 10 ^ 2" "d < 10 ^ 2" "h < 10 ^ 2" "mi < 10 ^ 2" "se < 10 ^ 2" "n < 10 ^ 9"
    using assms days_in_le [of y mo] by (auto simp: t valid_time_def)
  have s: "s = pad 4 y @ ''-'' @ pad 2 mo @ ''-'' @ pad 2 d @ ''T'' @ pad 2 h @ '':'' @ pad 2 mi @ '':''
      @ pad 2 se @ frac n @ ''Z''"
    by (simp add: s_def format_time_def t)
  have seps: "length s \<ge> 20 \<and> s ! 4 = CHR ''-'' \<and> s ! 7 = CHR ''-'' \<and> s ! 10 = CHR ''T''
      \<and> s ! 13 = CHR '':'' \<and> s ! 16 = CHR '':''"
    by (simp add: s nth_append)
  have nums: "num_at 0 4 s = Some y" "num_at 5 2 s = Some mo" "num_at 8 2 s = Some d"
    "num_at 11 2 s = Some h" "num_at 14 2 s = Some mi" "num_at 17 2 s = Some se"
    by (rule num_at_pad [where a = "[]", OF _ _ b(1)], simp add: s, simp,
      rule num_at_pad [where a = "pad 4 y @ ''-''", OF _ _ b(2)], simp add: s, simp,
      rule num_at_pad [where a = "pad 4 y @ ''-'' @ pad 2 mo @ ''-''", OF _ _ b(3)], simp add: s, simp,
      rule num_at_pad [where a = "pad 4 y @ ''-'' @ pad 2 mo @ ''-'' @ pad 2 d @ ''T''", OF _ _ b(4)], simp add: s, simp,
      rule num_at_pad [where a = "pad 4 y @ ''-'' @ pad 2 mo @ ''-'' @ pad 2 d @ ''T'' @ pad 2 h @ '':''", OF _ _ b(5)],
      simp add: s, simp,
      rule num_at_pad [where a = "pad 4 y @ ''-'' @ pad 2 mo @ ''-'' @ pad 2 d @ ''T'' @ pad 2 h @ '':'' @ pad 2 mi @ '':''", OF _ _ b(6)],
      simp add: s, simp)
  have "drop 19 s = frac n @ ''Z''"
    by (simp add: s)
  with seps nums parse_frac_frac [OF b(7)] assms show ?thesis
    unfolding s_def [symmetric] by (simp add: parse_time_def t)
qed


section \<open>Structs\<close>

text \<open>A nil or empty slice is written as \<open>null\<close>: the code only builds nil ones when they are empty.\<close>

definition enc_slice :: "('a \<Rightarrow> json) \<Rightarrow> 'a list \<Rightarrow> json" where
  "enc_slice enc xs = (if xs = [] then JNull else JArr (List.map enc xs))"

definition cpu_json :: "CPUFacts \<Rightarrow> json" where
  "cpu_json c = JObj
     [(''vendor'', jstr (cpu_Vendor c)), (''model'', jstr (cpu_Model c)),
      (''sockets'', jint (cpu_Sockets c)), (''cores'', jint (cpu_Cores c)), (''threads'', jint (cpu_Threads c))]"

definition disk_json :: "DiskFacts \<Rightarrow> json" where
  "disk_json d = JObj
     [(''name'', jstr (disk_Name d)), (''type'', jstr (disk_Type d)),
      (''size_gb'', jint (disk_SizeGB d)), (''rotational'', JBool (disk_Rotational d))]"

definition nic_json :: "NICFacts \<Rightarrow> json" where
  "nic_json n = JObj
     [(''name'', jstr (nic_Name n)), (''mac'', jstr (nic_MAC n)), (''speed_gbps'', jint (nic_SpeedGbps n)),
      (''driver'', jstr (nic_Driver n)), (''features'', enc_slice jstr (nic_Features n))]"

text \<open>\<open>Raw\<close> has the option \<open>omitempty\<close>; map keys are written in sorted order.\<close>

definition raw_json :: "(string, json) gomap \<Rightarrow> json" where
  "raw_json m = JObj (List.map (\<lambda>(k, v). (quote k, v)) (sort_key fst m))"

definition facts_json :: "ServerFacts \<Rightarrow> json" where
  "facts_json f = JObj (
     [(''server_id'', jstr (sf_ServerID f)), (''observed_at'', JStr (format_time (sf_ObservedAt f))),
      (''source'', jstr (sf_Source f)), (''power_state'', jstr (sf_PowerState f)),
      (''provisioning'', jstr (sf_Provisioning f)), (''health'', jstr (sf_Health f)),
      (''cpu'', cpu_json (sf_CPU f)), (''memory_gb'', jint (sf_MemoryGB f)),
      (''disks'', enc_slice disk_json (sf_Disks f)), (''nics'', enc_slice nic_json (sf_NICs f)),
      (''capabilities'', enc_slice jstr (sf_Capabilities f)),
      (''network_modes'', enc_slice jstr (sf_NetworkModes f)),
      (''failure_domain'', jstr (sf_FailureDomain f))]
     @ (case sf_Raw f of
          None \<Rightarrow> []
        | Some m \<Rightarrow> if m = [] then [] else [(''raw'', raw_json m)]))"

text \<open>
  \<open>json.Marshal(f)\<close>: the text, or the error of \<open>Time.MarshalJSON\<close> or of a number in \<open>Raw\<close>
  that is not finite, the only values of the struct that can be refused.
\<close>

definition marshal_facts :: "ServerFacts \<Rightarrow> string + string" where
  "marshal_facts f =
     (if t_year (sf_ObservedAt f) > 9999
      then Inl ''json: error calling MarshalJSON for type time.Time: Time.MarshalJSON: year outside of range [0,9999]''
      else case bad_numbers (facts_json f) of
        l # _ \<Rightarrow> Inl (''json: unsupported value: '' @ l)
      | [] \<Rightarrow> Inr (print_json (facts_json f)))"

definition dec_time :: "gotime decoder" where
  "dec_time v = (case v of JStr r \<Rightarrow> parse_time r | _ \<Rightarrow> None)"

definition dec_cpu :: "CPUFacts decoder" where
  "dec_cpu v =
     do { kvs \<leftarrow> as_object v;
          a \<leftarrow> field ''vendor'' dec_string [] kvs; b \<leftarrow> field ''model'' dec_string [] kvs;
          c \<leftarrow> field ''sockets'' dec_int 0 kvs; d \<leftarrow> field ''cores'' dec_int 0 kvs;
          e \<leftarrow> field ''threads'' dec_int 0 kvs;
          Some \<lparr>cpu_Vendor = a, cpu_Model = b, cpu_Sockets = c, cpu_Cores = d, cpu_Threads = e\<rparr> }"

definition dec_disk :: "DiskFacts decoder" where
  "dec_disk v =
     do { kvs \<leftarrow> as_object v;
          a \<leftarrow> field ''name'' dec_string [] kvs; b \<leftarrow> field ''type'' dec_string [] kvs;
          c \<leftarrow> field ''size_gb'' dec_int 0 kvs; d \<leftarrow> field ''rotational'' dec_bool False kvs;
          Some \<lparr>disk_Name = a, disk_Type = b, disk_SizeGB = c, disk_Rotational = d\<rparr> }"

definition dec_nic :: "NICFacts decoder" where
  "dec_nic v =
     do { kvs \<leftarrow> as_object v;
          a \<leftarrow> field ''name'' dec_string [] kvs; b \<leftarrow> field ''mac'' dec_string [] kvs;
          c \<leftarrow> field ''speed_gbps'' dec_int 0 kvs; d \<leftarrow> field ''driver'' dec_string [] kvs;
          e \<leftarrow> field ''features'' (dec_slice (or_zero [] dec_string)) [] kvs;
          Some \<lparr>nic_Name = a, nic_MAC = b, nic_SpeedGbps = c, nic_Driver = d, nic_Features = e\<rparr> }"

definition dec_facts :: "ServerFacts decoder" where
  "dec_facts v =
     do { kvs \<leftarrow> as_object v;
          a \<leftarrow> field ''server_id'' dec_string [] kvs; b \<leftarrow> field ''observed_at'' dec_time zero_time kvs;
          c \<leftarrow> field ''source'' dec_string [] kvs; d \<leftarrow> field ''power_state'' dec_string [] kvs;
          e \<leftarrow> field ''provisioning'' dec_string [] kvs; f \<leftarrow> field ''health'' dec_string [] kvs;
          g \<leftarrow> field ''cpu'' dec_cpu zero_cpu kvs; h \<leftarrow> field ''memory_gb'' dec_int 0 kvs;
          i \<leftarrow> field ''disks'' (dec_slice dec_disk) [] kvs; j \<leftarrow> field ''nics'' (dec_slice dec_nic) [] kvs;
          k \<leftarrow> field ''capabilities'' (dec_slice (or_zero [] dec_string)) [] kvs;
          l \<leftarrow> field ''network_modes'' (dec_slice (or_zero [] dec_string)) [] kvs;
          m \<leftarrow> field ''failure_domain'' dec_string [] kvs;
          n \<leftarrow> field ''raw'' (\<lambda>v. map_option Some (dec_map Some v)) None kvs;
          Some \<lparr>sf_ServerID = a, sf_ObservedAt = b, sf_Source = c, sf_PowerState = d, sf_Provisioning = e,
                sf_Health = f, sf_CPU = g, sf_MemoryGB = h, sf_Disks = i, sf_NICs = j, sf_Capabilities = k,
                sf_NetworkModes = l, sf_FailureDomain = m, sf_Raw = n\<rparr> }"

definition unmarshal_facts :: "string \<Rightarrow> ServerFacts option" where
  "unmarshal_facts s = Option.bind (parse_json s) dec_facts"


section \<open>The round trip\<close>

text \<open>Facts whose values all have a faithful JSON form.\<close>

definition cpu_ok :: "CPUFacts \<Rightarrow> bool" where
  "cpu_ok c \<longleftrightarrow> valid_utf8 (cpu_Vendor c) \<and> valid_utf8 (cpu_Model c)
     \<and> in_int64 (cpu_Sockets c) \<and> in_int64 (cpu_Cores c) \<and> in_int64 (cpu_Threads c)"

definition disk_ok :: "DiskFacts \<Rightarrow> bool" where
  "disk_ok d \<longleftrightarrow> valid_utf8 (disk_Name d) \<and> valid_utf8 (disk_Type d) \<and> in_int64 (disk_SizeGB d)"

definition nic_ok :: "NICFacts \<Rightarrow> bool" where
  "nic_ok n \<longleftrightarrow> valid_utf8 (nic_Name n) \<and> valid_utf8 (nic_MAC n) \<and> in_int64 (nic_SpeedGbps n)
     \<and> valid_utf8 (nic_Driver n) \<and> list_all valid_utf8 (nic_Features n)"

definition raw_ok :: "(string, json) gomap \<Rightarrow> bool" where
  "raw_ok m \<longleftrightarrow> distinct (List.map fst m) \<and> list_all (\<lambda>kv. valid_utf8 (fst kv) \<and> json_ok (snd kv)) m"

definition facts_ok :: "ServerFacts \<Rightarrow> bool" where
  "facts_ok f \<longleftrightarrow>
     list_all valid_utf8 [sf_ServerID f, sf_Source f, sf_PowerState f, sf_Provisioning f, sf_Health f, sf_FailureDomain f]
     \<and> valid_time (sf_ObservedAt f) \<and> cpu_ok (sf_CPU f) \<and> in_int64 (sf_MemoryGB f)
     \<and> list_all disk_ok (sf_Disks f) \<and> list_all nic_ok (sf_NICs f)
     \<and> list_all valid_utf8 (sf_Capabilities f) \<and> list_all valid_utf8 (sf_NetworkModes f)
     \<and> (case sf_Raw f of None \<Rightarrow> True | Some m \<Rightarrow> raw_ok m)"

text \<open>What the round trip changes: an empty \<open>Raw\<close> map comes back as nil, its keys sorted.\<close>

definition normal_raw :: "ServerFacts \<Rightarrow> ServerFacts" where
  "normal_raw f =
     f\<lparr>sf_Raw := (case sf_Raw f of
        None \<Rightarrow> None | Some m \<Rightarrow> if m = [] then None else Some (sort_key fst m))\<rparr>"

lemma dec_slice_enc:
  assumes "\<And>x. x \<in> set xs \<Longrightarrow> dec (enc x) = Some x"
  shows "enc_slice enc xs = JNull \<and> xs = [] \<or> enc_slice enc xs \<noteq> JNull \<and> dec_slice dec (enc_slice enc xs) = Some xs"
  using assms dec_all_map [of xs dec enc] by (auto simp: enc_slice_def dec_slice_def as_array_def)

lemma field_slice:
  assumes "\<And>x. x \<in> set xs \<Longrightarrow> dec (enc x) = Some x"
  shows "(if enc_slice enc xs = JNull then Some [] else dec_slice dec (enc_slice enc xs)) = Some xs"
  using dec_slice_enc [of xs dec enc] assms by auto

lemma enc_simps [simp]:
  "jstr s \<noteq> JNull" "jint n \<noteq> JNull" "cpu_json c \<noteq> JNull" "disk_json d \<noteq> JNull" "nic_json n' \<noteq> JNull"
  "raw_json m \<noteq> JNull"
  by (simp_all add: jstr_def jint_def cpu_json_def disk_json_def nic_json_def raw_json_def)

lemma json_names:
  "list_all json_name
     [''server_id'', ''observed_at'', ''source'', ''power_state'', ''provisioning'', ''health'', ''cpu'',
      ''memory_gb'', ''disks'', ''nics'', ''capabilities'', ''network_modes'', ''failure_domain'', ''raw'',
      ''vendor'', ''model'', ''sockets'', ''cores'', ''threads'', ''name'', ''type'', ''size_gb'', ''rotational'',
      ''mac'', ''speed_gbps'', ''driver'', ''features'']"
  by code_simp

lemmas json_name_facts = json_names [unfolded list.pred_inject]

lemma dec_strings:
  assumes "list_all valid_utf8 xs"
  shows "(if enc_slice jstr xs = JNull then Some [] else dec_slice (or_zero [] dec_string) (enc_slice jstr xs)) = Some xs"
  using assms by (intro field_slice) (auto simp: or_zero_def list_all_iff dec_string_jstr)

lemma dec_cpu_json: "cpu_ok c \<Longrightarrow> dec_cpu (cpu_json c) = Some c"
  using json_name_facts
  by (simp add: dec_cpu_def cpu_json_def as_object_def field_lookup names_ok_def cpu_ok_def
      dec_string_jstr dec_int_jint)

lemma dec_disk_json: "disk_ok d \<Longrightarrow> dec_disk (disk_json d) = Some d"
  using json_name_facts
  by (simp add: dec_disk_def disk_json_def as_object_def field_lookup names_ok_def disk_ok_def
      dec_string_jstr dec_int_jint dec_bool_def)

lemma dec_nic_json: "nic_ok n \<Longrightarrow> dec_nic (nic_json n) = Some n"
  using json_name_facts
  by (simp add: dec_nic_def nic_json_def as_object_def field_lookup names_ok_def nic_ok_def
      dec_string_jstr dec_int_jint dec_strings)

lemma update_new: "k \<notin> fst ` set m \<Longrightarrow> AList.update k v m = m @ [(k, v)]"
  by (induction m) auto

lemma dec_entries_new:
  assumes "distinct (List.map fst (m @ kvs))" and "list_all valid_utf8 (List.map fst kvs)"
  shows "dec_entries Some (List.map (\<lambda>(k, v). (quote k, v)) kvs) m = Some (m @ kvs)"
  using assms
proof (induction kvs arbitrary: m)
  case (Cons kv kvs)
  obtain k v where kv: "kv = (k, v)" by fastforce
  have "AList.update k v m = m @ [(k, v)]"
    using Cons.prems by (intro update_new) (auto simp: kv)
  moreover have "dec_entries Some (List.map (\<lambda>(k, v). (quote k, v)) kvs) (m @ [(k, v)]) = Some ((m @ [(k, v)]) @ kvs)"
    using Cons.prems by (intro Cons.IH) (auto simp: kv)
  ultimately show ?case
    using Cons.prems by (simp add: kv unquote_quote)
qed simp

lemma dec_raw_json:
  assumes "raw_ok m"
  shows "dec_map Some (raw_json m) = Some (sort_key fst m)"
proof -
  have "set (List.map fst (sort_key fst m)) = set (List.map fst m)"
    by simp
  moreover have "distinct (List.map fst (sort_key fst m))"
    using assms
    by (metis distinct_map mset_eq_imp_distinct_iff mset_map mset_sort raw_ok_def)
  ultimately have "dec_entries Some (List.map (\<lambda>(k, v). (quote k, v)) (sort_key fst m)) [] = Some ([] @ sort_key fst m)"
    using assms by (intro dec_entries_new) (auto simp: raw_ok_def list_all_iff)
  then show ?thesis
    by (simp add: dec_map_def raw_json_def as_object_def)
qed

lemma dec_slices:
  "list_all disk_ok ds \<Longrightarrow>
     (if enc_slice disk_json ds = JNull then Some [] else dec_slice dec_disk (enc_slice disk_json ds)) = Some ds"
  "list_all nic_ok ns \<Longrightarrow>
     (if enc_slice nic_json ns = JNull then Some [] else dec_slice dec_nic (enc_slice nic_json ns)) = Some ns"
  by (rule field_slice, simp add: list_all_iff dec_disk_json) (rule field_slice, simp add: list_all_iff dec_nic_json)

lemma dec_facts_json:
  assumes "facts_ok f"
  shows "dec_facts (facts_json f) = Some (normal_raw f)"
proof -
  have t: "dec_time (JStr (format_time (sf_ObservedAt f))) = Some (sf_ObservedAt f)"
    using assms by (simp add: dec_time_def parse_format_time facts_ok_def)
  show ?thesis
  proof (cases "sf_Raw f = None \<or> sf_Raw f = Some []")
    case True
    then show ?thesis
      using assms json_name_facts t
      by (auto simp: dec_facts_def facts_json_def as_object_def field_lookup names_ok_def facts_ok_def
          dec_string_jstr dec_int_jint dec_strings dec_slices dec_cpu_json normal_raw_def)
  next
    case False
    then obtain m where m: "sf_Raw f = Some m" "m \<noteq> []" by auto
    then show ?thesis
      using assms json_name_facts t
      by (simp add: dec_facts_def facts_json_def as_object_def field_lookup names_ok_def facts_ok_def
          dec_string_jstr dec_int_jint dec_strings dec_slices dec_cpu_json normal_raw_def dec_raw_json)
  qed
qed

text \<open>The document of facts that are well formed is itself a well-formed JSON text.\<close>

definition bare_chars :: string where
  "bare_chars = name_chars @ ''-:.TZ''"

lemma bare_char_facts:
  assumes "c \<in> set bare_chars"
  shows "byte_in 0 0x7F c \<and> quote_byte c = [c]"
proof -
  have "list_all (\<lambda>c. byte_in 0 0x7F c \<and> quote_byte c = [c]) bare_chars"
    by code_simp
  with assms show ?thesis by (auto simp: list_all_iff)
qed

lemma quote_bare: "list_all (\<lambda>c. c \<in> set bare_chars) s \<Longrightarrow> quote s = s"
proof (induction s)
  case (Cons c s)
  then have "c \<in> set bare_chars" and "quote s = s"
    by simp_all
  with bare_char_facts [of c] show ?case
    by (simp add: quote.simps(2) utf8_len_ascii Let_def)
qed simp

lemma valid_utf8_append: "valid_utf8 s \<Longrightarrow> valid_utf8 t \<Longrightarrow> valid_utf8 (s @ t)"
proof (induction s rule: valid_utf8.induct)
  case (1 s)
  show ?case
  proof (cases "s = []")
    case False
    define n where "n = utf8_len s"
    have n: "n \<noteq> 0" "valid_utf8 (drop n s)"
      using 1(2) False by (auto simp: n_def valid_utf8.simps [of s] split: if_splits)
    have le: "n \<le> length s"
      by (simp add: n_def utf8_len_le)
    have "utf8_len (take n s @ (drop n s @ t)) = n"
      by (rule utf8_len_take) (simp_all add: n_def [symmetric] n)
    then have len: "utf8_len (s @ t) = n"
      by (metis append_assoc append_take_drop_id)
    have "valid_utf8 (drop n s @ t)"
      using 1 False n by (simp add: n_def)
    then show ?thesis
      using le n False by (simp add: valid_utf8.simps [of "s @ t"] len)
  qed (use 1 in simp)
qed

lemma valid_utf8_Nil [simp]: "valid_utf8 []"
  by (simp add: valid_utf8.simps)

lemma valid_utf8_bare: "list_all (\<lambda>c. c \<in> set bare_chars) s \<Longrightarrow> valid_utf8 s"
proof (induction s)
  case (Cons c s)
  then have "utf8_len (c # s) = 1"
    using bare_char_facts [of c] by (simp add: utf8_len_ascii)
  with Cons show ?case
    by (simp add: valid_utf8.simps [of "c # s"])
qed simp

lemma str_ok_bare: "list_all (\<lambda>c. c \<in> set bare_chars) s \<Longrightarrow> str_ok s"
  using str_ok_quote [of s] by (simp add: quote_bare)

lemma str_ok_name: "json_name s \<Longrightarrow> str_ok s"
  by (rule str_ok_bare) (auto simp: json_name_def bare_chars_def list_all_iff)

lemma digit_bare: "is_digit c \<Longrightarrow> c \<in> set bare_chars"
  by (auto simp: is_digit_def bare_chars_def name_chars_def)

lemma pad_bare: "list_all (\<lambda>c. c \<in> set bare_chars) (pad w n)"
  using pad_digits [of w n] digit_bare by (auto simp: list_all_iff)

lemma frac_bare: "list_all (\<lambda>c. c \<in> set bare_chars) (frac n)"
proof -
  obtain k where "pad 9 n = strip_zeros (pad 9 n) @ replicate k (CHR ''0'')"
    using strip_zeros_decomp by blast
  then have "set (strip_zeros (pad 9 n)) \<subseteq> set (pad 9 n)"
    by (metis set_append Un_upper1)
  then show ?thesis
    using pad_bare [of 9 n] by (auto simp: frac_def list_all_iff bare_chars_def)
qed

lemma str_ok_time: "str_ok (format_time t)"
proof -
  have "list_all (\<lambda>c. c \<in> set bare_chars) ''-:TZ''"
    by code_simp
  then show ?thesis
    using pad_bare frac_bare by (intro str_ok_bare) (auto simp: format_time_def list_all_iff)
qed

lemma json_ok_slice: "(\<And>x. x \<in> set xs \<Longrightarrow> json_ok (enc x)) \<Longrightarrow> json_ok (enc_slice enc xs)"
  by (simp add: enc_slice_def list_all_iff)

lemma json_ok_parts:
  "json_ok (cpu_json c)" "json_ok (disk_json d)" "json_ok (nic_json n)"
  using json_name_facts
  by (simp_all add: cpu_json_def disk_json_def nic_json_def str_ok_name json_ok_slice)

lemma json_ok_raw: "raw_ok m \<Longrightarrow> json_ok (raw_json m)"
  by (auto simp: raw_json_def raw_ok_def list_all_iff str_ok_quote)

lemma json_ok_facts: "facts_ok f \<Longrightarrow> json_ok (facts_json f)"
  using json_name_facts
  by (auto simp: facts_json_def facts_ok_def str_ok_name str_ok_time json_ok_parts json_ok_slice json_ok_raw
      split: option.splits)

lemma marshal_ok: "facts_ok f \<Longrightarrow> marshal_facts f = Inr (print_json (facts_json f))"
  using json_ok_numbers [OF json_ok_facts] by (simp add: marshal_facts_def facts_ok_def valid_time_def)

lemma unmarshal_print: "facts_ok f \<Longrightarrow> unmarshal_facts (print_json (facts_json f)) = Some (normal_raw f)"
  by (simp add: unmarshal_facts_def parse_print json_ok_facts dec_facts_json)


definition roundtrip_sample :: ServerFacts where
  "roundtrip_sample = zero_facts\<lparr>sf_ServerID := ''srv-1'', sf_ObservedAt := GoTime 2024 2 29 23 59 59 120000000,
     sf_MemoryGB := -5, sf_Disks := [\<lparr>disk_Name = ''nvme0n1'', disk_Type = ''nvme'', disk_SizeGB = 960, disk_Rotational = False\<rparr>],
     sf_Capabilities := [[CHR 0x22, CHR 0xC3, CHR 0xA9]],
     sf_Raw := Some [(''b'', JArr [JNull, JNum ''1.5e3'']), (''a'', JObj [(''x'', JBool True)])]\<rparr>"


end
