(* ===== verification/Store.thy ===== *)
theory Store
  imports Facts_Json
begin

text \<open>
  \<open>store/store.go\<close>, \<open>store/list.go\<close> and \<open>store/provisioning.go\<close>: the two SQLite tables, the
  statements of the three files as relational operations on them, and the operations of
  \<open>SQLiteStore\<close> and \<open>SQLiteProvisioningStore\<close>. The driver is a parameter: it can fail any
  statement, or the iteration over the rows of a query, and it decides between equally recent
  rows. Instants are compared as such: the driver writes them in a text form whose order is
  theirs for the years 0 to 9999, and \<open>SaveFacts\<close> refuses others.
\<close>


section \<open>Tables\<close>

record facts_row =
  row_id :: nat
  row_server :: string
  row_observed :: gotime
  row_data :: string

record prov_row =
  prov_server :: string
  prov_state :: string
  prov_domain :: string
  prov_updated :: gotime

text \<open>A table that has not been created is \<open>None\<close>; \<open>db_seq\<close> is the last id AUTOINCREMENT gave out.\<close>

record database =
  db_facts :: "facts_row list option"
  db_seq :: nat
  db_prov :: "prov_row list option"

definition empty_db :: database where
  "empty_db = \<lparr>db_facts = None, db_seq = 0, db_prov = None\<rparr>"

text \<open>
  What the driver and \<open>encoding/json\<close> do that the program does not decide: whether the
  statement fails, or its rows stop early; which of equally recent rows comes first; the text
  of a decoding error.
\<close>

datatype fault = StatementFault string | RowFault nat string

record driver =
  drv_fault :: "fault option"
  drv_tie :: nat
  drv_json_error :: "string \<Rightarrow> string"

definition exec_fault :: "driver \<Rightarrow> string option" where
  "exec_fault d = (case drv_fault d of Some (StatementFault m) \<Rightarrow> Some m | _ \<Rightarrow> None)"

text \<open>Iterating over rows: those seen before \<open>rows.Next\<close> is false, and \<open>rows.Err\<close>.\<close>

definition fetch :: "driver \<Rightarrow> 'a list \<Rightarrow> 'a list \<times> string option" where
  "fetch d rows =
     (case drv_fault d of
        Some (RowFault n m) \<Rightarrow> if n \<le> length rows then (take n rows, Some m) else (rows, None)
      | _ \<Rightarrow> (rows, None))"

definition no_table :: "string \<Rightarrow> string" where
  "no_table t = ''no such table: '' @ t"

definition facts_table :: "driver \<Rightarrow> database \<Rightarrow> string + facts_row list" where
  "facts_table d db =
     (case exec_fault d of
        Some m \<Rightarrow> Inl m
      | None \<Rightarrow> (case db_facts db of None \<Rightarrow> Inl (no_table ''server_facts'') | Some rows \<Rightarrow> Inr rows))"

definition prov_table :: "driver \<Rightarrow> database \<Rightarrow> string + prov_row list" where
  "prov_table d db =
     (case exec_fault d of
        Some m \<Rightarrow> Inl m
      | None \<Rightarrow> (case db_prov db of None \<Rightarrow> Inl (no_table ''provisioning_state'') | Some rows \<Rightarrow> Inr rows))"


section \<open>SQLiteStore\<close>

text \<open>
  \<open>Open\<close> gives access to the database the file at a path holds; \<open>sql.Open\<close> or the ping that makes
  the first connection can fail.
\<close>

datatype open_fault = OpenFault string | PingFault string

definition Open :: "open_fault option \<Rightarrow> string \<Rightarrow> database \<Rightarrow> string + database" where
  "Open flt path db =
     (case flt of
        Some (OpenFault e) \<Rightarrow> Inl (''store: opening '' @ path @ '': '' @ e)
      | Some (PingFault e) \<Rightarrow> Inl (''store: connecting to '' @ path @ '': '' @ e)
      | None \<Rightarrow> Inr db)"

text \<open>\<open>CREATE TABLE IF NOT EXISTS server_facts\<close>.\<close>

definition NewSQLiteStore :: "driver \<Rightarrow> database \<Rightarrow> database \<times> string option" where
  "NewSQLiteStore d db =
     (case exec_fault d of
        Some m \<Rightarrow> (db, Some (''store: creating server_facts schema: '' @ m))
      | None \<Rightarrow> (db\<lparr>db_facts := Some (case db_facts db of None \<Rightarrow> [] | Some rows \<Rightarrow> rows)\<rparr>, None))"

text \<open>\<open>INSERT INTO server_facts\<close> with the next id.\<close>

definition insert_row :: "string \<Rightarrow> gotime \<Rightarrow> string \<Rightarrow> facts_row list \<Rightarrow> database \<Rightarrow> database" where
  "insert_row sid t data rows db =
     db\<lparr>db_facts := Some (rows @ [\<lparr>row_id = Suc (db_seq db), row_server = sid, row_observed = t, row_data = data\<rparr>]),
        db_seq := Suc (db_seq db)\<rparr>"

definition SaveFacts :: "driver \<Rightarrow> gotime \<Rightarrow> database \<Rightarrow> ServerFacts option \<Rightarrow> database \<times> string option" where
  "SaveFacts d now db fo =
     (case fo of
        None \<Rightarrow> (db, Some ''store: SaveFacts called with nil facts'')
      | Some f \<Rightarrow>
          if sf_ServerID f = [] then (db, Some ''store: SaveFacts called with empty ServerID'')
          else case marshal_facts f of
            Inl e \<Rightarrow> (db, Some (''store: marshaling facts for '' @ sf_ServerID f @ '': '' @ e))
          | Inr data \<Rightarrow>
              let observedAt = (if IsZero (sf_ObservedAt f) then now else sf_ObservedAt f)
              in case facts_table d db of
                   Inl e \<Rightarrow> (db, Some (''store: saving facts for '' @ sf_ServerID f @ '': '' @ e))
                 | Inr rows \<Rightarrow> (insert_row (sf_ServerID f) observedAt data rows db, None))"

text \<open>
  \<open>WHERE server_id = ? ORDER BY observed_at DESC LIMIT 1\<close>: one of the rows of the server that no
  other row of the server is more recent than.
\<close>

definition server_rows :: "string \<Rightarrow> facts_row list \<Rightarrow> facts_row list" where
  "server_rows sid rows = filter (\<lambda>r. row_server r = sid) rows"

definition most_recent :: "facts_row list \<Rightarrow> facts_row list" where
  "most_recent rows = filter (\<lambda>r. list_all (\<lambda>q. row_observed q \<le> row_observed r) rows) rows"

definition query_latest :: "driver \<Rightarrow> string \<Rightarrow> facts_row list \<Rightarrow> string list" where
  "query_latest d sid rows =
     (let best = most_recent (server_rows sid rows)
      in if best = [] then [] else [row_data (best ! (drv_tie d mod length best))])"

definition GetLatestFacts :: "driver \<Rightarrow> database \<Rightarrow> string \<Rightarrow> string + ServerFacts" where
  "GetLatestFacts d db serverID =
     (case facts_table d db of
        Inl e \<Rightarrow> Inl (''store: querying facts for '' @ serverID @ '': '' @ e)
      | Inr rows \<Rightarrow>
          (case fetch d (query_latest d serverID rows) of
             ([], None) \<Rightarrow> Inl (''store: no facts on record for server '' @ serverID)
           | ([], Some e) \<Rightarrow> Inl (''store: querying facts for '' @ serverID @ '': '' @ e)
           | (data # _, _) \<Rightarrow>
               (case unmarshal_facts data of
                  None \<Rightarrow> Inl (''store: decoding facts for '' @ serverID @ '': '' @ drv_json_error d data)
                | Some f \<Rightarrow> Inr f)))"

text \<open>\<open>SELECT DISTINCT server_id ... ORDER BY server_id\<close>; SQLite compares text bytewise.\<close>

definition ListServerIDs :: "driver \<Rightarrow> database \<Rightarrow> string list \<times> string option" where
  "ListServerIDs d db =
     (case facts_table d db of
        Inl e \<Rightarrow> ([], Some (''store: listing server ids: '' @ e))
      | Inr rows \<Rightarrow> fetch d (sort_Strings (remdups (map row_server rows))))"

definition max_id :: "string \<Rightarrow> facts_row list \<Rightarrow> nat" where
  "max_id sid rows = foldl (\<lambda>m r. max m (row_id r)) 0 (server_rows sid rows)"

definition query_all_latest :: "facts_row list \<Rightarrow> string list" where
  "query_all_latest rows =
     (let groups = map (\<lambda>sid. max_id sid rows) (remdups (map row_server rows))
      in map row_data (sort_key row_server (filter (\<lambda>r. row_id r \<in> set groups) rows)))"

fun decode_all :: "driver \<Rightarrow> string list \<Rightarrow> ServerFacts list \<Rightarrow> string + ServerFacts list" where
  "decode_all d [] acc = Inr acc"
| "decode_all d (data # rest) acc =
     (case unmarshal_facts data of
        None \<Rightarrow> Inl (''store: decoding fleet facts: '' @ drv_json_error d data)
      | Some f \<Rightarrow> decode_all d rest (acc @ [f]))"

definition GetAllLatestFacts :: "driver \<Rightarrow> database \<Rightarrow> ServerFacts list \<times> string option" where
  "GetAllLatestFacts d db =
     (case facts_table d db of
        Inl e \<Rightarrow> ([], Some (''store: querying latest fleet facts: '' @ e))
      | Inr rows \<Rightarrow>
          (case fetch d (query_all_latest rows) of
             (datas, err) \<Rightarrow>
               (case decode_all d datas [] of
                  Inl e \<Rightarrow> ([], Some e)
                | Inr fs \<Rightarrow> (fs, err))))"


section \<open>SQLiteProvisioningStore\<close>

definition NewSQLiteProvisioningStore :: "driver \<Rightarrow> database \<Rightarrow> database \<times> string option" where
  "NewSQLiteProvisioningStore d db =
     (case exec_fault d of
        Some m \<Rightarrow> (db, Some (''store: creating provisioning_state schema: '' @ m))
      | None \<Rightarrow> (db\<lparr>db_prov := Some (case db_prov db of None \<Rightarrow> [] | Some rows \<Rightarrow> rows)\<rparr>, None))"

definition GetProvisioning :: "driver \<Rightarrow> database \<Rightarrow> string \<Rightarrow> string + string \<times> string" where
  "GetProvisioning d db serverID =
     (case prov_table d db of
        Inl e \<Rightarrow> Inl (''store: querying provisioning state for '' @ serverID @ '': '' @ e)
      | Inr rows \<Rightarrow>
          (case fetch d (filter (\<lambda>r. prov_server r = serverID) rows) of
             ([], None) \<Rightarrow> Inl (''store: no provisioning record for server '' @ serverID)
           | ([], Some e) \<Rightarrow> Inl (''store: querying provisioning state for '' @ serverID @ '': '' @ e)
           | (r # _, _) \<Rightarrow> Inr (prov_state r, prov_domain r)))"

text \<open>\<open>INSERT ... ON CONFLICT(server_id) DO UPDATE SET ...\<close>.\<close>

fun upsert :: "prov_row \<Rightarrow> prov_row list \<Rightarrow> prov_row list" where
  "upsert new [] = [new]"
| "upsert new (r # rs) =
     (if prov_server r = prov_server new
      then r\<lparr>prov_state := prov_state new, prov_domain := prov_domain new, prov_updated := prov_updated new\<rparr> # rs
      else r # upsert new rs)"

definition SetProvisioning ::
  "driver \<Rightarrow> gotime \<Rightarrow> database \<Rightarrow> string \<Rightarrow> string \<Rightarrow> string \<Rightarrow> database \<times> string option" where
  "SetProvisioning d now db serverID state domain =
     (if serverID = [] then (db, Some ''store: SetProvisioning called with empty serverID'')
      else case prov_table d db of
        Inl e \<Rightarrow> (db, Some (''store: saving provisioning state for '' @ serverID @ '': '' @ e))
      | Inr rows \<Rightarrow>
          (db\<lparr>db_prov := Some (upsert \<lparr>prov_server = serverID, prov_state = state,
                                       prov_domain = domain, prov_updated = now\<rparr> rows)\<rparr>, None))"


section \<open>Queries\<close>

definition faultless :: "driver \<Rightarrow> bool" where
  "faultless d \<longleftrightarrow> drv_fault d = None"

lemma faultless_simps [simp]:
  assumes "faultless d"
  shows "exec_fault d = None" "fetch d rows = (rows, None)"
  using assms by (simp_all add: faultless_def exec_fault_def fetch_def)

text \<open>
  The invariant of the database: ids ascend and were given out by the sequence, every row belongs
  to a named server and its document decodes, and no server has two provisioning records.
\<close>

definition rows_ok :: "nat \<Rightarrow> facts_row list \<Rightarrow> bool" where
  "rows_ok seq rows \<longleftrightarrow>
     sorted_wrt (<) (map row_id rows)
     \<and> list_all (\<lambda>r. 0 < row_id r \<and> row_id r \<le> seq \<and> row_server r \<noteq> [] \<and> unmarshal_facts (row_data r) \<noteq> None) rows"

definition db_rows :: "database \<Rightarrow> facts_row list" where
  "db_rows db = (case db_facts db of None \<Rightarrow> [] | Some rows \<Rightarrow> rows)"

definition db_ok :: "database \<Rightarrow> bool" where
  "db_ok db \<longleftrightarrow> rows_ok (db_seq db) (db_rows db)
     \<and> distinct (map prov_server (case db_prov db of None \<Rightarrow> [] | Some rows \<Rightarrow> rows))"

text \<open>What the store holds for a server: the facts saved for it, oldest first.\<close>

definition row_facts :: "facts_row \<Rightarrow> ServerFacts" where
  "row_facts r = (case unmarshal_facts (row_data r) of None \<Rightarrow> zero_facts | Some f \<Rightarrow> f)"

definition history :: "database \<Rightarrow> string \<Rightarrow> ServerFacts list" where
  "history db sid = map row_facts (server_rows sid (db_rows db))"

lemma server_rows_simps [simp]:
  "server_rows sid [] = []"
  "server_rows sid (rows @ rows') = server_rows sid rows @ server_rows sid rows'"
  "server_rows sid (r # rows) = (if row_server r = sid then r # server_rows sid rows else server_rows sid rows)"
  by (simp_all add: server_rows_def)

lemma in_server_rows [simp]: "r \<in> set (server_rows sid rows) \<longleftrightarrow> r \<in> set rows \<and> row_server r = sid"
  by (auto simp: server_rows_def)

lemma foldl_max_id:
  "sorted_wrt (<) (map row_id rows) \<Longrightarrow> \<forall>r\<in>set rows. m < row_id r \<Longrightarrow>
     foldl (\<lambda>m r. max m (row_id r)) m rows = (if rows = [] then m else row_id (last rows))"
proof (induction rows arbitrary: m)
  case (Cons r rows)
  then show ?case by (cases rows) (auto simp: max_def)
qed simp

lemma max_id_last:
  assumes "rows_ok seq rows" and "server_rows sid rows \<noteq> []"
  shows "max_id sid rows = row_id (last (server_rows sid rows))"
proof -
  have "sorted_wrt (<) (map row_id (server_rows sid rows))"
    using assms(1) unfolding rows_ok_def server_rows_def
    by (simp add: sorted_wrt_map sorted_wrt_filter)
  moreover have "\<forall>r\<in>set (server_rows sid rows). 0 < row_id r"
    using assms(1) by (simp add: rows_ok_def list_all_iff)
  ultimately show ?thesis
    using assms(2) by (simp add: max_id_def foldl_max_id)
qed

lemma row_id_inj: "rows_ok seq rows \<Longrightarrow> inj_on row_id (set rows)"
  by (metis distinct_map rows_ok_def strict_sorted_iff)

lemma last_server_row:
  assumes "r \<in> set rows"
  shows "last (server_rows (row_server r) rows) \<in> set rows
    \<and> row_server (last (server_rows (row_server r) rows)) = row_server r"
proof -
  have "server_rows (row_server r) rows \<noteq> []"
    using assms in_server_rows [of r "row_server r" rows] by force
  from last_in_set [OF this] show ?thesis by simp
qed

lemma group_maximum:
  assumes "rows_ok seq rows" and "r \<in> set rows"
  shows "row_id r \<in> set (map (\<lambda>sid. max_id sid rows) (remdups (map row_server rows)))
    \<longleftrightarrow> r = last (server_rows (row_server r) rows)"
proof -
  have max: "max_id (row_server q) rows = row_id (last (server_rows (row_server q) rows))" if "q \<in> set rows" for q
    using max_id_last [OF assms(1)] last_server_row [OF that] that
    by (metis empty_iff in_server_rows list.set(1))
  have "row_id r \<in> set (map (\<lambda>sid. max_id sid rows) (remdups (map row_server rows)))
      \<longleftrightarrow> (\<exists>q\<in>set rows. row_id r = row_id (last (server_rows (row_server q) rows)))"
    using max by (auto simp: image_iff)
  also have "\<dots> \<longleftrightarrow> (\<exists>q\<in>set rows. r = last (server_rows (row_server q) rows))"
    using row_id_inj [OF assms(1)] assms(2) last_server_row by (metis inj_onD)
  also have "\<dots> \<longleftrightarrow> r = last (server_rows (row_server r) rows)"
    using assms(2) last_server_row by metis
  finally show ?thesis .
qed

lemma map_sort_key: "map f (sort_key f xs) = sort (map f xs)"
  by (rule properties_for_sort [symmetric]) simp_all

lemma query_all_latest_eq:
  assumes "rows_ok seq rows"
  shows "query_all_latest rows =
    map (\<lambda>sid. row_data (last (server_rows sid rows))) (sort_Strings (remdups (map row_server rows)))"
proof -
  define L where "L = filter (\<lambda>r. r = last (server_rows (row_server r) rows)) rows"
  have "filter (\<lambda>r. row_id r \<in> set (map (\<lambda>sid. max_id sid rows) (remdups (map row_server rows)))) rows = L"
    unfolding L_def using group_maximum [OF assms] by (rule filter_cong [OF refl])
  then have "query_all_latest rows = map row_data (sort_key row_server L)"
    by (simp add: query_all_latest_def Let_def)
  also have "\<dots> = map (\<lambda>sid. row_data (last (server_rows sid rows))) (map row_server (sort_key row_server L))"
    by (auto simp: L_def)
  also have "map row_server (sort_key row_server L) = sort (remdups (map row_server rows))"
  proof (rule sorted_distinct_set_unique)
    show "distinct (map row_server (sort_key row_server L))"
    proof -
      have "inj_on row_server (set L)"
        by (rule inj_onI) (metis (mono_tags, lifting) L_def mem_Collect_eq set_filter)
      moreover have "distinct L"
        using assms unfolding L_def rows_ok_def by (metis distinct_filter distinct_map strict_sorted_iff)
      ultimately have "distinct (map row_server L)"
        by (simp add: distinct_map)
      then show ?thesis
        by (simp add: map_sort_key)
    qed
    show "set (map row_server (sort_key row_server L)) = set (sort (remdups (map row_server rows)))"
    proof -
      have "row_server r \<in> row_server ` set L" if "r \<in> set rows" for r
        using last_server_row [OF that]
        by (intro image_eqI [of _ _ "last (server_rows (row_server r) rows)"]) (auto simp: L_def)
      then show ?thesis by (auto simp: L_def)
    qed
  qed (simp_all add: map_sort_key)
  finally show ?thesis
    by (simp add: sort_Strings_def)
qed


section \<open>The operations on well-formed databases\<close>

text \<open>Facts that a store accepts: an id, and values with a faithful document.\<close>

definition storable :: "ServerFacts \<Rightarrow> bool" where
  "storable f \<longleftrightarrow> facts_ok f \<and> sf_ServerID f \<noteq> []"

definition stamp :: "gotime \<Rightarrow> ServerFacts \<Rightarrow> gotime" where
  "stamp now f = (if IsZero (sf_ObservedAt f) then now else sf_ObservedAt f)"

definition new_row :: "database \<Rightarrow> gotime \<Rightarrow> ServerFacts \<Rightarrow> facts_row" where
  "new_row db now f =
     \<lparr>row_id = Suc (db_seq db), row_server = sf_ServerID f, row_observed = stamp now f,
      row_data = print_json (facts_json f)\<rparr>"

definition has_facts_table :: "database \<Rightarrow> bool" where
  "has_facts_table db \<longleftrightarrow> db_facts db \<noteq> None"

lemma facts_table_Inr: "facts_table d db = Inr rows \<Longrightarrow> rows = db_rows db \<and> has_facts_table db"
  by (auto simp: facts_table_def db_rows_def has_facts_table_def split: option.splits)

lemma SaveFacts_storable:
  assumes "storable f" and "faultless d" and "has_facts_table db"
  shows "SaveFacts d now db (Some f) =
    (db\<lparr>db_facts := Some (db_rows db @ [new_row db now f]), db_seq := Suc (db_seq db)\<rparr>, None)"
  using assms
  by (auto simp: SaveFacts_def storable_def marshal_ok facts_table_def insert_row_def new_row_def
      stamp_def db_rows_def has_facts_table_def)

lemma SaveFacts_cases:
  assumes "storable f"
  obtains "snd (SaveFacts d now db (Some f)) \<noteq> None" and "fst (SaveFacts d now db (Some f)) = db"
  | "SaveFacts d now db (Some f) =
      (db\<lparr>db_facts := Some (db_rows db @ [new_row db now f]), db_seq := Suc (db_seq db)\<rparr>, None)"
    and "has_facts_table db"
proof (cases "facts_table d db")
  case (Inl e)
  with assms have "SaveFacts d now db (Some f) = (db, Some (''store: saving facts for '' @ sf_ServerID f @ '': '' @ e))"
    by (simp add: SaveFacts_def storable_def marshal_ok)
  then show ?thesis by (intro that(1)) simp_all
next
  case (Inr rows)
  with assms facts_table_Inr [OF Inr] show ?thesis
    by (intro that(2)) (simp_all add: SaveFacts_def storable_def marshal_ok insert_row_def new_row_def stamp_def Let_def)
qed

lemma new_row_simps [simp]:
  "row_id (new_row db now f) = Suc (db_seq db)" "row_server (new_row db now f) = sf_ServerID f"
  "row_observed (new_row db now f) = stamp now f" "row_data (new_row db now f) = print_json (facts_json f)"
  by (simp_all add: new_row_def)

lemma row_facts_new: "storable f \<Longrightarrow> row_facts (new_row db now f) = normal_raw f"
  by (simp add: row_facts_def storable_def unmarshal_print)

lemma rows_ok_snoc:
  assumes "rows_ok (db_seq db) (db_rows db)" and "storable f"
  shows "rows_ok (Suc (db_seq db)) (db_rows db @ [new_row db now f])"
  using assms by (auto simp: rows_ok_def sorted_wrt_append list_all_iff storable_def unmarshal_print less_Suc_eq_le)

lemma save_keeps_ok:
  assumes "db_ok db" and "storable f"
  shows "db_ok (fst (SaveFacts d now db (Some f)))"
proof (cases rule: SaveFacts_cases [OF assms(2), of d now db])
  case 2
  with assms rows_ok_snoc [of db f now] show ?thesis
    by (simp add: db_ok_def db_rows_def)
qed (use assms in simp)

lemma save_history:
  assumes "storable f" and "snd (SaveFacts d now db (Some f)) = None"
  shows "history (fst (SaveFacts d now db (Some f))) sid =
    history db sid @ (if sid = sf_ServerID f then [normal_raw f] else [])"
proof (cases rule: SaveFacts_cases [OF assms(1), of d now db])
  case 2
  then show ?thesis
    using assms by (simp add: history_def db_rows_def [of "db\<lparr>db_facts := _, db_seq := _\<rparr>"] row_facts_new)
qed (use assms in simp)

lemma save_rows:
  assumes "storable f" and "snd (SaveFacts d now db (Some f)) = None"
  shows "db_rows (fst (SaveFacts d now db (Some f))) = db_rows db @ [new_row db now f]"
  using assms by (cases rule: SaveFacts_cases [OF assms(1), of d now db]) (simp_all add: db_rows_def)

lemma decode_all_rows:
  "list_all (\<lambda>s. unmarshal_facts s \<noteq> None) ss \<Longrightarrow>
     decode_all d ss acc = Inr (acc @ map (\<lambda>s. the (unmarshal_facts s)) ss)"
  by (induction ss arbitrary: acc) auto

lemma row_decodes:
  assumes "rows_ok seq rows" and "r \<in> set rows"
  shows "unmarshal_facts (row_data r) = Some (row_facts r)"
  using assms by (auto simp: rows_ok_def list_all_iff row_facts_def split: option.splits)

lemma facts_table_present:
  "faultless d \<Longrightarrow> has_facts_table db \<Longrightarrow> facts_table d db = Inr (db_rows db)"
  by (auto simp: facts_table_def has_facts_table_def db_rows_def)

lemma ids_eq:
  assumes "faultless d" and "has_facts_table db"
  shows "ListServerIDs d db = (sort_Strings (remdups (map row_server (db_rows db))), None)"
  using assms by (simp add: ListServerIDs_def facts_table_present)

lemma history_Nil_iff: "history db sid = [] \<longleftrightarrow> sid \<notin> row_server ` set (db_rows db)"
  by (force simp: history_def server_rows_def filter_empty_conv)

lemma all_latest_eq:
  assumes "db_ok db" and "faultless d" and "has_facts_table db"
  shows "GetAllLatestFacts d db = (map (\<lambda>sid. last (history db sid)) (fst (ListServerIDs d db)), None)"
proof -
  let ?rows = "db_rows db"
  let ?ids = "sort_Strings (remdups (map row_server ?rows))"
  have ok: "rows_ok (db_seq db) ?rows"
    using assms(1) by (simp add: db_ok_def)
  have last_row: "unmarshal_facts (row_data (last (server_rows sid ?rows))) = Some (last (history db sid))"
    if id: "sid \<in> set ?ids" for sid
  proof -
    obtain r where "r \<in> set ?rows" and sid: "sid = row_server r"
      using id by (auto simp only: set_sort_Strings set_remdups set_map)
    then have "last (server_rows sid ?rows) \<in> set ?rows" and "server_rows sid ?rows \<noteq> []"
      using last_server_row [of r ?rows] in_server_rows [of r sid ?rows] by (force, force)
    then show ?thesis
      using row_decodes [OF ok] by (simp add: history_def last_map)
  qed
  have "decode_all d (query_all_latest ?rows) [] = Inr (map (\<lambda>sid. last (history db sid)) ?ids)"
    using last_row by (subst decode_all_rows) (auto simp: query_all_latest_eq [OF ok] list_all_iff)
  with assms show ?thesis
    by (simp add: GetAllLatestFacts_def facts_table_present ids_eq)
qed

text \<open>The latest facts of one server: a row no other is more recent than.\<close>

lemma most_recent_nonempty: "rows \<noteq> [] \<Longrightarrow> most_recent rows \<noteq> []"
proof -
  assume "rows \<noteq> []"
  then have "Max (row_observed ` set rows) \<in> row_observed ` set rows"
    by (intro Max_in) auto
  then obtain r where "r \<in> set rows" and "row_observed r = Max (row_observed ` set rows)"
    by auto
  then have "r \<in> set (most_recent rows)"
    by (simp add: most_recent_def list_all_iff)
  then show ?thesis by auto
qed

lemma query_latest_cases:
  assumes "server_rows sid rows \<noteq> []"
  obtains r where "query_latest d sid rows = [row_data r]" and "r \<in> set (most_recent (server_rows sid rows))"
proof -
  let ?best = "most_recent (server_rows sid rows)"
  have "?best \<noteq> []"
    using assms by (rule most_recent_nonempty)
  then have "?best ! (drv_tie d mod length ?best) \<in> set ?best"
    by (intro nth_mem) simp
  with \<open>?best \<noteq> []\<close> show ?thesis
    by (intro that [of "?best ! (drv_tie d mod length ?best)"]) (simp_all add: query_latest_def Let_def)
qed

lemma query_latest_Nil: "server_rows sid rows = [] \<Longrightarrow> query_latest d sid rows = []"
  by (simp add: query_latest_def most_recent_def)

lemma GetLatestFacts_none:
  assumes "faultless d" and "has_facts_table db" and "history db sid = []"
  shows "GetLatestFacts d db sid = Inl (''store: no facts on record for server '' @ sid)"
  using assms by (simp add: GetLatestFacts_def facts_table_present query_latest_Nil history_def)

lemma GetLatestFacts_some:
  assumes "db_ok db" and "faultless d" and "has_facts_table db" and "history db sid \<noteq> []"
  obtains r where "GetLatestFacts d db sid = Inr (row_facts r)"
    and "r \<in> set (most_recent (server_rows sid (db_rows db)))"
proof -
  have "server_rows sid (db_rows db) \<noteq> []"
    using assms(4) by (simp add: history_def)
  then obtain r where q: "query_latest d sid (db_rows db) = [row_data r]"
    and r: "r \<in> set (most_recent (server_rows sid (db_rows db)))"
    by (rule query_latest_cases [where d = d])
  have "unmarshal_facts (row_data r) = Some (row_facts r)"
    using r assms(1) by (intro row_decodes [of "db_seq db" "db_rows db"]) (auto simp: most_recent_def db_ok_def)
  with q assms(2,3) have "GetLatestFacts d db sid = Inr (row_facts r)"
    by (simp add: GetLatestFacts_def facts_table_present)
  from that [OF this r] show ?thesis .
qed

lemma most_recent_snoc:
  assumes "\<forall>q\<in>set rows. row_observed q < row_observed r"
  shows "most_recent (rows @ [r]) = [r]"
  using assms by (auto simp: most_recent_def list_all_iff filter_empty_conv not_le)


section \<open>The contract of a facts store\<close>

text \<open>
  What the clients of \<open>FactsStore\<close> rely on: saving well-formed facts that are newer than
  everything on record makes them the latest ones of their server and leaves the other servers
  alone. \<open>newest\<close> bounds the instants on record for a server.
\<close>

locale facts_store =
  fixes good :: "'db \<Rightarrow> bool"
    and save :: "gotime \<Rightarrow> 'db \<Rightarrow> ServerFacts option \<Rightarrow> 'db \<times> string option"
    and latest :: "'db \<Rightarrow> string \<Rightarrow> string + ServerFacts"
    and before :: "'db \<Rightarrow> string \<Rightarrow> gotime \<Rightarrow> bool"
  assumes save_good: "good db \<Longrightarrow> storable f \<Longrightarrow> good (fst (save now db (Some f))) \<and> snd (save now db (Some f)) = None"
    and save_latest: "good db \<Longrightarrow> storable f \<Longrightarrow> before db (sf_ServerID f) (stamp now f) \<Longrightarrow>
      latest (fst (save now db (Some f))) (sf_ServerID f) = Inr (normal_raw f)"
    and save_other: "good db \<Longrightarrow> storable f \<Longrightarrow> sid \<noteq> sf_ServerID f \<Longrightarrow>
      latest (fst (save now db (Some f))) sid = latest db sid
      \<and> before (fst (save now db (Some f))) sid t = before db sid t"
begin

text \<open>Saving a list of facts, each with its clock reading.\<close>

definition save_all :: "'db \<Rightarrow> (gotime \<times> ServerFacts) list \<Rightarrow> 'db" where
  "save_all db xs = foldl (\<lambda>db (now, f). fst (save now db (Some f))) db xs"

lemma save_all_simps [simp]:
  "save_all db [] = db"
  "save_all db ((now, f) # xs) = save_all (fst (save now db (Some f))) xs"
  by (simp_all add: save_all_def)

lemma save_all_other:
  "good db \<Longrightarrow> \<forall>(now, f)\<in>set xs. storable f \<and> sf_ServerID f \<noteq> sid \<Longrightarrow>
     good (save_all db xs) \<and> latest (save_all db xs) sid = latest db sid
     \<and> before (save_all db xs) sid t = before db sid t"
proof (induction xs arbitrary: db)
  case (Cons x xs)
  obtain now f where x: "x = (now, f)" by fastforce
  have f: "storable f" "sid \<noteq> sf_ServerID f"
    using Cons.prems(2) by (auto simp: x)
  have "good (fst (save now db (Some f)))"
    using save_good [OF Cons.prems(1) f(1)] by simp
  from Cons.IH [OF this] Cons.prems(2) save_other [OF Cons.prems(1) f] show ?case
    by (simp add: x)
qed simp

text \<open>Saving facts of different servers makes each of them the latest of its server.\<close>

lemma save_all_latest:
  assumes "good db" and "distinct (map (\<lambda>(now, f). sf_ServerID f) xs)"
    and "\<forall>(now, f)\<in>set xs. storable f \<and> before db (sf_ServerID f) (stamp now f)"
    and "(now, f) \<in> set xs"
  shows "latest (save_all db xs) (sf_ServerID f) = Inr (normal_raw f)"
  using assms
proof (induction xs arbitrary: db)
  case (Cons x xs)
  obtain now' f' where x: "x = (now', f')" by fastforce
  have f': "storable f'" "before db (sf_ServerID f') (stamp now' f')"
    using Cons.prems(3) by (auto simp: x)
  define db' where "db' = fst (save now' db (Some f'))"
  have good: "good db'"
    using save_good [OF Cons.prems(1) f'(1)] by (simp add: db'_def)
  have rest: "\<forall>(now, f)\<in>set xs. storable f \<and> sf_ServerID f \<noteq> sf_ServerID f'"
    using Cons.prems(2,3) by (fastforce simp: x image_iff)
  show ?case
  proof (cases "(now, f) = x")
    case True
    then show ?thesis
      using save_all_other [OF good rest] save_latest [OF Cons.prems(1) f'] by (simp add: x db'_def)
  next
    case False
    have "before db' (sf_ServerID g) (stamp t g)" if "(t, g) \<in> set xs" for t g
    proof -
      have "sf_ServerID g \<noteq> sf_ServerID f'" and "before db (sf_ServerID g) (stamp t g)"
        using that rest Cons.prems(3) by auto
      then show ?thesis
        using save_other [OF Cons.prems(1) f'(1)] by (simp add: db'_def)
    qed
    then have "latest (save_all db' xs) (sf_ServerID f) = Inr (normal_raw f)"
      using False Cons.prems rest by (intro Cons.IH [OF good]) (auto simp: x)
    then show ?thesis by (simp add: x db'_def)
  qed
qed simp

end

definition sql_good :: "database \<Rightarrow> bool" where
  "sql_good db \<longleftrightarrow> db_ok db \<and> has_facts_table db"

definition all_before :: "database \<Rightarrow> string \<Rightarrow> gotime \<Rightarrow> bool" where
  "all_before db sid t \<longleftrightarrow> list_all (\<lambda>r. row_observed r < t) (server_rows sid (db_rows db))"

definition sound_driver :: driver where
  "sound_driver = \<lparr>drv_fault = None, drv_tie = 0, drv_json_error = (\<lambda>_. [])\<rparr>"

lemma sound_driver [simp]: "faultless sound_driver"
  by (simp add: faultless_def sound_driver_def)

lemma save_sql:
  assumes "sql_good db" and "storable f"
  shows "sql_good (fst (SaveFacts sound_driver now db (Some f)))"
    and "snd (SaveFacts sound_driver now db (Some f)) = None"
    and "db_rows (fst (SaveFacts sound_driver now db (Some f))) = db_rows db @ [new_row db now f]"
  using assms save_keeps_ok [of db f sound_driver now]
  by (simp_all add: sql_good_def SaveFacts_storable has_facts_table_def db_rows_def)

lemma latest_after_save:
  assumes "sql_good db" and "storable f" and "all_before db (sf_ServerID f) (stamp now f)"
    and "faultless d"
  shows "GetLatestFacts d (fst (SaveFacts sound_driver now db (Some f))) (sf_ServerID f) = Inr (normal_raw f)"
proof -
  let ?db = "fst (SaveFacts sound_driver now db (Some f))"
  note s = save_sql [OF assms(1,2), of now]
  have "most_recent (server_rows (sf_ServerID f) (db_rows ?db)) = [new_row db now f]"
    unfolding s(3) using assms(3) by (simp add: most_recent_snoc all_before_def list_all_iff)
  moreover have "history ?db (sf_ServerID f) \<noteq> []"
    by (simp add: history_def s(3))
  ultimately show ?thesis
    using GetLatestFacts_some [of ?db d "sf_ServerID f"] s(1) assms(2,4)
    by (auto simp: sql_good_def row_facts_new)
qed

lemma latest_other_server:
  assumes "sql_good db" and "storable f" and "sid \<noteq> sf_ServerID f" and "faultless d"
  shows "GetLatestFacts d (fst (SaveFacts sound_driver now db (Some f))) sid = GetLatestFacts d db sid"
  using assms save_sql [OF assms(1,2), of now]
  by (simp add: GetLatestFacts_def facts_table_present query_latest_def sql_good_def)

interpretation sqlite: facts_store sql_good "SaveFacts sound_driver" "GetLatestFacts sound_driver" all_before
proof unfold_locales
  fix db f now
  assume "sql_good db" and "storable f"
  then show "sql_good (fst (SaveFacts sound_driver now db (Some f))) \<and> snd (SaveFacts sound_driver now db (Some f)) = None"
    by (simp add: save_sql)
next
  fix db f now
  assume "sql_good db" and "storable f" and "all_before db (sf_ServerID f) (stamp now f)"
  then show "GetLatestFacts sound_driver (fst (SaveFacts sound_driver now db (Some f))) (sf_ServerID f) = Inr (normal_raw f)"
    by (simp add: latest_after_save)
next
  fix db f sid now t
  assume "sql_good db" and "storable f" and "sid \<noteq> sf_ServerID f"
  then show "GetLatestFacts sound_driver (fst (SaveFacts sound_driver now db (Some f))) sid = GetLatestFacts sound_driver db sid
      \<and> all_before (fst (SaveFacts sound_driver now db (Some f))) sid t = all_before db sid t"
    by (simp add: latest_other_server all_before_def save_sql)
qed


section \<open>Provisioning records\<close>

definition prov_good :: "database \<Rightarrow> bool" where
  "prov_good db \<longleftrightarrow> db_ok db \<and> db_prov db \<noteq> None"

lemma map_of_upsert:
  "map_of (map (\<lambda>r. (prov_server r, (prov_state r, prov_domain r))) (upsert new rows)) sid =
     (if sid = prov_server new then Some (prov_state new, prov_domain new)
      else map_of (map (\<lambda>r. (prov_server r, (prov_state r, prov_domain r))) rows) sid)"
  by (induction new rows rule: upsert.induct) auto

lemma upsert_servers: "set (map prov_server (upsert new rows)) = insert (prov_server new) (set (map prov_server rows))"
  by (induction new rows rule: upsert.induct) auto

lemma distinct_upsert: "distinct (map prov_server rows) \<Longrightarrow> distinct (map prov_server (upsert new rows))"
proof (induction new rows rule: upsert.induct)
  case (2 new r rs)
  then show ?case
    using upsert_servers [of new rs] by auto
qed simp

lemma prov_lookup:
  "(case filter (\<lambda>r. prov_server r = sid) rows of [] \<Rightarrow> None | r # _ \<Rightarrow> Some (prov_state r, prov_domain r)) =
     map_of (map (\<lambda>r. (prov_server r, (prov_state r, prov_domain r))) rows) sid"
  by (induction rows) auto

definition prov_record :: "database \<Rightarrow> string \<Rightarrow> (string \<times> string) option" where
  "prov_record db sid =
     (case db_prov db of
        None \<Rightarrow> None
      | Some rows \<Rightarrow> map_of (map (\<lambda>r. (prov_server r, (prov_state r, prov_domain r))) rows) sid)"

lemma GetProvisioning_record:
  assumes "faultless d" and "db_prov db \<noteq> None"
  shows "GetProvisioning d db sid =
    (case prov_record db sid of
       None \<Rightarrow> Inl (''store: no provisioning record for server '' @ sid)
     | Some p \<Rightarrow> Inr p)"
proof -
  obtain rows where "db_prov db = Some rows" using assms(2) by auto
  with assms(1) show ?thesis
    by (simp add: GetProvisioning_def prov_table_def prov_record_def prov_lookup [symmetric] split: list.splits)
qed

lemma SetProvisioning_record:
  assumes "prov_good db" and "faultless d" and "sid \<noteq> []"
  shows "prov_good (fst (SetProvisioning d now db sid st fd)) \<and> snd (SetProvisioning d now db sid st fd) = None
    \<and> prov_record (fst (SetProvisioning d now db sid st fd)) = (prov_record db)(sid \<mapsto> (st, fd))
    \<and> db_facts (fst (SetProvisioning d now db sid st fd)) = db_facts db
    \<and> db_seq (fst (SetProvisioning d now db sid st fd)) = db_seq db"
  using assms
  by (auto simp: SetProvisioning_def prov_table_def prov_good_def db_ok_def db_rows_def distinct_upsert
      prov_record_def fun_eq_iff map_of_upsert)

text \<open>
  The contract of \<open>ProvisioningStore\<close>: reading gives the last record set for that server.
\<close>

locale provisioning_store =
  fixes good :: "'db \<Rightarrow> bool"
    and set_prov :: "gotime \<Rightarrow> 'db \<Rightarrow> string \<Rightarrow> string \<Rightarrow> string \<Rightarrow> 'db \<times> string option"
    and get_prov :: "'db \<Rightarrow> string \<Rightarrow> string + string \<times> string"
  assumes set_good: "good db \<Longrightarrow> sid \<noteq> [] \<Longrightarrow> good (fst (set_prov now db sid st fd)) \<and> snd (set_prov now db sid st fd) = None"
    and get_set: "good db \<Longrightarrow> sid \<noteq> [] \<Longrightarrow>
      get_prov (fst (set_prov now db sid st fd)) s = (if s = sid then Inr (st, fd) else get_prov db s)"
begin

definition set_each :: "'db \<Rightarrow> (gotime \<times> string \<times> string \<times> string) list \<Rightarrow> 'db" where
  "set_each db xs = foldl (\<lambda>db (now, sid, st, fd). fst (set_prov now db sid st fd)) db xs"

lemma set_each_get:
  "good db \<Longrightarrow> \<forall>(now, sid, st, fd)\<in>set xs. sid \<noteq> [] \<Longrightarrow>
     good (set_each db xs)
     \<and> get_prov (set_each db xs) s =
         (case map_of (rev (map (\<lambda>(now, sid, st, fd). (sid, (st, fd))) xs)) s of
            None \<Rightarrow> get_prov db s | Some p \<Rightarrow> Inr p)"
proof (induction xs arbitrary: db)
  case (Cons x xs)
  obtain now sid st fd where x: "x = (now, sid, st, fd)" by (cases x) auto
  have sid: "sid \<noteq> []"
    using Cons.prems(2) by (simp add: x)
  have "good (fst (set_prov now db sid st fd))"
    using set_good [OF Cons.prems(1) sid] by simp
  from Cons.IH [OF this] Cons.prems get_set [OF Cons.prems(1) sid] show ?case
    by (simp add: x set_each_def map_add_def split: option.splits)
qed (simp add: set_each_def)

end

interpretation sqlprov: provisioning_store prov_good "SetProvisioning sound_driver" "GetProvisioning sound_driver"
proof unfold_locales
  fix db now and sid st fd :: string
  assume "prov_good db" and "sid \<noteq> []"
  from SetProvisioning_record [OF this(1) sound_driver this(2)]
  show "prov_good (fst (SetProvisioning sound_driver now db sid st fd)) \<and> snd (SetProvisioning sound_driver now db sid st fd) = None"
    by simp
next
  fix db now and sid st fd s :: string
  assume a: "prov_good db" and "sid \<noteq> []"
  from SetProvisioning_record [OF a sound_driver this(2), of now st fd] a
  show "GetProvisioning sound_driver (fst (SetProvisioning sound_driver now db sid st fd)) s =
      (if s = sid then Inr (st, fd) else GetProvisioning sound_driver db s)"
    by (simp add: GetProvisioning_record prov_good_def)
qed


section \<open>Everything the program does to the database\<close>

text \<open>
  One write of the program, with any driver behaviour: creating a table, saving facts, setting
  a provisioning record. Failed writes are steps as well.
\<close>

inductive db_step :: "database \<Rightarrow> database \<Rightarrow> bool" where
  create_facts: "db_step db (fst (NewSQLiteStore d db))"
| create_prov: "db_step db (fst (NewSQLiteProvisioningStore d db))"
| save: "storable f \<Longrightarrow> db_step db (fst (SaveFacts d now db (Some f)))"
| save_nil: "db_step db (fst (SaveFacts d now db None))"
| set_prov: "db_step db (fst (SetProvisioning d now db sid st fd))"

lemma create_keeps:
  "db_rows (fst (NewSQLiteStore d db)) = db_rows db" "db_seq (fst (NewSQLiteStore d db)) = db_seq db"
  "db_prov (fst (NewSQLiteStore d db)) = db_prov db"
  "db_rows (fst (NewSQLiteProvisioningStore d db)) = db_rows db"
  "db_seq (fst (NewSQLiteProvisioningStore d db)) = db_seq db"
  by (simp_all add: NewSQLiteStore_def NewSQLiteProvisioningStore_def db_rows_def split: option.split)

lemma set_prov_keeps:
  "db_rows (fst (SetProvisioning d now db sid st fd)) = db_rows db"
  "db_seq (fst (SetProvisioning d now db sid st fd)) = db_seq db"
  by (simp_all add: SetProvisioning_def db_rows_def split: sum.split)

lemma set_prov_ok: "db_ok db \<Longrightarrow> db_ok (fst (SetProvisioning d now db sid st fd))"
proof -
  assume ok: "db_ok db"
  have "distinct (map prov_server (case db_prov (fst (SetProvisioning d now db sid st fd)) of None \<Rightarrow> [] | Some rows \<Rightarrow> rows))"
    using ok by (auto simp: SetProvisioning_def prov_table_def db_ok_def distinct_upsert split: option.splits sum.splits)
  with ok show ?thesis
    by (simp add: db_ok_def set_prov_keeps)
qed

lemma db_step_ok: "db_step db db' \<Longrightarrow> db_ok db \<Longrightarrow> db_ok db'"
proof (induction rule: db_step.induct)
  case (create_prov db d)
  then have "distinct (map prov_server (case db_prov (fst (NewSQLiteProvisioningStore d db)) of None \<Rightarrow> [] | Some rows \<Rightarrow> rows))"
    by (simp add: NewSQLiteProvisioningStore_def db_ok_def split: option.splits)
  with create_prov show ?case
    by (simp add: db_ok_def create_keeps)
qed (simp_all add: save_keeps_ok set_prov_ok, simp_all add: db_ok_def create_keeps SaveFacts_def)

lemma db_step_history:
  assumes "db_step db db'"
  shows "\<exists>new. history db' sid = history db sid @ new"
  using assms
proof cases
  case (save f d now)
  show ?thesis
  proof (cases rule: SaveFacts_cases [OF save(2), of d now db])
    case 2
    then show ?thesis
      using save_history [OF save(2), of d now db sid] by (auto simp: save(1))
  qed (simp add: save(1))
qed (simp_all add: history_def create_keeps set_prov_keeps SaveFacts_def)

lemma db_run_ok: "db_step\<^sup>*\<^sup>* db db' \<Longrightarrow> db_ok db \<Longrightarrow> db_ok db'"
  by (induction rule: rtranclp_induct) (auto intro: db_step_ok)

lemma db_run_history:
  assumes "db_step\<^sup>*\<^sup>* db db'"
  shows "\<exists>new. history db' sid = history db sid @ new"
  using assms
proof (induction rule: rtranclp_induct)
  case (step y z)
  obtain new new' where "history y sid = history db sid @ new" and "history z sid = history y sid @ new'"
    using step.IH db_step_history [OF step.hyps(2)] by metis
  then show ?case by simp
qed simp

lemma empty_db_ok: "db_ok empty_db"
  by (simp add: db_ok_def empty_db_def db_rows_def rows_ok_def)


section \<open>Properties of the stores\<close>

text \<open>A database with two servers, built by the operations themselves.\<close>

definition day :: "nat \<Rightarrow> gotime" where
  "day n = GoTime 2024 5 n 12 0 0 0"

definition sample_facts :: "string \<Rightarrow> nat \<Rightarrow> int \<Rightarrow> ServerFacts" where
  "sample_facts sid n mem = zero_facts\<lparr>sf_ServerID := sid, sf_ObservedAt := day n, sf_MemoryGB := mem\<rparr>"

definition created_db :: database where
  "created_db = fst (NewSQLiteProvisioningStore sound_driver (fst (NewSQLiteStore sound_driver empty_db)))"

definition saved :: "ServerFacts \<Rightarrow> database \<Rightarrow> database" where
  "saved f db = fst (SaveFacts sound_driver zero_time db (Some f))"

definition sample_db :: database where
  "sample_db = saved (sample_facts ''b'' 2 64) (saved (sample_facts ''a'' 2 32) (saved (sample_facts ''a'' 1 16) created_db))"

lemma sample_storable: "sid \<in> {''a'', ''b''} \<Longrightarrow> n \<in> {1, 2, 3} \<Longrightarrow> in_int64 m \<Longrightarrow> storable (sample_facts sid n m)"
proof -
  assume a: "sid \<in> {''a'', ''b''}" "n \<in> {1, 2, 3}" "in_int64 m"
  have "valid_utf8 ''a'' \<and> valid_utf8 ''b'' \<and> valid_utf8 []"
    by code_simp
  with a show ?thesis
    by (auto simp: storable_def sample_facts_def day_def facts_ok_def valid_time_def days_in_def leap_def cpu_ok_def
        zero_defs in_int64_def)
qed

lemma created_db_good: "sql_good created_db \<and> prov_good created_db \<and> db_rows created_db = []"
  by (simp add: created_db_def NewSQLiteProvisioningStore_def NewSQLiteStore_def sql_good_def prov_good_def
      db_ok_def db_rows_def rows_ok_def has_facts_table_def empty_db_def)

lemma saved_simps:
  assumes "sql_good db" and "storable f"
  shows "sql_good (saved f db)" "db_rows (saved f db) = db_rows db @ [new_row db zero_time f]"
  using save_sql [OF assms] by (simp_all add: saved_def)

lemma sample_db_good: "sql_good sample_db"
  unfolding sample_db_def by (intro saved_simps created_db_good [THEN conjunct1] sample_storable) (simp_all add: in_int64_def)

lemma sample_db_rows:
  "map (\<lambda>r. (row_server r, row_observed r, row_facts r)) (db_rows sample_db) =
     [(''a'', day 1, sample_facts ''a'' 1 16), (''a'', day 2, sample_facts ''a'' 2 32), (''b'', day 2, sample_facts ''b'' 2 64)]"
proof -
  have st: "storable (sample_facts ''a'' 1 16)" "storable (sample_facts ''a'' 2 32)" "storable (sample_facts ''b'' 2 64)"
    by (simp_all add: sample_storable in_int64_def)
  have g: "sql_good created_db" "db_rows created_db = []"
    by (simp_all add: created_db_good)
  note s1 = saved_simps [OF g(1) st(1)]
  note s2 = saved_simps [OF s1(1) st(2)]
  note s3 = saved_simps [OF s2(1) st(3)]
  show ?thesis
    unfolding sample_db_def s3(2) s2(2) s1(2)
    using st by (simp add: g row_facts_new) (simp add: sample_facts_def stamp_def IsZero_def day_def zero_time_def
        normal_raw_def zero_facts_def)
qed

lemma sample_history:
  "history sample_db ''a'' = [sample_facts ''a'' 1 16, sample_facts ''a'' 2 32]"
  "history sample_db ''b'' = [sample_facts ''b'' 2 64]"
proof -
  have h: "history sample_db sid = map (snd \<circ> snd) (filter (\<lambda>x. fst x = sid)
      (map (\<lambda>r. (row_server r, row_observed r, row_facts r)) (db_rows sample_db)))" for sid
    by (simp add: history_def server_rows_def filter_map comp_def)
  show "history sample_db ''a'' = [sample_facts ''a'' 1 16, sample_facts ''a'' 2 32]"
    "history sample_db ''b'' = [sample_facts ''b'' 2 64]"
    unfolding h sample_db_rows by simp_all
qed



text \<open>
  C8. The fleet queries are computed from the histories: with a working driver,
  \<open>ListServerIDs\<close> returns the servers that have facts, sorted, each once, and
  \<open>GetAllLatestFacts\<close> returns for each of them, in that order, the facts saved last.
\<close>

theorem fleet_queries:
  assumes "db_ok db" and "faultless d" and "has_facts_table db"
  shows "\<exists>ids. ListServerIDs d db = (ids, None) \<and> sorted ids \<and> distinct ids
    \<and> set ids = {sid. history db sid \<noteq> []}
    \<and> GetAllLatestFacts d db = (map (\<lambda>sid. last (history db sid)) ids, None)"
  using all_latest_eq [OF assms] ids_eq [OF assms(2,3)] by (auto simp: history_Nil_iff)

theorem fleet_queries_witness:
  "GetAllLatestFacts sound_driver sample_db = ([sample_facts ''a'' 2 32, sample_facts ''b'' 2 64], None)"
proof -
  have rows: "map row_server (db_rows sample_db) = [''a'', ''a'', ''b'']"
    using arg_cong [OF sample_db_rows, of "map fst"] by (simp add: comp_def)
  have good: "db_ok sample_db" "has_facts_table sample_db"
    using sample_db_good by (simp_all add: sql_good_def)
  have ids: "ListServerIDs sound_driver sample_db = ([''a'', ''b''], None)"
    unfolding ids_eq [OF sound_driver good(2)] rows by (simp add: sort_Strings_def)
  from fleet_queries [OF good(1) sound_driver good(2)] ids show ?thesis
    by (simp add: sample_history)
qed

text \<open>
  C9. Reading the latest facts of a server: with a working driver the result is an error exactly
  when nothing was ever saved for the server; otherwise it is one of the saved facts with the
  most recent observation, whichever of equally recent ones the database prefers. Facts saved
  with a strictly later observation than all others are the ones read, and when the
  observations of a server were saved in strictly ascending order the single-server query and
  the fleet query agree.
\<close>

theorem latest_facts:
  assumes "db_ok db" and "faultless d" and "has_facts_table db"
  shows "(history db sid = [] \<longrightarrow> GetLatestFacts d db sid = Inl (''store: no facts on record for server '' @ sid))
    \<and> (history db sid \<noteq> [] \<longrightarrow>
         (\<exists>r\<in>set (server_rows sid (db_rows db)). GetLatestFacts d db sid = Inr (row_facts r)
            \<and> (\<forall>q\<in>set (server_rows sid (db_rows db)). row_observed q \<le> row_observed r)))
    \<and> (history db sid \<noteq> [] \<and> sorted_wrt (<) (map row_observed (server_rows sid (db_rows db))) \<longrightarrow>
         GetLatestFacts d db sid = Inr (last (history db sid)))"
proof (cases "history db sid = []")
  case True
  then show ?thesis using GetLatestFacts_none [OF assms(2,3)] by simp
next
  case False
  then obtain r where r: "GetLatestFacts d db sid = Inr (row_facts r)"
    "r \<in> set (most_recent (server_rows sid (db_rows db)))"
    by (rule GetLatestFacts_some [OF assms])
  have "r = last (server_rows sid (db_rows db))"
    if asc: "sorted_wrt (<) (map row_observed (server_rows sid (db_rows db)))"
  proof -
    obtain qs q where qs: "server_rows sid (db_rows db) = qs @ [q]"
      using False by (metis history_def list.map_disc_iff rev_exhaust)
    with asc have "most_recent (qs @ [q]) = [q]"
      by (intro most_recent_snoc) (simp add: sorted_wrt_append)
    with r(2) qs show ?thesis by simp
  qed
  with False r show ?thesis
    by (auto simp: most_recent_def list_all_iff history_def last_map)
qed

theorem latest_facts_witness:
  "GetLatestFacts sound_driver sample_db ''a'' = Inr (sample_facts ''a'' 2 32)
   \<and> GetLatestFacts sound_driver sample_db ''c'' = Inl ''store: no facts on record for server c''"
proof -
  have rows: "map (\<lambda>r. (row_server r, row_observed r)) (db_rows sample_db) = [(''a'', day 1), (''a'', day 2), (''b'', day 2)]"
    using arg_cong [OF sample_db_rows, of "map (\<lambda>(a, b, c). (a, b))"] by (simp add: comp_def)
  have obs: "map row_observed (server_rows sid (db_rows sample_db)) =
      map snd (filter (\<lambda>x. fst x = sid) [(''a'', day 1), (''a'', day 2), (''b'', day 2)])" for sid
    unfolding rows [symmetric] by (simp add: server_rows_def filter_map comp_def)
  have "history sample_db ''c'' = []"
    using obs [of "''c''"] by (simp add: history_def)
  moreover have "sorted_wrt (<) (map row_observed (server_rows ''a'' (db_rows sample_db)))"
    by (simp add: obs day_def less_gotime_def time_key_def)
  ultimately show ?thesis
    using latest_facts [of sample_db sound_driver "''a''"] latest_facts [of sample_db sound_driver "''c''"] sample_db_good
    by (simp add: sql_good_def sample_history)
qed



text \<open>
  C11. Provisioning records are last-writer-wins: after any sequence of settings for named
  servers, reading a server gives the state and failure domain set last for it, and what was
  there before when it was not among them.
\<close>

theorem provisioning_last_writer:
  assumes "prov_good db" and "\<forall>(now, sid, st, fd)\<in>set xs. sid \<noteq> []"
  shows "GetProvisioning sound_driver
      (foldl (\<lambda>db (now, sid, st, fd). fst (SetProvisioning sound_driver now db sid st fd)) db xs) s =
    (case map_of (rev (map (\<lambda>(now, sid, st, fd). (sid, (st, fd))) xs)) s of
       None \<Rightarrow> GetProvisioning sound_driver db s | Some p \<Rightarrow> Inr p)"
  using sqlprov.set_each_get [OF assms] by (simp add: sqlprov.set_each_def)

theorem provisioning_last_writer_witness:
  "GetProvisioning sound_driver
     (foldl (\<lambda>db (now, sid, st, fd). fst (SetProvisioning sound_driver now db sid st fd)) created_db
       [(day 1, ''a'', ''provisioning'', ''fd-1''), (day 2, ''b'', ''rescue'', ''fd-2''), (day 3, ''a'', ''provisioned'', ''fd-3'')])
     ''a'' = Inr (''provisioned'', ''fd-3'')"
  using provisioning_last_writer [of created_db
      "[(day 1, ''a'', ''provisioning'', ''fd-1''), (day 2, ''b'', ''rescue'', ''fd-2''), (day 3, ''a'', ''provisioned'', ''fd-3'')]"
      "''a''"] created_db_good
  by simp

end
