(* ===== verification/Refresh.thy ===== *)
theory Refresh
  imports Merge Store
begin

text \<open>
  \<open>refresh/refresher.go\<close>: building the facts of every server and saving them, once at the start
  and once per tick, until cancelled.
\<close>


section \<open>Builds give facts a store accepts\<close>

lemma fill_ok: "P d \<Longrightarrow> P s \<Longrightarrow> P (fill z d s)"
  by (simp add: fill_def)

lemma mergeSource_ok: "valid_utf8 d \<Longrightarrow> valid_utf8 s \<Longrightarrow> valid_utf8 (mergeSource d s)"
proof -
  assume a: "valid_utf8 d" "valid_utf8 s"
  have "valid_utf8 ''+''" by code_simp
  then have "valid_utf8 (d @ (''+'' @ s))"
    using a by (intro valid_utf8_append)
  with a show ?thesis
    by (simp add: mergeSource_def)
qed

lemma union_ok: "list_all P d \<Longrightarrow> list_all P s \<Longrightarrow> list_all P (unionStrings d s)"
  using set_unionStrings [of d s] unfolding list_all_iff by auto

lemma raw_ok_Nil: "raw_ok []"
  by (simp add: raw_ok_def)

lemma merge_raw_ok: "raw_ok d \<Longrightarrow> raw_ok s \<Longrightarrow> raw_ok (merge_raw d s)"
proof (induction d s rule: merge_raw.induct)
  case (2 dst k v kvs)
  have kvs: "raw_ok kvs" and kv: "valid_utf8 k" "json_ok v"
    using "2.prems"(2) by (auto simp: raw_ok_def)
  have "raw_ok (case map_of dst k of None \<Rightarrow> AList.update k v dst | Some _ \<Rightarrow> dst)"
  proof (cases "map_of dst k")
    case None
    then have "k \<notin> fst ` set dst"
      by (simp add: map_of_eq_None_iff)
    with None "2.prems"(1) kv show ?thesis
      by (auto simp: raw_ok_def update_new)
  qed (use "2.prems" in simp)
  from "2.IH" [OF this kvs] show ?case by simp
qed simp

lemma mergeInto_ok: "facts_ok d \<Longrightarrow> facts_ok s \<Longrightarrow> facts_ok (mergeInto d s)"
  by (simp add: facts_ok_def mergeInto_def mergeCPU_def cpu_ok_def fill_ok mergeSource_ok union_ok merge_raw_ok raw_ok_Nil
      split: option.splits)

text \<open>The capabilities that are inferred are plain ASCII.\<close>

lemma inferred_ok: "list_all valid_utf8 (sf_Capabilities f) \<Longrightarrow> list_all valid_utf8 (InferCapabilities (Some f))"
proof -
  assume ok: "list_all valid_utf8 (sf_Capabilities f)"
  have names: "valid_utf8 ''local_nvme''" "valid_utf8 ''high_bandwidth_networking''" "valid_utf8 ''sriov''"
    "valid_utf8 ''rdma''" "valid_utf8 ''power_control''"
    by code_simp+
  have "set (InferCapabilities (Some f)) = (set (sf_Capabilities f) - {[]}) \<union> derived_caps f"
    using infer_spec [of f] by blast
  moreover have "\<forall>x\<in>derived_caps f. valid_utf8 x"
    using names by (auto simp: derived_caps_def only_if_def split: if_splits)
  ultimately show ?thesis
    using ok by (auto simp: list_all_iff)
qed

lemma health_ok: "valid_utf8 (InferHealth (Some f))"
proof -
  have "valid_utf8 ''unknown'' \<and> valid_utf8 ''degraded'' \<and> valid_utf8 ''healthy''"
    by code_simp
  then show ?thesis by (simp add: InferHealth_def)
qed

lemma merged_ok: "facts_ok m \<Longrightarrow> \<forall>f\<in>set fs. facts_ok f \<Longrightarrow> facts_ok (foldl mergeInto m fs)"
  by (induction fs arbitrary: m) (simp_all add: mergeInto_ok)

lemma valid_zero_time: "valid_time zero_time"
  by (simp add: valid_time_def zero_time_def days_in_def)

lemma build_start_ok: "valid_utf8 sid \<Longrightarrow> facts_ok (build_start sid)"
  by (simp add: build_start_def facts_ok_def zero_defs cpu_ok_def in_int64_def raw_ok_def valid_zero_time)

lemma finish_build_ok:
  assumes "facts_ok m" and "valid_utf8 sid" and "valid_time now"
  shows "facts_ok (finish_build now sid m)"
  using assms inferred_ok health_ok by (simp add: finish_build_def facts_ok_def Let_def)

lemma build_ok:
  assumes "BuildServerFacts now sid cs = (Some f, e)" and "valid_utf8 sid" and "valid_time now"
    and "\<forall>g\<in>set (contributions sid cs). facts_ok g"
  shows "facts_ok f \<and> sf_ServerID f = sid \<and> sf_ObservedAt f = now"
  using build_Some [OF assms(1)] assms(2-4)
  by (simp add: finish_build_keeps finish_build_ok merged_ok build_start_ok)


section \<open>The refresher\<close>

text \<open>
  What one server's refresh meets: the collectors as they answer at that moment (one of them
  reads the database), the clock when the build ends, and the database driver.
\<close>

record moment =
  mo_collectors :: "database \<Rightarrow> Collector list"
  mo_now :: gotime
  mo_driver :: driver

text \<open>The state: the database, the log, and how many server refreshes were begun.\<close>

record refresh_state =
  re_db :: database
  re_log :: "string list"
  re_begun :: nat

definition refresh_one :: "(nat \<Rightarrow> moment) \<Rightarrow> refresh_state \<Rightarrow> string \<Rightarrow> refresh_state" where
  "refresh_one env st sid =
     (let m = env (re_begun st);
          st = st\<lparr>re_begun := Suc (re_begun st)\<rparr>
      in case BuildServerFacts (mo_now m) sid (mo_collectors m (re_db st)) of
           (_, Some e) \<Rightarrow> st\<lparr>re_log := re_log st @ [''rewsr-maxfields: refresh failed for server '' @ sid @ '': '' @ e]\<rparr>
         | (f, None) \<Rightarrow>
             (case SaveFacts (mo_driver m) (mo_now m) (re_db st) f of
                (db, Some e) \<Rightarrow>
                  st\<lparr>re_db := db, re_log := re_log st @ [''rewsr-maxfields: saving facts for server '' @ sid @ '': '' @ e]\<rparr>
              | (db, None) \<Rightarrow> st\<lparr>re_db := db\<rparr>))"

definition refreshAll :: "(nat \<Rightarrow> moment) \<Rightarrow> string list \<Rightarrow> refresh_state \<Rightarrow> refresh_state" where
  "refreshAll env serverIDs st = foldl (refresh_one env) st serverIDs"

text \<open>
  The channels \<open>Start\<close> selects on, in the order the loop receives from them. Once the context is
  done the function returns and receives nothing more. \<open>time.NewTicker\<close> panics for an interval,
  in nanoseconds, that is not positive; nothing in the program recovers from it.
\<close>

datatype loop_event = Tick | Done

datatype loop_end = Receiving | Returned | Panicked

fun select_loop :: "(nat \<Rightarrow> moment) \<Rightarrow> string list \<Rightarrow> loop_event list \<Rightarrow> refresh_state \<Rightarrow> refresh_state \<times> loop_end" where
  "select_loop env ids [] st = (st, Receiving)"
| "select_loop env ids (Done # es) st = (st, Returned)"
| "select_loop env ids (Tick # es) st = select_loop env ids es (refreshAll env ids st)"

definition Start ::
  "(nat \<Rightarrow> moment) \<Rightarrow> int \<Rightarrow> string list \<Rightarrow> loop_event list \<Rightarrow> refresh_state \<Rightarrow> refresh_state \<times> loop_end" where
  "Start env interval serverIDs events st =
     (let st = refreshAll env serverIDs st
      in if interval \<le> 0 then (st, Panicked) else select_loop env serverIDs events st)"


section \<open>One batch\<close>

text \<open>What a refresh of one server does, when the driver works and the collectors are sound.\<close>

definition sound_moment :: "moment \<Rightarrow> database \<Rightarrow> string \<Rightarrow> bool" where
  "sound_moment m db sid \<longleftrightarrow>
     faultless (mo_driver m) \<and> valid_time (mo_now m) \<and> mo_now m \<noteq> zero_time
     \<and> (\<forall>g\<in>set (contributions sid (mo_collectors m db)). facts_ok g)"

definition server_id_ok :: "string \<Rightarrow> bool" where
  "server_id_ok sid \<longleftrightarrow> sid \<noteq> [] \<and> valid_utf8 sid"

lemma SaveFacts_driver:
  assumes "storable f" and "faultless d" and "has_facts_table db"
  shows "SaveFacts d now db (Some f) = SaveFacts sound_driver now db (Some f)"
  using assms by (simp add: SaveFacts_storable)

lemma refresh_one_cases:
  assumes "sql_good (re_db st)" and "server_id_ok sid" and "sound_moment (env (re_begun st)) (re_db st) sid"
  obtains e where "BuildServerFacts (mo_now (env (re_begun st))) sid (mo_collectors (env (re_begun st)) (re_db st)) = (None, Some e)"
    and "refresh_one env st sid = st\<lparr>re_begun := Suc (re_begun st),
           re_log := re_log st @ [''rewsr-maxfields: refresh failed for server '' @ sid @ '': '' @ e]\<rparr>"
  | f where "BuildServerFacts (mo_now (env (re_begun st))) sid (mo_collectors (env (re_begun st)) (re_db st)) = (Some f, None)"
    and "storable f" and "sf_ServerID f = sid" and "sf_ObservedAt f = mo_now (env (re_begun st))"
    and "refresh_one env st sid = st\<lparr>re_begun := Suc (re_begun st),
           re_db := fst (SaveFacts sound_driver (mo_now (env (re_begun st))) (re_db st) (Some f))\<rparr>"
proof -
  let ?m = "env (re_begun st)"
  let ?b = "BuildServerFacts (mo_now ?m) sid (mo_collectors ?m (re_db st))"
  note that' = that
  show ?thesis
  proof (cases "fst ?b")
    case None
    then obtain e where b: "?b = (None, Some e)"
      by (auto simp: BuildServerFacts_eq split: if_splits)
    then show ?thesis
      by (intro that'(1) [OF b]) (simp add: refresh_one_def)
  next
    case (Some f)
    then have b: "?b = (Some f, None)"
      using build_Some [of "mo_now ?m" sid "mo_collectors ?m (re_db st)" f "snd ?b"] by (cases ?b) auto
    have ok: "facts_ok f \<and> sf_ServerID f = sid \<and> sf_ObservedAt f = mo_now ?m"
      using build_ok [OF b] assms(2,3) by (simp add: sound_moment_def server_id_ok_def)
    have st: "storable f"
      using ok assms(2) by (simp add: storable_def server_id_ok_def)
    have save: "SaveFacts (mo_driver ?m) (mo_now ?m) (re_db st) (Some f)
        = (fst (SaveFacts sound_driver (mo_now ?m) (re_db st) (Some f)), None)"
      using SaveFacts_driver [OF st, of "mo_driver ?m" "re_db st"] save_sql(2) [OF assms(1) st, of "mo_now ?m"] assms(1,3)
      by (simp add: prod_eq_iff sound_moment_def sql_good_def)
    show ?thesis
      using ok by (intro that'(2) [OF b st]) (simp_all add: refresh_one_def b save)
  qed
qed

lemma refresh_one_begun: "re_begun (refresh_one env st sid) = Suc (re_begun st)"
  by (simp add: refresh_one_def Let_def split: prod.split option.split)

lemma refreshAll_begun: "re_begun (refreshAll env ids st) = re_begun st + length ids"
  by (induction ids arbitrary: st) (simp_all add: refreshAll_def refresh_one_begun)

lemma refreshAll_simps [simp]:
  "refreshAll env [] st = st"
  "refreshAll env (sid # ids) st = refreshAll env ids (refresh_one env st sid)"
  by (simp_all add: refreshAll_def)

text \<open>
  The facts store, as the contract of its locale describes it, is all the refresher touches:
  servers that are not refreshed keep their latest facts.
\<close>

lemma refresh_one_good:
  assumes "sql_good (re_db st)" and "server_id_ok sid" and "sound_moment (env (re_begun st)) (re_db st) sid"
  shows "sql_good (re_db (refresh_one env st sid))"
    and "s \<noteq> sid \<Longrightarrow> GetLatestFacts sound_driver (re_db (refresh_one env st sid)) s = GetLatestFacts sound_driver (re_db st) s
      \<and> all_before (re_db (refresh_one env st sid)) s t = all_before (re_db st) s t"
  by (cases rule: refresh_one_cases [where env = env and st = st and sid = sid, OF assms];
      use assms(1) sqlite.save_good sqlite.save_other in auto)+

lemma refresh_one_latest:
  assumes "sql_good (re_db st)" and "server_id_ok sid" and "sound_moment (env (re_begun st)) (re_db st) sid"
    and "all_before (re_db st) sid (mo_now (env (re_begun st)))"
  shows "GetLatestFacts sound_driver (re_db (refresh_one env st sid)) sid =
    (case fst (BuildServerFacts (mo_now (env (re_begun st))) sid (mo_collectors (env (re_begun st)) (re_db st))) of
       None \<Rightarrow> GetLatestFacts sound_driver (re_db st) sid
     | Some f \<Rightarrow> Inr (normal_raw f))"
proof (cases rule: refresh_one_cases [where env = env and st = st and sid = sid, OF assms(1-3)])
  case (2 f)
  have "stamp (mo_now (env (re_begun st))) f = mo_now (env (re_begun st))"
    using 2(4) by (simp add: stamp_def)
  with 2 assms(1,4) sqlite.save_latest [OF assms(1) 2(2), of "mo_now (env (re_begun st))"] show ?thesis
    by simp
qed simp

text \<open>
  A batch from the \<open>b\<close>-th refresh on, over distinct servers, each sound in every database that has the
  given provisioning records: a refresh writes facts only, so these records stay.
\<close>

definition sound_batch :: "(nat \<Rightarrow> moment) \<Rightarrow> nat \<Rightarrow> prov_row list option \<Rightarrow> string list \<Rightarrow> bool" where
  "sound_batch env b provs sids \<longleftrightarrow>
     distinct sids \<and> (\<forall>k<length sids. server_id_ok (sids ! k) \<and> (\<forall>db. db_prov db = provs \<longrightarrow> sound_moment (env (b + k)) db (sids ! k)))"

lemma sound_batch_Cons:
  assumes "sound_batch env b provs (sid # sids)"
  shows "server_id_ok sid" "db_prov db = provs \<Longrightarrow> sound_moment (env b) db sid" "sid \<notin> set sids" "sound_batch env (Suc b) provs sids"
proof -
  have 0: "server_id_ok ((sid # sids) ! 0) \<and> (\<forall>db. db_prov db = provs \<longrightarrow> sound_moment (env (b + 0)) db ((sid # sids) ! 0))"
    using assms unfolding sound_batch_def by blast
  have "server_id_ok (sids ! k) \<and> (\<forall>db. db_prov db = provs \<longrightarrow> sound_moment (env (Suc b + k)) db (sids ! k))" if "k < length sids" for k
  proof -
    have "server_id_ok ((sid # sids) ! Suc k) \<and> (\<forall>db. db_prov db = provs \<longrightarrow> sound_moment (env (b + Suc k)) db ((sid # sids) ! Suc k))"
      using assms that unfolding sound_batch_def by auto
    then show ?thesis by simp
  qed
  with 0 assms show "server_id_ok sid" "db_prov db = provs \<Longrightarrow> sound_moment (env b) db sid" "sid \<notin> set sids"
    "sound_batch env (Suc b) provs sids"
    by (auto simp: sound_batch_def)
qed

lemma save_keeps_prov: "db_prov (fst (SaveFacts d now db fo)) = db_prov db"
  by (simp add: SaveFacts_def insert_row_def Let_def split: option.split sum.split)

lemma refresh_one_prov: "db_prov (re_db (refresh_one env st sid)) = db_prov (re_db st)"
proof -
  have "db_prov db' = db_prov db" if "SaveFacts d now db fo = (db', e)" for d now db fo db' e
    using save_keeps_prov [of d now db fo] that by simp
  then show ?thesis
    by (simp add: refresh_one_def Let_def split: prod.split option.split)
qed

lemma refreshAll_prov: "db_prov (re_db (refreshAll env ids st)) = db_prov (re_db st)"
  by (induction ids arbitrary: st) (simp_all add: refresh_one_prov)

lemma refreshAll_other:
  "sql_good (re_db st) \<Longrightarrow> sound_batch env (re_begun st) (db_prov (re_db st)) sids \<Longrightarrow> s \<notin> set sids \<Longrightarrow>
     sql_good (re_db (refreshAll env sids st))
     \<and> GetLatestFacts sound_driver (re_db (refreshAll env sids st)) s = GetLatestFacts sound_driver (re_db st) s
     \<and> all_before (re_db (refreshAll env sids st)) s t = all_before (re_db st) s t"
proof (induction sids arbitrary: st)
  case (Cons sid sids)
  note b = sound_batch_Cons [OF Cons.prems(2)]
  have one: "sql_good (re_db (refresh_one env st sid))"
    "GetLatestFacts sound_driver (re_db (refresh_one env st sid)) s = GetLatestFacts sound_driver (re_db st) s
      \<and> all_before (re_db (refresh_one env st sid)) s t = all_before (re_db st) s t"
    using refresh_one_good [where env = env and st = st, OF Cons.prems(1) b(1) b(2) [OF refl]] Cons.prems(3) by auto
  from Cons.IH [OF one(1)] one(2) b(4) Cons.prems(3) show ?case
    by (simp add: refresh_one_begun refresh_one_prov)
qed simp

lemma refreshAll_good:
  "sql_good (re_db st) \<Longrightarrow> sound_batch env (re_begun st) (db_prov (re_db st)) sids \<Longrightarrow> sql_good (re_db (refreshAll env sids st))"
proof (induction sids arbitrary: st)
  case (Cons sid sids)
  note b = sound_batch_Cons [OF Cons.prems(2)]
  from Cons.IH [OF refresh_one_good(1) [where env = env and st = st, OF Cons.prems(1) b(1) b(2) [OF refl]]] b(4) show ?case
    by (simp add: refresh_one_begun refresh_one_prov)
qed simp

lemma refreshAll_latest:
  assumes "sql_good (re_db st)" and "sound_batch env (re_begun st) (db_prov (re_db st)) sids"
    and "\<forall>k<length sids. all_before (re_db st) (sids ! k) (mo_now (env (re_begun st + k)))"
    and "k < length sids"
  shows "GetLatestFacts sound_driver (re_db (refreshAll env sids st)) (sids ! k) =
    (case fst (BuildServerFacts (mo_now (env (re_begun st + k))) (sids ! k)
                 (mo_collectors (env (re_begun st + k)) (re_db (refreshAll env (take k sids) st)))) of
       None \<Rightarrow> GetLatestFacts sound_driver (re_db st) (sids ! k)
     | Some f \<Rightarrow> Inr (normal_raw f))"
  using assms
proof (induction sids arbitrary: st k)
  case (Cons sid sids)
  note b = sound_batch_Cons [OF Cons.prems(2)]
  let ?st = "refresh_one env st sid"
  have good: "sql_good (re_db ?st)"
    using refresh_one_good(1) [where env = env and st = st, OF Cons.prems(1) b(1) b(2) [OF refl]] .
  have batch: "sound_batch env (re_begun ?st) (db_prov (re_db ?st)) sids"
    using b(4) by (simp add: refresh_one_begun refresh_one_prov)
  have first: "all_before (re_db st) sid (mo_now (env (re_begun st)))"
    using Cons.prems(3) by force
  show ?case
  proof (cases k)
    case 0
    show ?thesis
      unfolding 0 nth_Cons_0 using refreshAll_other [OF good batch b(3)] refresh_one_latest [where env = env and st = st, OF Cons.prems(1) b(1) b(2) [OF refl] first] by simp
  next
    case (Suc j)
    have other: "sids ! i \<noteq> sid" if "i < length sids" for i
      using that b(3) by auto
    have before: "\<forall>i<length sids. all_before (re_db ?st) (sids ! i) (mo_now (env (re_begun ?st + i)))"
    proof (intro allI impI)
      fix i
      assume i: "i < length sids"
      then have "all_before (re_db st) ((sid # sids) ! Suc i) (mo_now (env (re_begun st + Suc i)))"
        using Cons.prems(3) by (intro mp [OF spec [OF Cons.prems(3)]]) simp
      then show "all_before (re_db ?st) (sids ! i) (mo_now (env (re_begun ?st + i)))"
        using refresh_one_good(2) [where env = env and st = st, OF Cons.prems(1) b(1) b(2) [OF refl] other [OF i]] by (simp add: refresh_one_begun)
    qed
    have j: "j < length sids"
      using Cons.prems(4) Suc by simp
    from Cons.IH [OF good batch before j] refresh_one_good(2) [where env = env and st = st, OF Cons.prems(1) b(1) b(2) [OF refl] other [OF j]] show ?thesis
      unfolding Suc nth_Cons_Suc by (simp add: refresh_one_begun cong: option.case_cong)
  qed
qed simp


section \<open>Properties of the refresher\<close>


text \<open>Two servers; the collectors only answer for the second.\<close>

definition picky :: Collector where
  "picky sid = (if sid = ''b'' then (Some (zero_facts\<lparr>sf_ServerID := sid, sf_Source := ''linux_host'', sf_MemoryGB := 64\<rparr>), None)
                else (None, Some ''unreachable''))"

definition picky_env :: "nat \<Rightarrow> moment" where
  "picky_env n = \<lparr>mo_collectors = (\<lambda>db. [picky]), mo_now = day 7, mo_driver = sound_driver\<rparr>"

definition fresh_state :: "database \<Rightarrow> refresh_state" where
  "fresh_state db = \<lparr>re_db = db, re_log = [], re_begun = 0\<rparr>"

lemma picky_batch: "sound_batch picky_env 0 provs [''a'', ''b'']"
proof -
  have "valid_utf8 ''a'' \<and> valid_utf8 ''b'' \<and> valid_utf8 ''linux_host''"
    by code_simp
  then show ?thesis
    by (simp add: sound_batch_def All_less_Suc numeral_2_eq_2 picky_env_def sound_moment_def server_id_ok_def picky_def day_def
        valid_time_def days_in_def zero_time_def facts_ok_def zero_facts_def zero_cpu_def cpu_ok_def in_int64_def)
qed


text \<open>
  What is well formed stays well formed up to the database: when every collector's facts have
  valid strings, numbers and instants, so have the facts built from them, they carry the server's
  id and the instant of the build, and a working driver saves them: the server's history gains
  exactly them.
\<close>

lemma built_facts_storable:
  assumes "BuildServerFacts now sid cs = (Some f, e)" and "server_id_ok sid" and "valid_time now"
    and "\<forall>g\<in>set (contributions sid cs). facts_ok g"
    and "sql_good db" and "faultless d"
  shows "storable f \<and> sf_ServerID f = sid \<and> sf_ObservedAt f = now
    \<and> snd (SaveFacts d t db (Some f)) = None
    \<and> history (fst (SaveFacts d t db (Some f))) sid = history db sid @ [normal_raw f]"
proof -
  have ok: "facts_ok f \<and> sf_ServerID f = sid \<and> sf_ObservedAt f = now"
    using build_ok [OF assms(1)] assms(2-4) by (simp add: server_id_ok_def)
  then have st: "storable f"
    using assms(2) by (simp add: storable_def server_id_ok_def)
  have save: "snd (SaveFacts d t db (Some f)) = None"
    using SaveFacts_driver [OF st assms(6)] save_sql(2) [OF assms(5) st] assms(5) by (simp add: sql_good_def)
  then show ?thesis
    using ok st save_history [OF st, of d t db sid] by simp
qed

lemma select_loop_begun:
  "re_begun (fst (select_loop env sids es st)) =
     re_begun st + length (takeWhile (\<lambda>e. e = Tick) es) * length sids
   \<and> snd (select_loop env sids es st) = (if Done \<in> set es then Returned else Receiving)
   \<and> fst (select_loop env sids es st) = fst (select_loop env sids (takeWhile (\<lambda>e. e = Tick) es) st)"
proof (induction env sids es st rule: select_loop.induct)
  case (3 env sids es st)
  from "3.IH" have "re_begun (fst (select_loop env sids es (refreshAll env sids st))) =
      re_begun st + length sids + length (takeWhile (\<lambda>e. e = Tick) es) * length sids"
    unfolding refreshAll_begun by blast
  with "3.IH" show ?case
    by simp
qed simp_all

text \<open>
  C13. The refresher runs one batch at the start and one per tick, and stops at the cancellation:
  whatever the driver and the collectors do, the number of server refreshes begun is the number
  of servers times one more than the ticks received before the cancellation, \<open>Start\<close> returns
  exactly when it is cancelled, and nothing received after the cancellation has any effect. With
  an interval that is not positive it panics after the first batch instead.
\<close>

theorem refresher_ticks:
  "re_begun (fst (Start env interval sids es st)) =
     re_begun st + Suc (if interval \<le> 0 then 0 else length (takeWhile (\<lambda>e. e = Tick) es)) * length sids
   \<and> snd (Start env interval sids es st) =
       (if interval \<le> 0 then Panicked else if Done \<in> set es then Returned else Receiving)
   \<and> fst (Start env interval sids (es @ Done # later) st) = fst (Start env interval sids (es @ [Done]) st)"
proof -
  have "takeWhile (\<lambda>e. e = Tick) (es @ Done # later) = takeWhile (\<lambda>e. e = Tick) (es @ [Done])"
    by (simp add: takeWhile_append)
  then have "fst (select_loop env sids (es @ Done # later) s) = fst (select_loop env sids (es @ [Done]) s)" for s
    using select_loop_begun by metis
  then show ?thesis
    unfolding Start_def Let_def using select_loop_begun refreshAll_begun by simp
qed

text \<open>The panic comes after the first batch, and nothing after it happens.\<close>

lemma Start_panics_at_ticker: "interval \<le> 0 \<Longrightarrow> Start env interval sids es st = (refreshAll env sids st, Panicked)"
  by (simp add: Start_def)

text \<open>The state after a batch at the start and one for each of \<open>n\<close> ticks.\<close>

lemma Start_ticks:
  "0 < interval \<Longrightarrow>
     fst (Start env interval sids (replicate n Tick) st) = (refreshAll env sids ^^ n) (refreshAll env sids st)"
proof -
  have "select_loop env sids (replicate n Tick) s = ((refreshAll env sids ^^ n) s, Receiving)" for s
    by (induction n arbitrary: s) (simp_all add: funpow_swap1)
  then show "0 < interval \<Longrightarrow> ?thesis"
    by (simp add: Start_def)
qed

end
