(* ===== verification/Host.thy ===== *)
theory Host
  imports Merge Facts_Json
begin

text \<open>
  What a collector sees of the machine, and the shared parts of \<open>runner/runner.go\<close> and
  \<open>collectors/linux_host.go\<close>: one snapshot of the file system, the installed commands and what
  running them gives, the clock. The contract all collectors share is a locale.
\<close>


section \<open>The machine\<close>

text \<open>An error of \<open>os/exec\<close>: its text, and the captured standard error of an \<open>ExitError\<close>.\<close>

datatype exec_error = ExitError string string | ExecError string

text \<open>A response of the BMC: no connection, or a status and a body.\<close>

datatype http_result = HttpError string | HttpResponse int string

text \<open>
  \<open>w_LookPath\<close> gives an error text or a path, \<open>w_exec\<close> takes the timeout in nanoseconds, the
  command and its arguments, \<open>w_ReadDir\<close> lists names with \<open>IsDir\<close> in the order of the names,
  \<open>w_Stat\<close> gives the error text if any, \<open>w_http_get\<close> takes the URL and the headers, and
  \<open>w_bad_url\<close> the error of building a request. \<open>w_json_error\<close> is the text of an error of
  \<open>encoding/json\<close>, and \<open>w_map_order\<close> the order a \<open>range\<close> loop visits the keys of a map in.
  \<open>w_grow\<close> is the capacity \<open>append\<close> gives a full slice of that length.
\<close>

record world =
  w_LookPath :: "string \<Rightarrow> string + string"
  w_exec :: "int \<Rightarrow> string \<Rightarrow> string list \<Rightarrow> string \<times> exec_error option"
  w_ReadFile :: "string \<Rightarrow> string option"
  w_ReadDir :: "string \<Rightarrow> (string \<times> bool) list option"
  w_Stat :: "string \<Rightarrow> string option"
  w_Readlink :: "string \<Rightarrow> string option"
  w_bad_url :: "string \<Rightarrow> string option"
  w_http_get :: "string \<Rightarrow> (string \<times> string) list \<Rightarrow> http_result"
  w_json_error :: "string \<Rightarrow> string"
  w_map_order :: "string list \<Rightarrow> string list"
  w_grow :: "nat \<Rightarrow> nat"
  w_now :: gotime


text \<open>A machine with no tool, no file and no BMC.\<close>

definition bare_world :: world where
  "bare_world =
     \<lparr>w_LookPath = (\<lambda>_. Inl ''executable file not found in $PATH''), w_exec = (\<lambda>_ _ _. ([], Some (ExecError ''not found''))),
      w_ReadFile = (\<lambda>_. None), w_ReadDir = (\<lambda>_. None), w_Stat = (\<lambda>_. Some ''no such file or directory''),
      w_Readlink = (\<lambda>_. None), w_bad_url = (\<lambda>_. None), w_http_get = (\<lambda>_ _. HttpError ''connection refused''),
      w_json_error = (\<lambda>_. ''unexpected end of JSON input''), w_map_order = (\<lambda>ks. ks), w_grow = (\<lambda>n. if n = 0 then 1 else 2 * n),
      w_now = zero_time\<rparr>"


section \<open>Running commands\<close>

text \<open>The interface \<open>CommandRunner\<close>: output and error text.\<close>

type_synonym CommandRunner = "string \<Rightarrow> string list \<Rightarrow> string \<times> string option"

definition DefaultTimeout :: int where
  "DefaultTimeout = 5 * 1000000000"

definition CommandError :: "string \<Rightarrow> exec_error \<Rightarrow> string" where
  "CommandError name e =
     (case e of
        ExitError txt stderr \<Rightarrow> if stderr \<noteq> [] then name @ '': '' @ txt @ '': '' @ stderr else name @ '': '' @ txt
      | ExecError txt \<Rightarrow> name @ '': '' @ txt)"

text \<open>\<open>LocalRunner.Run\<close> with the field \<open>Timeout\<close>.\<close>

definition LocalRunner_Run :: "world \<Rightarrow> int \<Rightarrow> CommandRunner" where
  "LocalRunner_Run w timeout name args =
     (let t = (if timeout \<le> 0 then DefaultTimeout else timeout)
      in case w_exec w t name args of
           (out, None) \<Rightarrow> (out, None)
         | (out, Some e) \<Rightarrow> (out, Some (CommandError name e)))"

definition NewLocalRunner :: "world \<Rightarrow> CommandRunner" where
  "NewLocalRunner w = LocalRunner_Run w DefaultTimeout"


section \<open>What the collectors share\<close>

text \<open>The fields the collector structs have; a nil \<open>LookPath\<close> stands for \<open>exec.LookPath\<close>.\<close>

record config =
  cf_Runner :: "CommandRunner option"
  cf_LookPath :: "(string \<Rightarrow> string + string) option"
  cf_SysRoot :: string

definition new_config :: "world \<Rightarrow> config" where
  "new_config w = \<lparr>cf_Runner = Some (NewLocalRunner w), cf_LookPath = Some (w_LookPath w), cf_SysRoot = []\<rparr>"

definition lookPath :: "world \<Rightarrow> config \<Rightarrow> string \<Rightarrow> string + string" where
  "lookPath w c = (case cf_LookPath c of None \<Rightarrow> w_LookPath w | Some l \<Rightarrow> l)"

definition root :: "config \<Rightarrow> string" where
  "root c = (if cf_SysRoot c = [] then ''/'' else cf_SysRoot c)"

definition requireCommand :: "(string \<Rightarrow> string + string) \<Rightarrow> string \<Rightarrow> string option" where
  "requireCommand look name =
     (case look name of Inl e \<Rightarrow> Some (name @ '' not found: '' @ e) | Inr _ \<Rightarrow> None)"

text \<open>
  The steps several collectors begin with: check that a tool is installed, run it, and unmarshal
  what it prints; the first failure's message, or the value.
\<close>

definition tool_output :: "CommandRunner \<Rightarrow> (string \<Rightarrow> string + string) \<Rightarrow> string \<Rightarrow> string list \<Rightarrow> string + string" where
  "tool_output run look name args =
     (case requireCommand look name of
        Some e \<Rightarrow> Inl e
      | None \<Rightarrow> (case run name args of (_, Some e) \<Rightarrow> Inl e | (out, None) \<Rightarrow> Inr out))"

definition unmarshal :: "world \<Rightarrow> 'a decoder \<Rightarrow> string \<Rightarrow> string + 'a" where
  "unmarshal w dec out =
     (case Option.bind (parse_json out) dec of None \<Rightarrow> Inl (w_json_error w out) | Some x \<Rightarrow> Inr x)"

definition tool_json :: "world \<Rightarrow> CommandRunner \<Rightarrow> (string \<Rightarrow> string + string) \<Rightarrow> string \<Rightarrow> string list \<Rightarrow> 'a decoder \<Rightarrow> string + 'a" where
  "tool_json w run look name args dec =
     (case tool_output run look name args of Inl e \<Rightarrow> Inl e | Inr out \<Rightarrow> unmarshal w dec out)"

definition atoiOrZero :: "string \<Rightarrow> int" where
  "atoiOrZero s = (case Atoi (TrimSpace s) of (n, ok) \<Rightarrow> if ok then n else 0)"

definition new_facts :: "world \<Rightarrow> string \<Rightarrow> string \<Rightarrow> ServerFacts" where
  "new_facts w sid source =
     zero_facts\<lparr>sf_ServerID := sid, sf_Source := source, sf_ObservedAt := w_now w, sf_Raw := Some []\<rparr>"

text \<open>\<open>f.Raw[k] = v\<close>, with the value in its JSON form; a Go map is written with sorted keys.\<close>

definition set_raw :: "string \<Rightarrow> json \<Rightarrow> ServerFacts \<Rightarrow> ServerFacts" where
  "set_raw k v f = f\<lparr>sf_Raw := Some (AList.update k v (case sf_Raw f of None \<Rightarrow> [] | Some m \<Rightarrow> m))\<rparr>"

text \<open>
  The members of a field that is a struct: every member of that name is decoded into the same
  struct, so their objects count as one.
\<close>

definition sub_step :: "string \<Rightarrow> (string \<times> json) list option \<Rightarrow> string \<times> json \<Rightarrow> (string \<times> json) list option" where
  "sub_step name acc kv =
     (if key_is name (fst kv) \<and> snd kv \<noteq> JNull
      then (case (acc, as_object (snd kv)) of (Some m, Some m') \<Rightarrow> Some (m @ m') | _ \<Rightarrow> None)
      else acc)"

definition sub_object :: "string \<Rightarrow> (string \<times> json) list \<Rightarrow> (string \<times> json) list option" where
  "sub_object name kvs = foldl (sub_step name) (Some []) kvs"

text \<open>A struct field with \<open>omitempty\<close>.\<close>

definition unless_empty :: "bool \<Rightarrow> string \<Rightarrow> json \<Rightarrow> (string \<times> json) list" where
  "unless_empty blank name v = (if blank then [] else [(name, v)])"

text \<open>A \<open>range\<close> loop over a map: its entries in the order the runtime picks.\<close>

definition range_map :: "world \<Rightarrow> (string, 'a) gomap \<Rightarrow> (string \<times> 'a) list" where
  "range_map w m = List.map_filter (\<lambda>k. map_option (Pair k) (map_of m k)) (w_map_order w (map fst m))"

definition fair_order :: "world \<Rightarrow> bool" where
  "fair_order w \<longleftrightarrow> (\<forall>ks. mset (w_map_order w ks) = mset ks)"

text \<open>The closure \<open>addCap\<close> of two collectors.\<close>

definition cap_if :: "string list \<Rightarrow> string \<Rightarrow> bool \<Rightarrow> string list" where
  "cap_if caps name present = (if present then caps @ [name] else caps)"

text \<open>Reading a file and applying a function to its text, with a default when it is unreadable.\<close>

definition from_file :: "world \<Rightarrow> string \<Rightarrow> 'a \<Rightarrow> (string \<Rightarrow> 'a) \<Rightarrow> 'a" where
  "from_file w path z g = (case w_ReadFile w path of None \<Rightarrow> z | Some data \<Rightarrow> g data)"

lemma set_cap_if [simp]: "x \<in> set (cap_if caps name present) \<longleftrightarrow> x \<in> set caps \<or> x = name \<and> present"
  by (simp add: cap_if_def) blast

lemma cap_if_Nil [simp]: "cap_if caps name present = [] \<longleftrightarrow> caps = [] \<and> \<not> present"
  by (simp add: cap_if_def)

lemma tool_json_doc:
  assumes "requireCommand look name = None" and "run name args = (print_json v, None)" and "json_ok v" and "dec v = Some x"
  shows "tool_json w run look name args dec = Inr x"
  using assms by (simp add: tool_json_def tool_output_def unmarshal_def parse_print)

lemma set_raw_keeps [simp]:
  "sf_ServerID (set_raw k v f) = sf_ServerID f" "sf_Source (set_raw k v f) = sf_Source f"
  "sf_ObservedAt (set_raw k v f) = sf_ObservedAt f" "sf_PowerState (set_raw k v f) = sf_PowerState f"
  "sf_Capabilities (set_raw k v f) = sf_Capabilities f" "sf_NetworkModes (set_raw k v f) = sf_NetworkModes f"
  "sf_FailureDomain (set_raw k v f) = sf_FailureDomain f" "sf_Provisioning (set_raw k v f) = sf_Provisioning f"
  by (simp_all add: set_raw_def)

lemma raw_get_set_raw [simp]: "raw_get (set_raw k v f) k' = (if k' = k then Some v else raw_get f k')"
  by (simp add: raw_get_def set_raw_def update_conv' split: option.split)

lemma new_facts_simps [simp]:
  "sf_ServerID (new_facts w sid src) = sid" "sf_Source (new_facts w sid src) = src"
  "sf_ObservedAt (new_facts w sid src) = w_now w" "sf_PowerState (new_facts w sid src) = []"
  "sf_Capabilities (new_facts w sid src) = []" "sf_NetworkModes (new_facts w sid src) = []"
  "sf_FailureDomain (new_facts w sid src) = []" "raw_get (new_facts w sid src) k = None"
  "sf_CPU (new_facts w sid src) = zero_cpu" "sf_Disks (new_facts w sid src) = []" "sf_NICs (new_facts w sid src) = []"
  "sf_Provisioning (new_facts w sid src) = []" "sf_MemoryGB (new_facts w sid src) = 0"
  by (simp_all add: new_facts_def zero_facts_def raw_get_def)

lemma set_range_map:
  assumes "fair_order w" and "distinct (map fst m)"
  shows "set (range_map w m) = set m"
proof -
  have "set (w_map_order w (map fst m)) = fst ` set m"
    using assms(1) mset_eq_setD unfolding fair_order_def by (metis list.set_map)
  then show ?thesis
    using assms(2) by (force simp: range_map_def map_filter_def map_of_eq_Some_iff [OF assms(2)] intro: rev_image_eqI)
qed

lemma mset_range_map:
  assumes "fair_order w" and "distinct (map fst m)"
  shows "mset (range_map w m) = mset m"
proof -
  have same: "mset (w_map_order w (map fst m)) = mset (map fst m)"
    using assms(1) by (simp add: fair_order_def)
  have "distinct (w_map_order w (map fst m))"
    using mset_eq_imp_distinct_iff [OF same] assms(2) by simp
  moreover have "map_option (Pair k) (map_of m k) = Some e \<Longrightarrow> k = fst e" for k e
    by auto
  ultimately have "distinct (range_map w m)"
    unfolding range_map_def map_filter_def by (force simp: distinct_map inj_on_def)
  moreover have "distinct m"
    using assms(2) by (simp add: distinct_map)
  ultimately show ?thesis
    using set_range_map [OF assms] by (simp add: set_eq_iff_mset_eq_distinct)
qed

lemma mset_map_filter: "mset (List.map_filter g xs) = image_mset (the \<circ> g) (filter_mset (\<lambda>x. g x \<noteq> None) (mset xs))"
  by (simp add: map_filter_def)

lemma mset_map_filter_cong: "mset xs = mset ys \<Longrightarrow> mset (List.map_filter g xs) = mset (List.map_filter g ys)"
  by (simp add: mset_map_filter)

lemma atoiOrZero_range: "in_int64 (atoiOrZero s)"
  using Atoi_range [of "TrimSpace s"] by (auto simp: atoiOrZero_def in_int64_def split: prod.split)

lemma atoiOrZero_Itoa: "in_int64 n \<Longrightarrow> atoiOrZero (Itoa n) = n"
  by (simp add: atoiOrZero_def Atoi_Itoa)


section \<open>The contract of the collectors\<close>

text \<open>
  Every collector answers with facts, whatever goes wrong, stamped with the server's id and a
  source label of its own. A build with such a collector succeeds.
\<close>

locale fact_collector =
  fixes collect :: "'cfg \<Rightarrow> world \<Rightarrow> Collector"
    and labels :: "string list"
  assumes reports: "\<exists>f e. collect cfg w sid = (Some f, e) \<and> sf_ServerID f = sid \<and> sf_Source f \<in> set labels"
    and labelled: "l \<in> set labels \<Longrightarrow> l \<noteq> [] \<and> CHR ''+'' \<notin> set l"
begin

lemma contributes: "\<exists>f. contributions sid (collect cfg w # cs) = f # contributions sid cs
    \<and> sf_ServerID f = sid \<and> sf_Source f \<in> set labels"
  using reports [of cfg w sid] by auto

lemma never_nil: "fst (collect cfg w sid) \<noteq> None"
  using reports [of cfg w sid] by auto

lemma build_succeeds: "collect cfg w \<in> set cs \<Longrightarrow> snd (BuildServerFacts now sid cs) = None"
  using never_nil [of cfg w sid] by (auto simp: BuildServerFacts_eq contributions_Nil_iff intro!: bexI [of _ "collect cfg w"])

lemma source_ok: "fst (collect cfg w sid) = Some f \<Longrightarrow> sf_Source f \<noteq> [] \<and> CHR ''+'' \<notin> set (sf_Source f)"
  using reports [of cfg w sid] labelled [of "sf_Source f"] by auto

end

text \<open>
  A collector that looks at the hardware only: it leaves the power state, the provisioning state
  and the failure domain to those that know them.
\<close>

locale hardware_collector = fact_collector collect labels
  for collect :: "'cfg \<Rightarrow> world \<Rightarrow> Collector" and labels :: "string list" +
  assumes hardware_only: "collect cfg w sid = (Some f, e) \<Longrightarrow>
    sf_PowerState f = [] \<and> sf_Provisioning f = [] \<and> sf_FailureDomain f = []"
begin

lemma quiet:
  "fst (collect cfg w sid) = Some f \<Longrightarrow> sf_PowerState f = [] \<and> sf_Provisioning f = [] \<and> sf_FailureDomain f = []"
  using hardware_only [of cfg w sid f "snd (collect cfg w sid)"] by (metis prod.collapse)

end

end
