(* ===== verification/Linux_Host.thy ===== *)
theory Linux_Host
  imports Host
begin

text \<open>
  \<open>collectors/linux_host.go\<close> with \<open>linux_cpu.go\<close>, \<open>linux_disk.go\<close> and \<open>linux_nic.go\<close>: CPU, disks
  and interfaces from lscpu, lsblk, ip, ethtool and a few sysfs files. A step that fails leaves
  the facts as they are and adds its message.
\<close>


section \<open>CPU\<close>

definition dec_lscpu_entry :: "(string \<times> string) decoder" where
  "dec_lscpu_entry v =
     do { kvs \<leftarrow> as_object v;
          fld \<leftarrow> field ''field'' dec_string [] kvs;
          dat \<leftarrow> field ''data'' dec_string [] kvs;
          Some (fld, dat) }"

definition dec_lscpu :: "(string \<times> string) list decoder" where
  "dec_lscpu v =
     do { kvs \<leftarrow> as_object v;
          field ''lscpu'' (dec_slice dec_lscpu_entry) [] kvs }"

text \<open>The map \<open>fields\<close>, later entries overwriting earlier ones; a missing key reads as empty.\<close>

definition lscpu_fields :: "(string \<times> string) list \<Rightarrow> (string, string) gomap" where
  "lscpu_fields entries = foldl (\<lambda>m (fld, dat). AList.update (TrimSuffix fld '':'') dat m) [] entries"

definition at :: "(string, string) gomap \<Rightarrow> string \<Rightarrow> string" where
  "at m k = (case map_of m k of None \<Rightarrow> [] | Some v \<Rightarrow> v)"

definition fill_cpu :: "(string, string) gomap \<Rightarrow> CPUFacts \<Rightarrow> CPUFacts" where
  "fill_cpu flds c =
     (let sockets = atoiOrZero (at flds ''Socket(s)'');
          per = atoiOrZero (at flds ''Core(s) per socket'')
      in c\<lparr>cpu_Vendor := at flds ''Vendor ID'',
           cpu_Model := at flds ''Model name'',
           cpu_Sockets := sockets,
           cpu_Cores := (if sockets > 0 \<and> per > 0 then wrap64 (sockets * per) else cpu_Cores c),
           cpu_Threads := atoiOrZero (at flds ''CPU(s)'')\<rparr>)"

text \<open>A step takes the facts and gives them back, changed or not, with an error message or none.\<close>

definition collectCPU :: "world \<Rightarrow> CommandRunner \<Rightarrow> (string \<Rightarrow> string + string) \<Rightarrow> ServerFacts \<Rightarrow> ServerFacts \<times> string option" where
  "collectCPU w run look f =
     (case tool_json w run look ''lscpu'' [''-J''] dec_lscpu of
        Inl e \<Rightarrow> (f, Some e)
      | Inr entries \<Rightarrow> (f\<lparr>sf_CPU := fill_cpu (lscpu_fields entries) (sf_CPU f)\<rparr>, None))"


section \<open>Disks\<close>

text \<open>
  \<open>flexInt\<close> and \<open>flexBool\<close> read the raw text of a value: of a string literal with its quotes
  trimmed, of any other value as printed.
\<close>

definition raw_text :: "json \<Rightarrow> string" where
  "raw_text v = (case v of JStr r \<Rightarrow> TrimByte (CHR 0x22 # r @ [CHR 0x22]) (CHR 0x22) | _ \<Rightarrow> print_json v)"

text \<open>A type with its own \<open>UnmarshalJSON\<close> sees a \<open>null\<close> as well.\<close>

definition own_field :: "string \<Rightarrow> 'a decoder \<Rightarrow> 'a \<Rightarrow> (string \<times> json) list \<Rightarrow> 'a option" where
  "own_field name dec z kvs =
     foldl (\<lambda>acc (k, v). if key_is name k then (case acc of None \<Rightarrow> None | Some _ \<Rightarrow> dec v) else acc) (Some z) kvs"

definition flexInt :: "int decoder" where
  "flexInt v =
     (let s = raw_text v
      in if s = [] \<or> s = ''null'' then Some 0
         else case Atoi s of (n, ok) \<Rightarrow> if ok then Some n else None)"

definition flexBool :: "bool decoder" where
  "flexBool v =
     (let s = raw_text v
      in if s = ''true'' \<or> s = ''1'' then Some True
         else if s = ''false'' \<or> s = ''0'' \<or> s = [] \<or> s = ''null'' then Some False
         else dec_bool v)"

record lsblkDevice =
  ld_Name :: string
  ld_Type :: string
  ld_Size :: int
  ld_Rota :: bool

definition dec_lsblk_device :: "lsblkDevice decoder" where
  "dec_lsblk_device v =
     do { kvs \<leftarrow> as_object v;
          n \<leftarrow> field ''name'' dec_string [] kvs;
          t \<leftarrow> field ''type'' dec_string [] kvs;
          s \<leftarrow> own_field ''size'' flexInt 0 kvs;
          r \<leftarrow> own_field ''rota'' flexBool False kvs;
          Some \<lparr>ld_Name = n, ld_Type = t, ld_Size = s, ld_Rota = r\<rparr> }"

definition dec_lsblk :: "lsblkDevice list decoder" where
  "dec_lsblk v =
     do { kvs \<leftarrow> as_object v;
          field ''blockdevices'' (dec_slice dec_lsblk_device) [] kvs }"

definition diskType :: "string \<Rightarrow> bool \<Rightarrow> string" where
  "diskType name rotational =
     (if HasPrefix name ''nvme'' then ''nvme'' else if rotational then ''hdd'' else ''ssd'')"

definition add_disk :: "DiskFacts list \<Rightarrow> lsblkDevice \<Rightarrow> DiskFacts list" where
  "add_disk disks dev =
     (if ld_Type dev \<noteq> ''disk'' then disks
      else disks @ [\<lparr>disk_Name = ld_Name dev, disk_Type = diskType (ld_Name dev) (ld_Rota dev),
                     disk_SizeGB = quot (ld_Size dev) (1024 * 1024 * 1024), disk_Rotational = ld_Rota dev\<rparr>])"

definition collectDisks :: "world \<Rightarrow> CommandRunner \<Rightarrow> (string \<Rightarrow> string + string) \<Rightarrow> ServerFacts \<Rightarrow> ServerFacts \<times> string option" where
  "collectDisks w run look f =
     (case tool_json w run look ''lsblk'' [''-J'', ''-b'', ''-o'', ''NAME,TYPE,SIZE,ROTA''] dec_lsblk of
        Inl e \<Rightarrow> (f, Some e)
      | Inr devs \<Rightarrow> (f\<lparr>sf_Disks := foldl add_disk [] devs\<rparr>, None))"


section \<open>Interfaces\<close>

record ipLinkEntry =
  il_IfName :: string
  il_Address :: string
  il_LinkType :: string

definition dec_ip_link :: "ipLinkEntry decoder" where
  "dec_ip_link v =
     do { kvs \<leftarrow> as_object v;
          n \<leftarrow> field ''ifname'' dec_string [] kvs;
          a \<leftarrow> field ''address'' dec_string [] kvs;
          t \<leftarrow> field ''link_type'' dec_string [] kvs;
          Some \<lparr>il_IfName = n, il_Address = a, il_LinkType = t\<rparr> }"

definition readSpeedGbps :: "world \<Rightarrow> string \<Rightarrow> int" where
  "readSpeedGbps w iface =
     (case w_ReadFile w (FilepathJoin [''/sys/class/net'', iface, ''speed'']) of
        None \<Rightarrow> 0
      | Some data \<Rightarrow>
          (case Atoi (TrimSpace data) of
             (mbps, ok) \<Rightarrow> if \<not> ok \<or> mbps \<le> 0 then 0 else mbps div 1000))"

definition readDriver :: "world \<Rightarrow> string \<Rightarrow> string" where
  "readDriver w iface =
     (case w_Readlink w (FilepathJoin [''/sys/class/net'', iface, ''device'', ''driver'']) of
        None \<Rightarrow> []
      | Some target \<Rightarrow> FilepathBase target)"

definition hasSRIOV :: "world \<Rightarrow> string \<Rightarrow> bool" where
  "hasSRIOV w iface \<longleftrightarrow> w_Stat w (FilepathJoin [''/sys/class/net'', iface, ''device'', ''virtfn0'']) = None"

text \<open>
  \<open>bufio.Scanner\<close>: lines without their newline and one carriage return before it; a line that
  does not fit the 64 KB buffer ends the scan.
\<close>

definition drop_cr :: "string \<Rightarrow> string" where
  "drop_cr l = (if l \<noteq> [] \<and> last l = CHR 0x0D then butlast l else l)"

definition scan_lines :: "string \<Rightarrow> string list" where
  "scan_lines s =
     (let ls = Split s (CHR 0x0A);
          ls = (if last ls = [] then butlast ls else ls)
      in map drop_cr (takeWhile (\<lambda>l. int (length l) < 65536) ls))"

definition feature_of :: "string \<Rightarrow> string option" where
  "feature_of text =
     (let line = TrimSpace text
      in if line = [] \<or> HasPrefix line ''Features for'' then None
         else case Cut line (CHR '':'') of
           (name, state, ok) \<Rightarrow>
             if \<not> ok then None
             else
               let state = TrimSpace state;
                   state = (case IndexByte state (CHR ''['') of None \<Rightarrow> state | Some i \<Rightarrow> TrimSpace (take i state))
               in if state = ''on'' then Some (TrimSpace name) else None)"

definition readEthtoolFeatures :: "CommandRunner \<Rightarrow> string \<Rightarrow> string list option" where
  "readEthtoolFeatures run iface =
     (case run ''ethtool'' [''-k'', iface] of
        (_, Some e) \<Rightarrow> None
      | (out, None) \<Rightarrow> Some (List.map_filter feature_of (scan_lines out)))"

definition nic_of :: "world \<Rightarrow> CommandRunner \<Rightarrow> bool \<Rightarrow> ipLinkEntry \<Rightarrow> NICFacts" where
  "nic_of w run haveEthtool link =
     (let name = il_IfName link;
          features = (if haveEthtool then (case readEthtoolFeatures run name of None \<Rightarrow> [] | Some fs \<Rightarrow> fs) else [])
      in \<lparr>nic_Name = name, nic_MAC = il_Address link, nic_SpeedGbps = readSpeedGbps w name,
          nic_Driver = readDriver w name,
          nic_Features = (if hasSRIOV w name then features @ [''sriov''] else features)\<rparr>)"

definition collectNICs :: "world \<Rightarrow> CommandRunner \<Rightarrow> (string \<Rightarrow> string + string) \<Rightarrow> ServerFacts \<Rightarrow> ServerFacts \<times> string option" where
  "collectNICs w run look f =
     (case tool_json w run look ''ip'' [''-j'', ''link''] (dec_slice dec_ip_link) of
        Inl e \<Rightarrow> (f, Some e)
      | Inr links \<Rightarrow> let haveEthtool = (requireCommand look ''ethtool'' = None)
          in (f\<lparr>sf_NICs := map (nic_of w run haveEthtool) (filter (\<lambda>l. il_LinkType l = ''ether'') links)\<rparr>, None))"


section \<open>Collect\<close>

definition linux_host_collect :: "config \<Rightarrow> world \<Rightarrow> Collector" where
  "linux_host_collect c w sid =
     (case cf_Runner c of
        None \<Rightarrow>
          (Some (zero_facts\<lparr>sf_ServerID := sid, sf_Source := ''linux_host''\<rparr>),
           Some ''linux host collector: no CommandRunner configured'')
      | Some run \<Rightarrow>
          let look = lookPath w c;
              (f1, e1) = collectCPU w run look (new_facts w sid ''linux_host'');
              (f2, e2) = collectDisks w run look f1;
              (f3, e3) = collectNICs w run look f2;
              errs = List.map_filter (\<lambda>e. e) [e1, e2, e3]
          in (Some f3, if errs = [] then None else Some (''linux host collector: '' @ Join errs ''; '')))"


section \<open>Each step on its own\<close>

text \<open>A step changes one section of the facts, and what it makes of it does not depend on the others.\<close>

lemma collectCPU_local:
  "sf_CPU f = sf_CPU g \<Longrightarrow> sf_CPU (fst (collectCPU w run look f)) = sf_CPU (fst (collectCPU w run look g))"
  "snd (collectCPU w run look f) = snd (collectCPU w run look g)"
  "sf_Disks (fst (collectCPU w run look f)) = sf_Disks f"
  "sf_NICs (fst (collectCPU w run look f)) = sf_NICs f"
  "sf_ServerID (fst (collectCPU w run look f)) = sf_ServerID f"
  "sf_Source (fst (collectCPU w run look f)) = sf_Source f"
  "snd (collectCPU w run look f) \<noteq> None \<Longrightarrow> fst (collectCPU w run look f) = f"
  by (simp_all add: collectCPU_def split: sum.splits)

lemma collectDisks_local:
  "sf_Disks f = sf_Disks g \<Longrightarrow> sf_Disks (fst (collectDisks w run look f)) = sf_Disks (fst (collectDisks w run look g))"
  "snd (collectDisks w run look f) = snd (collectDisks w run look g)"
  "sf_CPU (fst (collectDisks w run look f)) = sf_CPU f"
  "sf_NICs (fst (collectDisks w run look f)) = sf_NICs f"
  "sf_ServerID (fst (collectDisks w run look f)) = sf_ServerID f"
  "sf_Source (fst (collectDisks w run look f)) = sf_Source f"
  "snd (collectDisks w run look f) \<noteq> None \<Longrightarrow> fst (collectDisks w run look f) = f"
  by (simp_all add: collectDisks_def split: sum.splits)

lemma collectNICs_local:
  "sf_NICs f = sf_NICs g \<Longrightarrow> sf_NICs (fst (collectNICs w run look f)) = sf_NICs (fst (collectNICs w run look g))"
  "snd (collectNICs w run look f) = snd (collectNICs w run look g)"
  "sf_CPU (fst (collectNICs w run look f)) = sf_CPU f"
  "sf_Disks (fst (collectNICs w run look f)) = sf_Disks f"
  "sf_ServerID (fst (collectNICs w run look f)) = sf_ServerID f"
  "sf_Source (fst (collectNICs w run look f)) = sf_Source f"
  "snd (collectNICs w run look f) \<noteq> None \<Longrightarrow> fst (collectNICs w run look f) = f"
  by (simp_all add: collectNICs_def split: sum.splits)

lemma steps_keep:
  "sf_PowerState (fst (collectCPU w run look f)) = sf_PowerState f"
  "sf_Provisioning (fst (collectCPU w run look f)) = sf_Provisioning f"
  "sf_FailureDomain (fst (collectCPU w run look f)) = sf_FailureDomain f"
  "sf_PowerState (fst (collectDisks w run look f)) = sf_PowerState f"
  "sf_Provisioning (fst (collectDisks w run look f)) = sf_Provisioning f"
  "sf_FailureDomain (fst (collectDisks w run look f)) = sf_FailureDomain f"
  "sf_PowerState (fst (collectNICs w run look f)) = sf_PowerState f"
  "sf_Provisioning (fst (collectNICs w run look f)) = sf_Provisioning f"
  "sf_FailureDomain (fst (collectNICs w run look f)) = sf_FailureDomain f"
  by (simp_all add: collectCPU_def collectDisks_def collectNICs_def Let_def split: sum.splits)

lemma linux_host_collect_eq:
  assumes "cf_Runner c = Some run"
  shows "linux_host_collect c w sid =
    (let look = lookPath w c;
         r1 = collectCPU w run look (new_facts w sid ''linux_host'');
         r2 = collectDisks w run look (fst r1);
         r3 = collectNICs w run look (fst r2);
         errs = List.map_filter (\<lambda>e. e) [snd r1, snd r2, snd r3]
     in (Some (fst r3), if errs = [] then None else Some (''linux host collector: '' @ Join errs ''; '')))"
  using assms by (simp add: linux_host_collect_def Let_def case_prod_unfold)

interpretation linux_host: hardware_collector linux_host_collect "[''linux_host'']"
proof unfold_locales
  fix c w sid
  show "\<exists>f e. linux_host_collect c w sid = (Some f, e) \<and> sf_ServerID f = sid \<and> sf_Source f \<in> set [''linux_host'']"
  proof (cases "cf_Runner c")
    case None
    then show ?thesis by (simp add: linux_host_collect_def)
  next
    case (Some run)
    from linux_host_collect_eq [OF this, of w sid] show ?thesis
      by (simp add: Let_def collectCPU_local collectDisks_local collectNICs_local)
  qed
next
  fix c w sid f e
  assume r: "linux_host_collect c w sid = (Some f, e)"
  show "sf_PowerState f = [] \<and> sf_Provisioning f = [] \<and> sf_FailureDomain f = []"
  proof (cases "cf_Runner c")
    case None
    with r show ?thesis by (auto simp: linux_host_collect_def zero_facts_def)
  next
    case (Some run)
    from linux_host_collect_eq [OF this, of w sid] r show ?thesis
      by (auto simp: Let_def steps_keep)
  qed
qed simp


section \<open>Reading what the tools print\<close>

text \<open>The documents of lscpu, lsblk and ip, as the tools write them.\<close>

definition lscpu_doc :: "(string \<times> string) list \<Rightarrow> json" where
  "lscpu_doc entries =
     JObj [(''lscpu'', JArr (map (\<lambda>(k, v). JObj [(''field'', jstr k), (''data'', jstr v)]) entries))]"

text \<open>Old versions of util-linux write lsblk's numbers as strings, newer ones as numbers.\<close>

definition lsblk_doc :: "bool \<Rightarrow> lsblkDevice list \<Rightarrow> json" where
  "lsblk_doc old devs =
     JObj [(''blockdevices'', JArr (map (\<lambda>d. JObj
       [(''name'', jstr (ld_Name d)), (''type'', jstr (ld_Type d)),
        (''size'', if old then jstr (Itoa (ld_Size d)) else jint (ld_Size d)),
        (''rota'', if old then jstr (if ld_Rota d then ''1'' else ''0'') else JBool (ld_Rota d))]) devs))]"

lemma host_names:
  "list_all json_name [''field'', ''data'', ''lscpu'', ''blockdevices'', ''name'', ''type'', ''size'', ''rota'']"
  by code_simp

lemmas host_name_facts = host_names [unfolded list.pred_inject]

lemma own_field_other: "\<forall>kv\<in>set kvs. \<not> key_is name (fst kv) \<Longrightarrow>
    foldl (\<lambda>acc (k, v). if key_is name k then (case acc of None \<Rightarrow> None | Some _ \<Rightarrow> dec v) else acc) acc kvs = acc"
  by (induction kvs) auto

lemma Itoa_bare: "list_all (\<lambda>c. c \<in> set bare_chars) (Itoa n)"
proof -
  have "CHR ''-'' \<in> set bare_chars" by (simp add: bare_chars_def)
  then show ?thesis
    using nat_str_digits [of n] nat_str_digits [of "- n"] digit_bare by (auto simp: Itoa_def list_all_iff)
qed

lemma bare_not_quote: "list_all (\<lambda>c. c \<in> set bare_chars) s \<Longrightarrow> CHR 0x22 \<notin> set s"
proof -
  have "CHR 0x22 \<notin> set bare_chars" by code_simp
  then show "list_all (\<lambda>c. c \<in> set bare_chars) s \<Longrightarrow> CHR 0x22 \<notin> set s"
    by (auto simp: list_all_iff)
qed

lemma TrimByte_quoted:
  assumes "CHR 0x22 \<notin> set s"
  shows "TrimByte (CHR 0x22 # s @ [CHR 0x22]) (CHR 0x22) = s"
proof (cases "s = []")
  case False
  have "dropWhile (\<lambda>x. x = CHR 0x22) (s @ [CHR 0x22]) = s @ [CHR 0x22]"
    using False assms by (cases s) auto
  moreover have "dropWhile (\<lambda>x. x = CHR 0x22) (rev s) = rev s"
    using False assms by (cases "rev s") auto
  ultimately show ?thesis
    by (simp add: TrimByte_def TrimRightByte_def)
qed (simp add: TrimByte_def TrimRightByte_def)

lemma raw_text_bare: "list_all (\<lambda>c. c \<in> set bare_chars) s \<Longrightarrow> raw_text (jstr s) = s"
  by (simp add: raw_text_def jstr_def quote_bare TrimByte_quoted bare_not_quote)

lemma Itoa_head: "Itoa n = c # cs \<Longrightarrow> c = CHR ''-'' \<or> is_digit c"
  using nat_str_hd [of n] by (cases "nat_str n") (auto simp: Itoa_def split: if_splits)

lemma flexInt_both:
  assumes "in_int64 n"
  shows "flexInt (jint n) = Some n" and "flexInt (jstr (Itoa n)) = Some n"
proof -
  have "Itoa n \<noteq> []"
    by (simp add: Itoa_def)
  moreover have "Itoa n \<noteq> ''null''"
    using Itoa_head [of n "CHR ''n''" "''ull''"] by (auto simp: is_digit_def)
  moreover have "raw_text (jint n) = Itoa n"
    by (simp add: raw_text_def jint_def)
  ultimately show "flexInt (jint n) = Some n" "flexInt (jstr (Itoa n)) = Some n"
    using assms by (simp_all add: flexInt_def raw_text_bare [OF Itoa_bare] Atoi_Itoa)
qed

lemma flexBool_both:
  "flexBool (JBool b) = Some b" "flexBool (jstr (if b then ''1'' else ''0'')) = Some b"
proof -
  have "list_all (\<lambda>c. c \<in> set bare_chars) ''1''" "list_all (\<lambda>c. c \<in> set bare_chars) ''0''"
    by code_simp+
  then show "flexBool (JBool b) = Some b" "flexBool (jstr (if b then ''1'' else ''0'')) = Some b"
    by (cases b; simp add: flexBool_def raw_text_bare; simp add: raw_text_def)+
qed

lemma own_field_lookup:
  assumes "json_name name" and "names_ok kvs"
  shows "own_field name dec z kvs = (case map_of kvs name of None \<Rightarrow> Some z | Some v \<Rightarrow> dec v)"
  using assms(2)
proof (induction kvs)
  case Nil
  then show ?case by (simp add: own_field_def)
next
  case (Cons kv kvs)
  obtain k v where kv: "kv = (k, v)" by fastforce
  have k: "json_name k" and ok: "names_ok kvs" and fresh: "k \<notin> fst ` set kvs"
    using Cons.prems by (simp_all add: names_ok_def kv)
  have names: "json_name (fst x)" if "x \<in> set kvs" for x
    using ok that by (auto simp: names_ok_def list_all_iff)
  show ?case
  proof (cases "k = name")
    case True
    with fresh names assms(1) have "\<forall>x\<in>set kvs. \<not> key_is name (fst x)"
      by (auto simp: key_is_name)
    with True assms(1) show ?thesis
      by (simp add: own_field_def kv key_is_name own_field_other)
  next
    case False
    with k assms(1) Cons.IH [OF ok] show ?thesis
      by (simp add: own_field_def kv key_is_name)
  qed
qed

definition device_ok :: "lsblkDevice \<Rightarrow> bool" where
  "device_ok d \<longleftrightarrow> valid_utf8 (ld_Name d) \<and> valid_utf8 (ld_Type d) \<and> in_int64 (ld_Size d)"

lemma dec_lsblk_device_doc:
  assumes "device_ok d"
  shows "dec_lsblk_device (JObj [(''name'', jstr (ld_Name d)), (''type'', jstr (ld_Type d)),
        (''size'', if old then jstr (Itoa (ld_Size d)) else jint (ld_Size d)),
        (''rota'', if old then jstr (if ld_Rota d then ''1'' else ''0'') else JBool (ld_Rota d))]) = Some d"
proof -
  have size: "flexInt (if old then jstr (Itoa (ld_Size d)) else jint (ld_Size d)) = Some (ld_Size d)"
    using flexInt_both assms by (simp add: device_ok_def)
  have rota: "flexBool (if old then jstr (if ld_Rota d then ''1'' else ''0'') else JBool (ld_Rota d)) = Some (ld_Rota d)"
    using flexBool_both [of "ld_Rota d"] by simp
  show ?thesis
    using assms host_name_facts
    by (simp add: dec_lsblk_device_def as_object_def field_lookup own_field_lookup names_ok_def device_ok_def
        dec_string_jstr size rota del: if_split)
qed

lemma json_ok_flex:
  "json_ok (if old then jstr s else jint n)" "json_ok (if old then jstr s else JBool b)"
  by simp_all

lemma lsblk_doc_ok: "json_ok (lsblk_doc old devs)"
  using host_name_facts
  by (simp add: lsblk_doc_def list_all_iff str_ok_name json_ok_flex del: if_split)

lemma dec_lsblk_doc: "list_all device_ok devs \<Longrightarrow> dec_lsblk (lsblk_doc old devs) = Some devs"
proof -
  assume "list_all device_ok devs"
  then have "dec_slice dec_lsblk_device (JArr (map (\<lambda>d. JObj
       [(''name'', jstr (ld_Name d)), (''type'', jstr (ld_Type d)),
        (''size'', if old then jstr (Itoa (ld_Size d)) else jint (ld_Size d)),
        (''rota'', if old then jstr (if ld_Rota d then ''1'' else ''0'') else JBool (ld_Rota d))]) devs)) = Some devs"
    by (simp add: dec_slice_def as_array_def dec_all_map dec_lsblk_device_doc list_all_iff del: if_split)
  then show ?thesis
    using host_name_facts by (simp add: dec_lsblk_def lsblk_doc_def as_object_def field_lookup names_ok_def del: if_split)
qed

lemma foldl_add_disk:
  "foldl add_disk acc devs = acc @ map (\<lambda>d. \<lparr>disk_Name = ld_Name d, disk_Type = diskType (ld_Name d) (ld_Rota d),
     disk_SizeGB = quot (ld_Size d) (1024 * 1024 * 1024), disk_Rotational = ld_Rota d\<rparr>) (filter (\<lambda>d. ld_Type d = ''disk'') devs)"
  by (induction devs arbitrary: acc) (simp_all add: add_disk_def)

lemma dec_lscpu_doc:
  assumes "list_all (\<lambda>(k, v). valid_utf8 k \<and> valid_utf8 v) entries"
  shows "dec_lscpu (lscpu_doc entries) = Some entries"
proof -
  have "dec_lscpu_entry (JObj [(''field'', jstr (fst e)), (''data'', jstr (snd e))]) = Some e" if "e \<in> set entries" for e
    using assms that host_name_facts
    by (auto simp: dec_lscpu_entry_def as_object_def field_lookup names_ok_def dec_string_jstr list_all_iff)
  then have "dec_slice dec_lscpu_entry (JArr (map (\<lambda>(k, v). JObj [(''field'', jstr k), (''data'', jstr v)]) entries)) = Some entries"
    by (simp add: dec_slice_def as_array_def dec_all_map case_prod_unfold)
  then show ?thesis
    using host_name_facts by (simp add: dec_lscpu_def lscpu_doc_def as_object_def field_lookup names_ok_def)
qed

lemma lscpu_doc_ok: "json_ok (lscpu_doc entries)"
  using host_name_facts by (auto simp: lscpu_doc_def list_all_iff str_ok_name)


section \<open>Properties of the host collector\<close>

text \<open>
  C31. The host collector degrades section by section: it always returns facts; the CPU, the disks
  and the interfaces are each what their own tool gives, whatever happens to the other two; a
  section whose tool is missing, fails or prints something else than its document is left at
  its zero value; and the error is nil exactly when no section failed.
\<close>

theorem host_sections:
  assumes "cf_Runner c = Some run"
  shows "\<exists>f e. linux_host_collect c w sid = (Some f, e)
    \<and> sf_ServerID f = sid
    \<and> sf_CPU f = (case tool_json w run (lookPath w c) ''lscpu'' [''-J''] dec_lscpu of
          Inl _ \<Rightarrow> zero_cpu | Inr entries \<Rightarrow> fill_cpu (lscpu_fields entries) zero_cpu)
    \<and> sf_Disks f = (case tool_json w run (lookPath w c) ''lsblk'' [''-J'', ''-b'', ''-o'', ''NAME,TYPE,SIZE,ROTA''] dec_lsblk of
          Inl _ \<Rightarrow> [] | Inr devs \<Rightarrow> foldl add_disk [] devs)
    \<and> sf_NICs f = (case tool_json w run (lookPath w c) ''ip'' [''-j'', ''link''] (dec_slice dec_ip_link) of
          Inl _ \<Rightarrow> []
        | Inr links \<Rightarrow> map (nic_of w run (requireCommand (lookPath w c) ''ethtool'' = None))
                         (filter (\<lambda>l. il_LinkType l = ''ether'') links))
    \<and> (e = None \<longleftrightarrow>
          (\<exists>x. tool_json w run (lookPath w c) ''lscpu'' [''-J''] dec_lscpu = Inr x)
        \<and> (\<exists>x. tool_json w run (lookPath w c) ''lsblk'' [''-J'', ''-b'', ''-o'', ''NAME,TYPE,SIZE,ROTA''] dec_lsblk = Inr x)
        \<and> (\<exists>x. tool_json w run (lookPath w c) ''ip'' [''-j'', ''link''] (dec_slice dec_ip_link) = Inr x))"
proof -
  let ?look = "lookPath w c"
  define r1 where "r1 = collectCPU w run ?look (new_facts w sid ''linux_host'')"
  define r2 where "r2 = collectDisks w run ?look (fst r1)"
  define r3 where "r3 = collectNICs w run ?look (fst r2)"
  define errs where "errs = List.map_filter (\<lambda>e. e) [snd r1, snd r2, snd r3]"
  have keep: "sf_CPU (fst r3) = sf_CPU (fst r1)" "sf_Disks (fst r3) = sf_Disks (fst r2)"
    "sf_Disks (fst r1) = []" "sf_NICs (fst r2) = []" "sf_ServerID (fst r3) = sid"
    by (simp_all add: r1_def r2_def r3_def collectCPU_local collectDisks_local collectNICs_local)
  have "linux_host_collect c w sid =
      (Some (fst r3), if errs = [] then None else Some (''linux host collector: '' @ Join errs ''; ''))"
    using linux_host_collect_eq [OF assms, of w sid] by (simp only: Let_def r1_def r2_def r3_def errs_def)
  moreover have "errs = [] \<longleftrightarrow> snd r1 = None \<and> snd r2 = None \<and> snd r3 = None"
    by (auto simp: errs_def map_filter_simps split: option.splits)
  moreover have "snd r1 = None \<longleftrightarrow> (\<exists>x. tool_json w run ?look ''lscpu'' [''-J''] dec_lscpu = Inr x)"
    "snd r2 = None \<longleftrightarrow> (\<exists>x. tool_json w run ?look ''lsblk'' [''-J'', ''-b'', ''-o'', ''NAME,TYPE,SIZE,ROTA''] dec_lsblk = Inr x)"
    "snd r3 = None \<longleftrightarrow> (\<exists>x. tool_json w run ?look ''ip'' [''-j'', ''link''] (dec_slice dec_ip_link) = Inr x)"
    by (simp_all add: r1_def r2_def r3_def collectCPU_def collectDisks_def collectNICs_def Let_def split: sum.splits)
  moreover have "sf_CPU (fst r1) = (case tool_json w run ?look ''lscpu'' [''-J''] dec_lscpu of
          Inl _ \<Rightarrow> zero_cpu | Inr entries \<Rightarrow> fill_cpu (lscpu_fields entries) zero_cpu)"
    by (simp add: r1_def collectCPU_def split: sum.splits)
  moreover have "sf_Disks (fst r2) = (case tool_json w run ?look ''lsblk'' [''-J'', ''-b'', ''-o'', ''NAME,TYPE,SIZE,ROTA''] dec_lsblk of
          Inl _ \<Rightarrow> [] | Inr devs \<Rightarrow> foldl add_disk [] devs)"
    using keep(3) by (simp add: r2_def collectDisks_def split: sum.splits)
  moreover have "sf_NICs (fst r3) = (case tool_json w run ?look ''ip'' [''-j'', ''link''] (dec_slice dec_ip_link) of
          Inl _ \<Rightarrow> []
        | Inr links \<Rightarrow> map (nic_of w run (requireCommand ?look ''ethtool'' = None))
                         (filter (\<lambda>l. il_LinkType l = ''ether'') links))"
    using keep(4) by (simp add: r3_def collectNICs_def Let_def split: sum.splits)
  ultimately show ?thesis
    using keep by simp
qed

text \<open>On a machine without any tool, the server is still reported, empty.\<close>

definition no_tools :: config where
  "no_tools = \<lparr>cf_Runner = Some (\<lambda>_ _. ([], None)), cf_LookPath = Some (\<lambda>_. Inl ''not in $PATH''), cf_SysRoot = []\<rparr>"

theorem host_sections_witness:
  "\<exists>f e. linux_host_collect no_tools bare_world ''srv'' = (Some f, Some e) \<and> sf_CPU f = zero_cpu \<and> sf_Disks f = []"
proof -
  have "cf_Runner no_tools = Some (\<lambda>_ _. ([], None))"
    by (simp add: no_tools_def)
  from host_sections [OF this, of bare_world "''srv''"] show ?thesis
    by (auto simp: no_tools_def lookPath_def tool_json_def tool_output_def requireCommand_def)
qed


definition two_devices :: "lsblkDevice list" where
  "two_devices = [\<lparr>ld_Name = ''nvme0n1'', ld_Type = ''disk'', ld_Size = 1920383410176, ld_Rota = False\<rparr>,
     \<lparr>ld_Name = ''sda1'', ld_Type = ''part'', ld_Size = 512, ld_Rota = True\<rparr>,
     \<lparr>ld_Name = ''sda'', ld_Type = ''disk'', ld_Size = 4000787030016, ld_Rota = True\<rparr>]"


lemma map_of_lscpu_fields:
  "map_of (lscpu_fields entries) = map_of (rev (map (\<lambda>(fld, dat). (TrimSuffix fld '':'', dat)) entries))"
proof -
  have "map_of (foldl (\<lambda>m (fld, dat). AList.update (TrimSuffix fld '':'') dat m) m entries)
      = map_of m ++ map_of (rev (map (\<lambda>(fld, dat). (TrimSuffix fld '':'', dat)) entries))" for m
    by (induction entries arbitrary: m) (auto simp: update_conv' map_add_def fun_eq_iff split: option.splits)
  then show ?thesis by (simp add: lscpu_fields_def)
qed

lemma lscpu_at:
  assumes "mset entries = mset es" and "distinct (map (\<lambda>e. TrimSuffix (fst e) '':'') es)" and "(fld, dat) \<in> set es"
  shows "at (lscpu_fields entries) (TrimSuffix fld '':'') = dat"
proof -
  let ?g = "\<lambda>(fld, dat). (TrimSuffix fld '':'', dat)"
  have "map fst (map ?g xs) = map (\<lambda>e. TrimSuffix (fst e) '':'') xs" for xs :: "(string \<times> string) list"
    by (auto simp: case_prod_unfold)
  moreover have "mset (map (\<lambda>e. TrimSuffix (fst e) '':'') entries) = mset (map (\<lambda>e. TrimSuffix (fst e) '':'') es)"
    using assms(1) by simp
  ultimately have "distinct (map fst (rev (map ?g entries)))"
    using assms(2) mset_eq_imp_distinct_iff by (metis distinct_rev rev_map)
  moreover have "(TrimSuffix fld '':'', dat) \<in> set (rev (map ?g entries))"
    using assms(1,3) mset_eq_setD [OF assms(1)] by force
  ultimately show ?thesis
    by (simp add: at_def map_of_lscpu_fields)
qed



end
