(* ===== verification/Hugepages.thy ===== *)
theory Hugepages
  imports Host
begin

text \<open>
  \<open>collectors/linux_hugepages.go\<close>: the pool counters of \<open>/proc/meminfo\<close>, the configured sizes of
  sysfs and the capabilities they stand for.
\<close>


section \<open>Sources\<close>

record hugepageSize =
  hp_SizeKB :: int
  hp_Nr :: int
  hp_Free :: int

text \<open>The cases of the switch: the name in the file and the key of the result.\<close>

definition meminfo_keys :: "(string \<times> string) list" where
  "meminfo_keys =
     [(''HugePages_Total'', ''total''), (''HugePages_Free'', ''free''), (''HugePages_Rsvd'', ''reserved''),
      (''HugePages_Surp'', ''surplus''), (''Hugepagesize'', ''default_size_kb'')]"

definition meminfo_line :: "(string, int) gomap \<Rightarrow> string \<Rightarrow> (string, int) gomap" where
  "meminfo_line out line =
     (case Cut line (CHR '':'') of
        (name, value, ok) \<Rightarrow>
          if \<not> ok then out
          else case Fields value of
            [] \<Rightarrow> out
          | v # _ \<Rightarrow>
              (case map_of meminfo_keys (TrimSpace name) of
                 None \<Rightarrow> out
               | Some key \<Rightarrow> AList.update key (atoiOrZero v) out))"

definition parseMeminfoHugepages :: "string \<Rightarrow> (string, int) gomap" where
  "parseMeminfoHugepages meminfo = foldl meminfo_line [] (Split meminfo (CHR 0x0A))"

text \<open>One directory entry of \<open>sys/kernel/mm/hugepages\<close>, when its name has the form of a size.\<close>

definition hugepage_entry :: "world \<Rightarrow> string \<Rightarrow> string \<times> bool \<Rightarrow> hugepageSize option" where
  "hugepage_entry w base e =
     (let name = fst e
      in if \<not> HasPrefix name ''hugepages-'' \<or> \<not> HasSuffix name ''kB'' then None
         else case Atoi (TrimSuffix (TrimPrefix name ''hugepages-'') ''kB'') of
           (kb, ok) \<Rightarrow>
             if \<not> ok then None
             else Some
               \<lparr>hp_SizeKB = kb,
                hp_Nr = from_file w (FilepathJoin [base, name, ''nr_hugepages'']) 0 (\<lambda>d. atoiOrZero (TrimSpace d)),
                hp_Free = from_file w (FilepathJoin [base, name, ''free_hugepages'']) 0 (\<lambda>d. atoiOrZero (TrimSpace d))\<rparr>)"

text \<open>The slice is nil when the directory is unreadable and when it holds no size.\<close>

definition readSysfsSizes :: "world \<Rightarrow> config \<Rightarrow> hugepageSize list" where
  "readSysfsSizes w c =
     (let base = FilepathJoin [root c, ''sys/kernel/mm/hugepages'']
      in case w_ReadDir w base of
           None \<Rightarrow> []
         | Some entries \<Rightarrow> List.map_filter (hugepage_entry w base) entries)"

definition dedupeStrings :: "string list \<Rightarrow> string list" where
  "dedupeStrings xs = (if xs = [] then [] else add_unseen [] [] xs)"


section \<open>Collect\<close>

definition size_json :: "hugepageSize \<Rightarrow> json" where
  "size_json s = JObj [(''size_kb'', jint (hp_SizeKB s)), (''nr'', jint (hp_Nr s)), (''free'', jint (hp_Free s))]"

text \<open>The loop over the sizes.\<close>

definition size_caps :: "int \<Rightarrow> string list \<Rightarrow> hugepageSize \<Rightarrow> string list" where
  "size_caps tot caps s =
     (let caps = (if hp_Nr s > 0 \<and> tot = 0 then caps @ [''hugepages''] else caps)
      in if hp_SizeKB s = 1048576 \<and> hp_Nr s > 0 then caps @ [''hugepages_1g''] else caps)"

definition hugepages_collect :: "config \<Rightarrow> world \<Rightarrow> Collector" where
  "hugepages_collect c w sid =
     (let f = new_facts w sid ''linux_hugepages'';
          meminfo = w_ReadFile w (FilepathJoin [root c, ''proc/meminfo'']);
          mi = (case meminfo of None \<Rightarrow> [] | Some data \<Rightarrow> parseMeminfoHugepages data);
          sizes = readSysfsSizes w c
      in if meminfo = None \<and> sizes = [] then
           (Some f, Some (''hugepages collector: neither proc/meminfo nor sys/kernel/mm/hugepages readable under '' @ root c))
         else
           let mapped = map (\<lambda>(k, v). (k, jint v)) mi @ (if sizes = [] then [] else [(''sizes'', JArr (map size_json sizes))]);
               tot = count_of mi ''total'';
               caps = foldl (size_caps tot) (if tot > 0 then [''hugepages''] else []) sizes
           in (Some ((set_raw ''hugepages'' (raw_json mapped) f)\<lparr>sf_Capabilities := dedupeStrings caps\<rparr>), None))"

interpretation hugepages: hardware_collector hugepages_collect "[''linux_hugepages'']"
  by unfold_locales (auto simp: hugepages_collect_def Let_def split: option.splits sum.splits prod.splits if_splits)


section \<open>Properties\<close>

lemma set_dedupeStrings [simp]: "set (dedupeStrings xs) = set xs"
  by (simp add: dedupeStrings_def add_unseen_set)

lemma distinct_dedupeStrings [simp]: "distinct (dedupeStrings xs)"
  by (simp add: dedupeStrings_def add_unseen_distinct)

lemma size_caps_iff:
  "x \<in> set (foldl (size_caps tot) caps sizes) \<longleftrightarrow> x \<in> set caps
     \<or> x = ''hugepages'' \<and> tot = 0 \<and> (\<exists>s\<in>set sizes. hp_Nr s > 0)
     \<or> x = ''hugepages_1g'' \<and> (\<exists>s\<in>set sizes. hp_SizeKB s = 1048576 \<and> hp_Nr s > 0)"
proof (induction sizes arbitrary: caps)
  case (Cons s sizes)
  have "x \<in> set (size_caps tot caps s) \<longleftrightarrow> x \<in> set caps
      \<or> x = ''hugepages'' \<and> tot = 0 \<and> hp_Nr s > 0
      \<or> x = ''hugepages_1g'' \<and> hp_SizeKB s = 1048576 \<and> hp_Nr s > 0"
    unfolding size_caps_def Let_def by (cases "hp_Nr s > 0"; cases "tot = 0"; cases "hp_SizeKB s = 1048576") (simp_all add: disj_ac)
  with Cons.IH [of "size_caps tot caps s"] show ?case
    unfolding foldl_Cons list.set bex_simps by blast
qed simp

text \<open>The last line of a counter wins; lines of other names have no effect.\<close>

lemma meminfo_line_value:
  assumes "word_ok n" and "CHR '':'' \<notin> set n" and "in_int64 v"
  shows "meminfo_line out (n @ '': '' @ Itoa v @ '' kB'') =
    (case map_of meminfo_keys n of None \<Rightarrow> out | Some key \<Rightarrow> AList.update key v out)"
proof -
  have "Cut (n @ '': '' @ Itoa v @ '' kB'') (CHR '':'') = (n, '' '' @ Itoa v @ '' kB'', True)"
    using Cut_found [OF assms(2), of "'' '' @ Itoa v @ '' kB''"] by simp
  moreover have "Fields ('' '' @ Itoa v @ '' kB'') = Itoa v # Fields ''kB''"
    using Fields_word_space [OF Itoa_word, of "CHR '' ''" v "''kB''"] by (simp add: Fields_space ascii_space_def)
  moreover have "TrimSpace n = n"
    using assms(1) by (intro TrimSpace_all_plain) (simp add: word_ok_def list_all_iff)
  ultimately show ?thesis
    using assms(3) by (simp add: meminfo_line_def atoiOrZero_Itoa cong: option.case_cong)
qed

text \<open>
  The hugepage capabilities are exactly what is reserved: \<open>hugepages\<close> is reported when
  \<open>/proc/meminfo\<close> counts a positive total, or counts none (unreadable, absent or zero) while some
  size of sysfs has pages; \<open>hugepages_1g\<close> when the 1 GiB size has pages; each at most once and
  nothing else. The collector fails only when both sources give nothing.
\<close>

lemma hugepage_capabilities:
  assumes "hugepages_collect c w sid = (Some f, e)"
    and "tot = from_file w (FilepathJoin [root c, ''proc/meminfo'']) 0 (\<lambda>d. count_of (parseMeminfoHugepages d) ''total'')"
  shows "distinct (sf_Capabilities f)
    \<and> (''hugepages'' \<in> set (sf_Capabilities f) \<longleftrightarrow> tot > 0 \<or> tot = 0 \<and> (\<exists>s\<in>set (readSysfsSizes w c). hp_Nr s > 0))
    \<and> (''hugepages_1g'' \<in> set (sf_Capabilities f) \<longleftrightarrow> (\<exists>s\<in>set (readSysfsSizes w c). hp_SizeKB s = 1048576 \<and> hp_Nr s > 0))
    \<and> set (sf_Capabilities f) \<subseteq> {''hugepages'', ''hugepages_1g''}
    \<and> (e = None \<longleftrightarrow> w_ReadFile w (FilepathJoin [root c, ''proc/meminfo'']) \<noteq> None \<or> readSysfsSizes w c \<noteq> [])"
proof (cases "w_ReadFile w (FilepathJoin [root c, ''proc/meminfo'']) = None \<and> readSysfsSizes w c = []")
  case True
  then show ?thesis
    using assms by (auto simp: hugepages_collect_def from_file_def)
next
  case False
  have tot: "tot = count_of (case w_ReadFile w (FilepathJoin [root c, ''proc/meminfo'']) of
      None \<Rightarrow> [] | Some data \<Rightarrow> parseMeminfoHugepages data) ''total''"
    by (simp add: assms(2) from_file_def split: option.split)
  have "sf_Capabilities f = dedupeStrings (foldl (size_caps tot) (if tot > 0 then [''hugepages''] else []) (readSysfsSizes w c))"
    and "e = None"
    using False assms(1) unfolding hugepages_collect_def Let_def tot [symmetric] by auto
  then have caps: "x \<in> set (sf_Capabilities f) \<longleftrightarrow> x = ''hugepages'' \<and> tot > 0
     \<or> x = ''hugepages'' \<and> tot = 0 \<and> (\<exists>s\<in>set (readSysfsSizes w c). hp_Nr s > 0)
     \<or> x = ''hugepages_1g'' \<and> (\<exists>s\<in>set (readSysfsSizes w c). hp_SizeKB s = 1048576 \<and> hp_Nr s > 0)" for x
    by (simp add: size_caps_iff)
  have "distinct (sf_Capabilities f)"
    by (simp only: \<open>sf_Capabilities f = _\<close> distinct_dedupeStrings)
  moreover have "set (sf_Capabilities f) \<subseteq> {''hugepages'', ''hugepages_1g''}"
    using caps by blast
  moreover have "''hugepages'' \<in> set (sf_Capabilities f) \<longleftrightarrow> tot > 0 \<or> tot = 0 \<and> (\<exists>s\<in>set (readSysfsSizes w c). hp_Nr s > 0)"
    unfolding caps by simp
  moreover have "''hugepages_1g'' \<in> set (sf_Capabilities f) \<longleftrightarrow> (\<exists>s\<in>set (readSysfsSizes w c). hp_SizeKB s = 1048576 \<and> hp_Nr s > 0)"
    unfolding caps by simp
  moreover have "e = None \<longleftrightarrow> w_ReadFile w (FilepathJoin [root c, ''proc/meminfo'']) \<noteq> None \<or> readSysfsSizes w c \<noteq> []"
    using \<open>e = None\<close> False by simp
  ultimately show ?thesis
    by (intro conjI)
qed

text \<open>A host that reserved two 1 GiB pages by sysfs, with no meminfo.\<close>

definition gig_world :: "world \<Rightarrow> world" where
  "gig_world w = w\<lparr>w_ReadFile := (\<lambda>p. if p = ''/sys/kernel/mm/hugepages/hugepages-1048576kB/nr_hugepages'' then Some (''2'' @ [CHR 0x0A]) else None),
     w_ReadDir := (\<lambda>p. if p = ''/sys/kernel/mm/hugepages'' then Some [(''hugepages-1048576kB'', True)] else None)\<rparr>"

lemma gig_sizes: "readSysfsSizes (gig_world w) (new_config w) = [\<lparr>hp_SizeKB = 1048576, hp_Nr = 2, hp_Free = 0\<rparr>]"
proof -
  have paths: "FilepathJoin [''/'', ''sys/kernel/mm/hugepages''] = ''/sys/kernel/mm/hugepages''"
    "FilepathJoin [''/sys/kernel/mm/hugepages'', ''hugepages-1048576kB'', ''nr_hugepages''] = ''/sys/kernel/mm/hugepages/hugepages-1048576kB/nr_hugepages''"
    "FilepathJoin [''/sys/kernel/mm/hugepages'', ''hugepages-1048576kB'', ''free_hugepages''] = ''/sys/kernel/mm/hugepages/hugepages-1048576kB/free_hugepages''"
    by code_simp+
  have "HasPrefix ''hugepages-1048576kB'' ''hugepages-'' \<and> HasSuffix ''hugepages-1048576kB'' ''kB''
      \<and> Atoi (TrimSuffix (TrimPrefix ''hugepages-1048576kB'' ''hugepages-'') ''kB'') = (1048576, True)
      \<and> atoiOrZero (TrimSpace (''2'' @ [CHR 0x0A])) = 2"
    by code_simp
  then show ?thesis
    by (simp add: readSysfsSizes_def root_def new_config_def gig_world_def paths hugepage_entry_def from_file_def map_filter_simps)
qed

lemma hugepage_capabilities_example:
  "\<exists>f. hugepages_collect (new_config bare_world) (gig_world bare_world) ''srv'' = (Some f, None)
     \<and> set (sf_Capabilities f) = {''hugepages'', ''hugepages_1g''}"
proof -
  obtain f e where f: "hugepages_collect (new_config bare_world) (gig_world bare_world) ''srv'' = (Some f, e)"
    using hugepages.reports [of "new_config bare_world" "gig_world bare_world" "''srv''"] by blast
  have "from_file (gig_world bare_world) (FilepathJoin [root (new_config bare_world), ''proc/meminfo'']) 0
      (\<lambda>d. count_of (parseMeminfoHugepages d) ''total'') = 0"
  proof -
    have "FilepathJoin [''/'', ''proc/meminfo''] = ''/proc/meminfo''" by code_simp
    then show ?thesis by (simp add: from_file_def gig_world_def root_def new_config_def)
  qed
  from hugepage_capabilities [OF f, OF this [symmetric]] f gig_sizes [of bare_world] show ?thesis
    by auto
qed

definition meminfo_text :: "(string \<times> int) list \<Rightarrow> string" where
  "meminfo_text kvs = Join (map (\<lambda>(n, v). n @ '': '' @ Itoa v @ '' kB'') kvs) [CHR 0x0A]"

definition meminfo_entry_ok :: "string \<times> int \<Rightarrow> bool" where
  "meminfo_entry_ok e \<longleftrightarrow> word_ok (fst e) \<and> CHR '':'' \<notin> set (fst e) \<and> in_int64 (snd e)"

lemma meminfo_text_lines:
  assumes "kvs \<noteq> []" and "list_all meminfo_entry_ok kvs"
  shows "Split (meminfo_text kvs) (CHR 0x0A) = map (\<lambda>(n, v). n @ '': '' @ Itoa v @ '' kB'') kvs"
proof -
  have "CHR 0x0A \<notin> set u" if "word_ok u" for u
    using that by (auto simp: word_ok_def list_all_iff plain_char_def)
  then show ?thesis
    using assms Itoa_word unfolding meminfo_text_def
    by (intro Split_Join) (auto simp: list_all_iff meminfo_entry_ok_def)
qed

lemma meminfo_key_unique:
  assumes "(name, key) \<in> set meminfo_keys"
  shows "map_of meminfo_keys n = Some key \<longleftrightarrow> n = name"
proof
  have d: "distinct (map fst meminfo_keys)" "distinct (map snd meminfo_keys)"
    by (simp_all add: meminfo_keys_def)
  show "map_of meminfo_keys n = Some key" if "n = name"
    using d(1) assms that by simp
  show "n = name" if "map_of meminfo_keys n = Some key"
  proof -
    have "(n, key) \<in> set meminfo_keys"
      using that by (rule map_of_SomeD)
    with assms have "(n, key) = (name, key)"
      using d(2) by (metis (no_types, lifting) distinct_map inj_onD snd_conv)
    then show ?thesis by simp
  qed
qed

lemma meminfo_fold:
  assumes "list_all meminfo_entry_ok kvs" and "(name, key) \<in> set meminfo_keys"
  shows "map_of (foldl meminfo_line m (map (\<lambda>(n, v). n @ '': '' @ Itoa v @ '' kB'') kvs)) key =
    (case map_of (rev kvs) name of None \<Rightarrow> map_of m key | Some v \<Rightarrow> Some v)"
  using assms(1)
proof (induction kvs arbitrary: m)
  case (Cons e kvs)
  obtain n v where e: "e = (n, v)" by fastforce
  have ok: "word_ok n" "CHR '':'' \<notin> set n" "in_int64 v"
    using Cons.prems by (simp_all add: e meminfo_entry_ok_def)
  have step: "map_of (meminfo_line m (n @ '': '' @ Itoa v @ '' kB'')) key = (if n = name then Some v else map_of m key)"
    unfolding meminfo_line_value [OF ok]
    using meminfo_key_unique [OF assms(2), of n]
    by (cases "map_of meminfo_keys n") (auto simp: update_conv')
  have "map_of (foldl meminfo_line m (map (\<lambda>(n, v). n @ '': '' @ Itoa v @ '' kB'') (e # kvs))) key =
      (case map_of (rev kvs) name of None \<Rightarrow> map_of (meminfo_line m (n @ '': '' @ Itoa v @ '' kB'')) key | Some v \<Rightarrow> Some v)"
    using Cons by (simp add: e cong: option.case_cong)
  then show ?case
    unfolding step by (auto simp: e map_add_def split: option.split)
qed simp

text \<open>
  The counters survive printing: of a meminfo text made of lines \<open>name: value kB\<close> each of
  the five counters is the value of the last line of its name, and a counter without a line is
  absent.
\<close>

lemma meminfo_counters:
  assumes "kvs \<noteq> []" and "list_all meminfo_entry_ok kvs" and "(name, key) \<in> set meminfo_keys"
  shows "map_of (parseMeminfoHugepages (meminfo_text kvs)) key = map_of (rev kvs) name"
  unfolding parseMeminfoHugepages_def meminfo_text_lines [OF assms(1,2)] meminfo_fold [OF assms(2,3)]
  by (simp split: option.split)

end
