(* ===== verification/Iommu.thy ===== *)
theory Iommu
  imports Host
begin

text \<open>
  \<open>collectors/linux_iommu.go\<close>: the groups and units of the kernel's IOMMU and the boot parameters
  that shape it.
\<close>

definition iommuCmdlinePrefixes :: "string list" where
  "iommuCmdlinePrefixes = [''intel_iommu='', ''amd_iommu='', ''iommu='', ''iommu.passthrough='', ''iommu.strict='']"

text \<open>The loop over the tokens of the command line: the flags kept, and whether passthrough is set.\<close>

definition cmdline_token :: "string list \<times> bool \<Rightarrow> string \<Rightarrow> string list \<times> bool" where
  "cmdline_token st tok =
     (case st of (flags, passthrough) \<Rightarrow>
        (foldl (\<lambda>fs prefix. if HasPrefix tok prefix then fs @ [tok] else fs) flags iommuCmdlinePrefixes,
         if tok = ''iommu=pt'' \<or> tok = ''iommu.passthrough=1'' then True else passthrough))"

definition iommu_groups :: "world \<Rightarrow> config \<Rightarrow> int" where
  "iommu_groups w c =
     (case w_ReadDir w (FilepathJoin [root c, ''sys/kernel/iommu_groups'']) of
        None \<Rightarrow> 0
      | Some entries \<Rightarrow> foldl (\<lambda>n e. if snd e then wrap64 (n + 1) else n) 0 entries)"

definition iommu_cmdline :: "world \<Rightarrow> config \<Rightarrow> string list \<times> bool" where
  "iommu_cmdline w c =
     (case w_ReadFile w (FilepathJoin [root c, ''proc/cmdline'']) of
        None \<Rightarrow> ([], False)
      | Some data \<Rightarrow> foldl cmdline_token ([], False) (Fields data))"

definition iommu_collect :: "config \<Rightarrow> world \<Rightarrow> Collector" where
  "iommu_collect c w sid =
     (let f = new_facts w sid ''linux_iommu'';
          groups_dir = w_ReadDir w (FilepathJoin [root c, ''sys/kernel/iommu_groups'']);
          groups = iommu_groups w c;
          units_dir = w_ReadDir w (FilepathJoin [root c, ''sys/class/iommu'']);
          unit_names = (case units_dir of None \<Rightarrow> [] | Some entries \<Rightarrow> map fst entries);
          cmdline = w_ReadFile w (FilepathJoin [root c, ''proc/cmdline'']);
          (flags, passthrough) = iommu_cmdline w c
      in if groups_dir = None \<and> units_dir = None \<and> cmdline = None then
           (Some f, Some (''iommu collector: no IOMMU-related sources readable under '' @ root c))
         else
           let mapped = [(''groups'', jint groups)]
                 @ (if unit_names = [] then [] else [(''units'', JArr (map jstr unit_names))])
                 @ (if flags = [] then [] else [(''cmdline_flags'', JArr (map jstr flags))]);
               caps = (if groups > 0 then ''iommu'' # (if passthrough then [''iommu_passthrough''] else []) else [])
           in (Some ((set_raw ''iommu'' (raw_json mapped) f)\<lparr>sf_Capabilities := caps\<rparr>), None))"

interpretation iommu: hardware_collector iommu_collect "[''linux_iommu'']"
  by unfold_locales (auto simp: iommu_collect_def Let_def split: option.splits sum.splits prod.splits if_splits)

text \<open>Passthrough is what some token of the command line asks for.\<close>

lemma cmdline_fold:
  "snd (foldl cmdline_token st ts) \<longleftrightarrow> snd st \<or> ''iommu=pt'' \<in> set ts \<or> ''iommu.passthrough=1'' \<in> set ts"
proof (induction ts arbitrary: st)
  case (Cons t ts)
  have "snd (cmdline_token st t) \<longleftrightarrow> snd st \<or> t = ''iommu=pt'' \<or> t = ''iommu.passthrough=1''"
    by (simp add: cmdline_token_def split: prod.split)
  with Cons.IH show ?case
    unfolding foldl_Cons list.set by blast
qed simp

text \<open>
  The capability is the populated group directory, never the command line alone, and passthrough
  needs both.
\<close>

lemma iommu_capabilities:
  assumes "iommu_collect c w sid = (Some f, e)"
  shows "(''iommu'' \<in> set (sf_Capabilities f) \<longleftrightarrow> iommu_groups w c > 0)
    \<and> (''iommu_passthrough'' \<in> set (sf_Capabilities f) \<longleftrightarrow>
         iommu_groups w c > 0
         \<and> (\<exists>data. w_ReadFile w (FilepathJoin [root c, ''proc/cmdline'']) = Some data
              \<and> (''iommu=pt'' \<in> set (Fields data) \<or> ''iommu.passthrough=1'' \<in> set (Fields data))))"
proof -
  have pass: "snd (iommu_cmdline w c) \<longleftrightarrow>
      (\<exists>data. w_ReadFile w (FilepathJoin [root c, ''proc/cmdline'']) = Some data
              \<and> (''iommu=pt'' \<in> set (Fields data) \<or> ''iommu.passthrough=1'' \<in> set (Fields data)))"
    by (simp add: iommu_cmdline_def cmdline_fold split: option.split)
  have none: "iommu_groups w c = 0" if "w_ReadDir w (FilepathJoin [root c, ''sys/kernel/iommu_groups'']) = None"
    using that by (simp add: iommu_groups_def)
  have "sf_Capabilities f =
      (if iommu_groups w c > 0 then ''iommu'' # (if snd (iommu_cmdline w c) then [''iommu_passthrough''] else []) else [])"
    using assms none by (cases "iommu_cmdline w c") (auto simp: iommu_collect_def Let_def split: if_splits)
  then show ?thesis
    unfolding pass [symmetric] by simp
qed

end
