(* ===== verification/Tee.thy ===== *)
theory Tee
  imports Host
begin

text \<open>
  \<open>collectors/linux_tee.go\<close>: which trusted-execution features the CPU advertises and the kernel
  enabled.
\<close>


section \<open>Sources\<close>

text \<open>The flags of the first \<open>flags\<close> line of \<open>/proc/cpuinfo\<close>; a set as the list of its members.\<close>

fun first_flags :: "string list \<Rightarrow> string list" where
  "first_flags [] = []"
| "first_flags (line # ls) =
     (case Cut line (CHR '':'') of
        (name, value, ok) \<Rightarrow> if \<not> ok \<or> TrimSpace name \<noteq> ''flags'' then first_flags ls else Fields value)"

definition cpuinfoFlagSet :: "string \<Rightarrow> string list" where
  "cpuinfoFlagSet cpuinfo = first_flags (Split cpuinfo (CHR 0x0A))"

definition parseBoolParam :: "string \<Rightarrow> bool" where
  "parseBoolParam v = (let s = TrimSpace v in s = ''Y'' \<or> s = ''y'' \<or> s = ''1'')"

definition tee_flags :: "world \<Rightarrow> config \<Rightarrow> string list option" where
  "tee_flags w c = map_option cpuinfoFlagSet (w_ReadFile w (FilepathJoin [root c, ''proc/cpuinfo'']))"

definition kvm_param :: "world \<Rightarrow> config \<Rightarrow> string list \<Rightarrow> bool option" where
  "kvm_param w c path = map_option parseBoolParam (w_ReadFile w (FilepathJoin (root c # path)))"

text \<open>The map \<open>kvmParams\<close>: the parameters whose file could be read.\<close>

definition kvm_params :: "world \<Rightarrow> config \<Rightarrow> (string, bool) gomap" where
  "kvm_params w c =
     List.map_filter (\<lambda>p. map_option (Pair p) (kvm_param w c [''sys/module/kvm_amd/parameters'', p])) [''sev'', ''sev_es'', ''sev_snp'']
     @ List.map_filter (\<lambda>p. map_option (Pair p) (kvm_param w c [''sys/module/kvm_intel/parameters/tdx''])) [''tdx'']"

definition tee_device_paths :: "string list" where
  "tee_device_paths = [''dev/sev'', ''dev/sev-guest'', ''dev/tdx_guest'', ''dev/sgx_enclave'']"

definition tee_devices :: "world \<Rightarrow> config \<Rightarrow> string list" where
  "tee_devices w c = map ((#) (CHR ''/'')) (filter (\<lambda>d. w_Stat w (FilepathJoin [root c, d]) = None) tee_device_paths)"


section \<open>Capabilities\<close>

definition sevEnabled :: "string list \<Rightarrow> (string, bool) gomap \<Rightarrow> string \<Rightarrow> string \<Rightarrow> bool" where
  "sevEnabled flags params flag param \<longleftrightarrow>
     (if flag \<notin> set flags then False else case map_of params param of Some v \<Rightarrow> v | None \<Rightarrow> True)"

definition tee_caps :: "string list \<Rightarrow> (string, bool) gomap \<Rightarrow> string list \<Rightarrow> string list" where
  "tee_caps flags params devices =
     (let caps = cap_if [] ''sev'' (sevEnabled flags params ''sev'' ''sev'');
          caps = cap_if caps ''sev_es'' (sevEnabled flags params ''sev_es'' ''sev_es'');
          caps = cap_if caps ''sev_snp'' (sevEnabled flags params ''sev_snp'' ''sev_snp'');
          caps = cap_if caps ''tdx''
            (map_of params ''tdx'' = Some True \<or> ''tdx_guest'' \<in> set flags \<or> ''/dev/tdx_guest'' \<in> set devices);
          caps = cap_if caps ''sgx'' (''sgx'' \<in> set flags)
      in if caps \<noteq> [] then caps @ [''tee_capable''] else caps)"

definition tee_flag_names :: "string list" where
  "tee_flag_names = [''sme'', ''sev'', ''sev_es'', ''sev_snp'', ''tdx_guest'', ''sgx'', ''sgx_lc'']"

text \<open>The list of devices is written in the order a \<open>range\<close> loop visits the map.\<close>

definition tee_collect :: "config \<Rightarrow> world \<Rightarrow> Collector" where
  "tee_collect c w sid =
     (let f = new_facts w sid ''linux_tee'';
          flags = (case tee_flags w c of None \<Rightarrow> [] | Some fs \<Rightarrow> fs);
          params = kvm_params w c;
          devices = tee_devices w c
      in if tee_flags w c = None \<and> params = [] \<and> devices = [] then
           (Some f, Some (''tee collector: no TEE-related sources readable under '' @ root c))
         else
           let mapped =
                 (if flags = [] then []
                  else [(''cpu_flags'', enc_slice jstr (filter (\<lambda>n. n \<in> set flags) tee_flag_names))])
                 @ (if params = [] then [] else [(''kvm_params'', raw_json (map (\<lambda>(k, b). (k, JBool b)) params))])
                 @ (if devices = [] then [] else [(''devices'', JArr (map jstr (w_map_order w devices)))])
           in (Some (set_raw ''tee'' (raw_json mapped) (f\<lparr>sf_Capabilities := tee_caps flags params devices\<rparr>)), None))"

interpretation tee: hardware_collector tee_collect "[''linux_tee'']"
  by unfold_locales (auto simp: tee_collect_def Let_def split: option.splits sum.splits prod.splits if_splits)


section \<open>Properties\<close>

definition tee_features :: "string list \<Rightarrow> (string, bool) gomap \<Rightarrow> string list \<Rightarrow> string \<Rightarrow> bool" where
  "tee_features flags params devices x \<longleftrightarrow>
     x = ''sev'' \<and> sevEnabled flags params ''sev'' ''sev''
     \<or> x = ''sev_es'' \<and> sevEnabled flags params ''sev_es'' ''sev_es''
     \<or> x = ''sev_snp'' \<and> sevEnabled flags params ''sev_snp'' ''sev_snp''
     \<or> x = ''tdx'' \<and> (map_of params ''tdx'' = Some True \<or> ''tdx_guest'' \<in> set flags \<or> ''/dev/tdx_guest'' \<in> set devices)
     \<or> x = ''sgx'' \<and> ''sgx'' \<in> set flags"

lemma tee_caps_iff:
  "x \<in> set (tee_caps flags params devices) \<longleftrightarrow>
     tee_features flags params devices x \<or> x = ''tee_capable'' \<and> (\<exists>y. tee_features flags params devices y)"
proof -
  define sev es snp tdx sgx where
    "sev = sevEnabled flags params ''sev'' ''sev''" and "es = sevEnabled flags params ''sev_es'' ''sev_es''"
    and "snp = sevEnabled flags params ''sev_snp'' ''sev_snp''"
    and "tdx = (map_of params ''tdx'' = Some True \<or> ''tdx_guest'' \<in> set flags \<or> ''/dev/tdx_guest'' \<in> set devices)"
    and "sgx = (''sgx'' \<in> set flags)"
  define caps where "caps = cap_if (cap_if (cap_if (cap_if (cap_if [] ''sev'' sev) ''sev_es'' es) ''sev_snp'' snp) ''tdx'' tdx) ''sgx'' sgx"
  have feat: "tee_features flags params devices y \<longleftrightarrow> y \<in> set caps" for y
    unfolding tee_features_def caps_def set_cap_if sev_def [symmetric] es_def [symmetric] snp_def [symmetric]
      tdx_def [symmetric] sgx_def [symmetric]
    by (simp only: list.set empty_iff simp_thms disj_assoc)
  have "tee_caps flags params devices = (if caps \<noteq> [] then caps @ [''tee_capable''] else caps)"
    unfolding tee_caps_def Let_def caps_def sev_def es_def snp_def tdx_def sgx_def ..
  then show ?thesis
    unfolding feat by (cases caps) (simp_all, blast)
qed


text \<open>A host whose CPU advertises SEV and SNP but whose kernel turned SNP off.\<close>

definition sev_world :: "world \<Rightarrow> world" where
  "sev_world w = w\<lparr>w_Stat := (\<lambda>_. Some ''no such file''),
     w_ReadFile := (\<lambda>p. if p = ''/proc/cpuinfo'' then Some (''processor : 0'' @ [CHR 0x0A] @ ''flags : fpu sev sev_snp'')
        else if p = ''/sys/module/kvm_amd/parameters/sev_snp'' then Some ''N'' else None)\<rparr>"

lemma sev_world_sources:
  "tee_flags (sev_world w) (new_config w) = Some [''fpu'', ''sev'', ''sev_snp'']"
  "kvm_params (sev_world w) (new_config w) = [(''sev_snp'', False)]"
  "tee_devices (sev_world w) (new_config w) = []"
proof -
  have paths: "FilepathJoin [''/'', ''proc/cpuinfo''] = ''/proc/cpuinfo''"
    "FilepathJoin [''/'', ''sys/module/kvm_amd/parameters'', ''sev''] = ''/sys/module/kvm_amd/parameters/sev''"
    "FilepathJoin [''/'', ''sys/module/kvm_amd/parameters'', ''sev_es''] = ''/sys/module/kvm_amd/parameters/sev_es''"
    "FilepathJoin [''/'', ''sys/module/kvm_amd/parameters'', ''sev_snp''] = ''/sys/module/kvm_amd/parameters/sev_snp''"
    "FilepathJoin [''/'', ''sys/module/kvm_intel/parameters/tdx''] = ''/sys/module/kvm_intel/parameters/tdx''"
    by code_simp+
  have "cpuinfoFlagSet (''processor : 0'' @ [CHR 0x0A] @ ''flags : fpu sev sev_snp'') = [''fpu'', ''sev'', ''sev_snp'']"
    and "parseBoolParam ''N'' = False"
    by code_simp+
  then show "tee_flags (sev_world w) (new_config w) = Some [''fpu'', ''sev'', ''sev_snp'']"
    "kvm_params (sev_world w) (new_config w) = [(''sev_snp'', False)]"
    "tee_devices (sev_world w) (new_config w) = []"
    by (simp_all add: tee_flags_def kvm_params_def kvm_param_def tee_devices_def sev_world_def root_def new_config_def
        paths map_filter_simps)
qed


end
