(* ===== verification/Kernel_Facts.thy ===== *)
theory Kernel_Facts
  imports Host
begin

text \<open>
  \<open>collectors/linux_kernel.go\<close> and \<open>collectors/linux_smbios.go\<close>: release, boot command line,
  loaded modules and sysctls of the kernel, and the DMI identity of the server.
\<close>


section \<open>Kernel\<close>

definition interestingModules :: "string list" where
  "interestingModules =
     [''vfio'', ''vfio_pci'', ''ib_core'', ''ib_uverbs'', ''rdma_ucm'', ''mlx5_core'', ''mlx5_ib'', ''kvm_amd'',
      ''kvm_intel'', ''bonding'', ''openvswitch'', ''wireguard'']"

definition interestingSysctls :: "string list" where
  "interestingSysctls =
     [''net/core/busy_poll'', ''net/core/busy_read'', ''net/core/rmem_max'', ''net/core/wmem_max'',
      ''net/core/netdev_max_backlog'']"

text \<open>The set of names that are followed by a space on some line.\<close>

definition module_of :: "string \<Rightarrow> string option" where
  "module_of line = (case Cut line (CHR '' '') of (name, _, ok) \<Rightarrow> if ok \<and> name \<noteq> [] then Some name else None)"

definition parseLoadedModules :: "string \<Rightarrow> string list" where
  "parseLoadedModules data = List.map_filter module_of (Split data (CHR 0x0A))"

definition kernel_release :: "world \<Rightarrow> config \<Rightarrow> string option" where
  "kernel_release w c =
     (case cf_Runner c of
        None \<Rightarrow> None
      | Some run \<Rightarrow>
          if requireCommand (lookPath w c) ''uname'' \<noteq> None then None
          else case run ''uname'' [''-r''] of (out, None) \<Rightarrow> Some (TrimSpace out) | (_, Some e) \<Rightarrow> None)"

definition kernel_cmdline :: "world \<Rightarrow> config \<Rightarrow> string option" where
  "kernel_cmdline w c = map_option TrimSpace (w_ReadFile w (FilepathJoin [root c, ''proc/cmdline'']))"

definition kernel_modules :: "world \<Rightarrow> config \<Rightarrow> string list option" where
  "kernel_modules w c =
     map_option (\<lambda>data. filter (\<lambda>m. m \<in> set (parseLoadedModules data)) interestingModules)
       (w_ReadFile w (FilepathJoin [root c, ''proc/modules'']))"

definition kernel_sysctls :: "world \<Rightarrow> config \<Rightarrow> (string, string) gomap" where
  "kernel_sysctls w c =
     List.map_filter (\<lambda>s. map_option (\<lambda>data. (ReplaceByte s (CHR ''/'') (CHR ''.''), TrimSpace data))
       (w_ReadFile w (FilepathJoin [root c, ''proc/sys'', s]))) interestingSysctls"

definition opt_entry :: "string \<Rightarrow> ('a \<Rightarrow> json) \<Rightarrow> 'a option \<Rightarrow> (string \<times> json) list" where
  "opt_entry k enc x = (case x of None \<Rightarrow> [] | Some v \<Rightarrow> [(k, enc v)])"

definition kernel_collect :: "config \<Rightarrow> world \<Rightarrow> Collector" where
  "kernel_collect c w sid =
     (let f = new_facts w sid ''linux_kernel'';
          release = kernel_release w c;
          cmdline = kernel_cmdline w c;
          modules = kernel_modules w c;
          sysctls = kernel_sysctls w c;
          present = (case modules of None \<Rightarrow> [] | Some ms \<Rightarrow> ms)
      in if release = None \<and> cmdline = None \<and> modules = None \<and> sysctls = [] then
           (Some f, Some (''kernel collector: no kernel sources readable under '' @ root c))
         else
           let mapped = opt_entry ''release'' jstr release @ opt_entry ''cmdline'' jstr cmdline
                 @ (if present = [] then [] else [(''modules'', JArr (map jstr present))])
                 @ (if sysctls = [] then [] else [(''sysctls'', raw_json (map (\<lambda>(k, v). (k, jstr v)) sysctls))])
           in (Some ((set_raw ''kernel'' (raw_json mapped) f)
                 \<lparr>sf_Capabilities := (if ''vfio_pci'' \<in> set present then [''vfio''] else [])\<rparr>), None))"

interpretation kernel: hardware_collector kernel_collect "[''linux_kernel'']"
  by unfold_locales (auto simp: kernel_collect_def Let_def split: option.splits sum.splits prod.splits if_splits)

lemma kernel_vfio:
  assumes "kernel_collect c w sid = (Some f, e)"
  shows "sf_Capabilities f =
    (if \<exists>data. w_ReadFile w (FilepathJoin [root c, ''proc/modules'']) = Some data \<and> ''vfio_pci'' \<in> set (parseLoadedModules data)
     then [''vfio''] else [])"
proof -
  have "''vfio_pci'' \<in> set interestingModules"
    by (simp add: interestingModules_def)
  then have "''vfio_pci'' \<in> set (case kernel_modules w c of None \<Rightarrow> [] | Some ms \<Rightarrow> ms) \<longleftrightarrow>
      (\<exists>data. w_ReadFile w (FilepathJoin [root c, ''proc/modules'']) = Some data \<and> ''vfio_pci'' \<in> set (parseLoadedModules data))"
    by (cases "w_ReadFile w (FilepathJoin [root c, ''proc/modules''])") (simp_all add: kernel_modules_def)
  moreover have "sf_Capabilities f = (if ''vfio_pci'' \<in> set (case kernel_modules w c of None \<Rightarrow> [] | Some ms \<Rightarrow> ms) then [''vfio''] else [])"
    using assms by (auto simp: kernel_collect_def Let_def split: if_splits)
  ultimately show ?thesis by simp
qed


section \<open>SMBIOS\<close>

definition dmiFields :: "string list" where
  "dmiFields =
     [''sys_vendor'', ''product_name'', ''product_serial'', ''product_uuid'', ''board_vendor'', ''board_name'',
      ''bios_vendor'', ''bios_version'', ''bios_date'', ''chassis_type'']"

definition chassisTypeNames :: "(int, string) gomap" where
  "chassisTypeNames =
     [(1, ''Other''), (2, ''Unknown''), (3, ''Desktop''), (4, ''Low Profile Desktop''), (5, ''Pizza Box''),
      (6, ''Mini Tower''), (7, ''Tower''), (8, ''Portable''), (9, ''Laptop''), (10, ''Notebook''),
      (11, ''Hand Held''), (12, ''Docking Station''), (13, ''All In One''), (14, ''Sub Notebook''),
      (15, ''Space-saving''), (16, ''Lunch Box''), (17, ''Main Server Chassis''), (18, ''Expansion Chassis''),
      (19, ''Sub Chassis''), (20, ''Bus Expansion Chassis''), (21, ''Peripheral Chassis''), (22, ''RAID Chassis''),
      (23, ''Rack Mount Chassis''), (24, ''Sealed-case PC''), (25, ''Multi-system Chassis''), (26, ''Compact PCI''),
      (27, ''Advanced TCA''), (28, ''Blade''), (29, ''Blade Enclosure''), (30, ''Tablet''), (31, ''Convertible''),
      (32, ''Detachable''), (33, ''IoT Gateway''), (34, ''Embedded PC''), (35, ''Mini PC''), (36, ''Stick PC'')]"

text \<open>The readable, non-empty fields of the DMI directory.\<close>

definition dmi_fields :: "world \<Rightarrow> string \<Rightarrow> (string, string) gomap" where
  "dmi_fields w dir =
     List.map_filter (\<lambda>fld.
       case w_ReadFile w (FilepathJoin [dir, fld]) of
         None \<Rightarrow> None
       | Some data \<Rightarrow> if TrimSpace data = [] then None else Some (fld, TrimSpace data)) dmiFields"

definition chassis_name :: "(string, string) gomap \<Rightarrow> string option" where
  "chassis_name dmi =
     (case map_of dmi ''chassis_type'' of
        None \<Rightarrow> None
      | Some ct \<Rightarrow> (case Atoi ct of (n, ok) \<Rightarrow> if ok then map_of chassisTypeNames n else None))"

definition smbios_collect :: "config \<Rightarrow> world \<Rightarrow> Collector" where
  "smbios_collect c w sid =
     (let f = new_facts w sid ''linux_smbios'';
          dir = FilepathJoin [root c, ''sys/class/dmi/id'']
      in case w_Stat w dir of
           Some e \<Rightarrow> (Some f, Some (''smbios collector: '' @ dir @ '' not readable: '' @ e))
         | None \<Rightarrow>
             let dmi = dmi_fields w dir;
                 named = dmi @ (case chassis_name dmi of None \<Rightarrow> [] | Some n \<Rightarrow> [(''chassis_type_name'', n)])
             in if named = [] then (Some f, Some (''smbios collector: no readable fields under '' @ dir))
                else (Some (set_raw ''dmi'' (raw_json (map (\<lambda>(k, v). (k, jstr v)) named)) f), None))"

interpretation smbios: hardware_collector smbios_collect "[''linux_smbios'']"
  by unfold_locales (auto simp: smbios_collect_def Let_def split: option.splits sum.splits prod.splits if_splits)

text \<open>Unreadable fields are skipped, one by one; the chassis name is that of the type's number.\<close>

lemma dmi_fields_lookup:
  "map_of (dmi_fields w dir) fld =
     (if fld \<in> set dmiFields then
        (case w_ReadFile w (FilepathJoin [dir, fld]) of
           None \<Rightarrow> None | Some data \<Rightarrow> if TrimSpace data = [] then None else Some (TrimSpace data))
      else None)"
proof -
  have "map_of (List.map_filter (\<lambda>k. case h k of None \<Rightarrow> None | Some d \<Rightarrow> if g d = [] then None else Some (k, g d)) ks) fld =
      (if fld \<in> set ks then (case h fld of None \<Rightarrow> None | Some d \<Rightarrow> if g d = [] then None else Some (g d)) else None)"
    for h :: "string \<Rightarrow> string option" and g :: "string \<Rightarrow> string" and ks
    by (induction ks) (auto simp: map_filter_simps split: option.splits)
  then show ?thesis
    unfolding dmi_fields_def .
qed

end
