(* ===== verification/Nvme.thy ===== *)
theory Nvme
  imports Host
begin

text \<open>\<open>collectors/linux_nvme.go\<close>: the identity of the NVMe namespaces, from nvme-cli.\<close>

record nvmeDevice =
  nv_DevicePath :: string
  nv_Model :: string
  nv_Firmware :: string
  nv_Serial :: string
  nv_SizeGB :: int

definition dec_nvme_device :: "nvmeDevice decoder" where
  "dec_nvme_device v =
     do { kvs \<leftarrow> as_object v;
          p \<leftarrow> field ''DevicePath'' dec_string [] kvs;
          m \<leftarrow> field ''ModelNumber'' dec_string [] kvs;
          fw \<leftarrow> field ''Firmware'' dec_string [] kvs;
          s \<leftarrow> field ''SerialNumber'' dec_string [] kvs;
          n \<leftarrow> field ''PhysicalSize'' dec_int 0 kvs;
          Some \<lparr>nv_DevicePath = p, nv_Model = m, nv_Firmware = fw, nv_Serial = s,
                nv_SizeGB = quot n (1000 * 1000 * 1000)\<rparr> }"

definition dec_nvme_list :: "nvmeDevice list decoder" where
  "dec_nvme_list v =
     do { kvs \<leftarrow> as_object v;
          field ''Devices'' (dec_slice dec_nvme_device) [] kvs }"

definition nvme_json :: "nvmeDevice \<Rightarrow> json" where
  "nvme_json d = JObj
     [(''device_path'', jstr (nv_DevicePath d)), (''model'', jstr (nv_Model d)), (''firmware'', jstr (nv_Firmware d)),
      (''serial'', jstr (nv_Serial d)), (''size_gb'', jint (nv_SizeGB d))]"

definition nvme_collect :: "config \<Rightarrow> world \<Rightarrow> Collector" where
  "nvme_collect c w sid =
     (let f = new_facts w sid ''linux_nvme''
      in case cf_Runner c of
           None \<Rightarrow> (Some f, Some ''nvme collector: no CommandRunner configured'')
         | Some run \<Rightarrow>
             (case tool_output run (lookPath w c) ''nvme'' [''list'', ''-o'', ''json''] of
                Inl e \<Rightarrow> (Some f, Some (''nvme collector: '' @ e))
              | Inr out \<Rightarrow>
                  (case unmarshal w dec_nvme_list out of
                     Inl e \<Rightarrow> (Some f, Some (''nvme collector: parsing nvme list: '' @ e))
                   | Inr devices \<Rightarrow>
                       if devices = [] then (Some f, None)
                       else (Some (set_raw ''nvme'' (JArr (map nvme_json devices)) f), None))))"

interpretation nvme: hardware_collector nvme_collect "[''linux_nvme'']"
  by unfold_locales (auto simp: nvme_collect_def Let_def split: option.splits sum.splits prod.splits if_splits)

end
