(* ===== verification/Lldp.thy ===== *)
theory Lldp
  imports Host
begin

text \<open>
  \<open>collectors/linux_lldp.go\<close>: the switch neighbours lldpd knows, and the failure domain they hint
  at. The document is decoded into untyped maps; where the code ranges over such a map the order
  is the runtime's.
\<close>


section \<open>The document\<close>

record lldpNeighbor =
  ln_LocalPort :: string
  ln_ChassisName :: string
  ln_ChassisDescr :: string
  ln_MgmtIP :: string
  ln_PortID :: string
  ln_PortDescr :: string

text \<open>
  Type assertions on an untyped value: \<open>map[string]any\<close>, \<open>[]any\<close> and \<open>string\<close>. The maps of
  a document that decodes have unquotable keys, the last of equal keys counting.
\<close>

definition any_map :: "json \<Rightarrow> (string, json) gomap option" where
  "any_map v = (case v of JObj kvs \<Rightarrow> dec_entries Some kvs [] | _ \<Rightarrow> None)"

definition any_list :: "json \<Rightarrow> json list option" where
  "any_list v = (case v of JArr vs \<Rightarrow> Some vs | _ \<Rightarrow> None)"

definition any_string :: "json option \<Rightarrow> string" where
  "any_string v = (case v of Some (JStr r) \<Rightarrow> (case unquote r of None \<Rightarrow> [] | Some s \<Rightarrow> s) | _ \<Rightarrow> [])"

definition sub_map :: "json option \<Rightarrow> (string, json) gomap option" where
  "sub_map v = (case v of None \<Rightarrow> None | Some j \<Rightarrow> any_map j)"

definition asObjectList :: "json option \<Rightarrow> (string, json) gomap list" where
  "asObjectList v =
     (case v of
        None \<Rightarrow> []
      | Some j \<Rightarrow>
          (case any_map j of
             Some m \<Rightarrow> [m]
           | None \<Rightarrow> (case any_list j of Some vs \<Rightarrow> List.map_filter any_map vs | None \<Rightarrow> [])))"

text \<open>The chassis: the first entry the loop visits, if any.\<close>

definition mgmt_ip :: "json option \<Rightarrow> string" where
  "mgmt_ip v =
     (case v of
        Some (JStr r) \<Rightarrow> any_string v
      | Some (JArr (x # _)) \<Rightarrow> any_string (Some x)
      | _ \<Rightarrow> [])"

definition add_chassis :: "world \<Rightarrow> (string, json) gomap \<Rightarrow> lldpNeighbor \<Rightarrow> lldpNeighbor" where
  "add_chassis w entry n =
     (case sub_map (map_of entry ''chassis'') of
        None \<Rightarrow> n
      | Some wrap \<Rightarrow>
          (case range_map w wrap of
             [] \<Rightarrow> n
           | (name, cv) # _ \<Rightarrow>
               (case any_map cv of
                  None \<Rightarrow> n\<lparr>ln_ChassisName := name\<rparr>
                | Some cm \<Rightarrow> n\<lparr>ln_ChassisName := name, ln_ChassisDescr := any_string (map_of cm ''descr''),
                              ln_MgmtIP := mgmt_ip (map_of cm ''mgmt-ip'')\<rparr>)))"

definition add_port_ids :: "(string, json) gomap \<Rightarrow> lldpNeighbor \<Rightarrow> lldpNeighbor" where
  "add_port_ids entry n =
     (case sub_map (map_of entry ''port'') of
        None \<Rightarrow> n
      | Some port \<Rightarrow>
          let n = n\<lparr>ln_PortDescr := any_string (map_of port ''descr'')\<rparr>
          in case sub_map (map_of port ''id'') of
               None \<Rightarrow> n
             | Some pid \<Rightarrow> n\<lparr>ln_PortID := any_string (map_of pid ''value'')\<rparr>)"

definition neighbor_of :: "world \<Rightarrow> string \<times> json \<Rightarrow> lldpNeighbor option" where
  "neighbor_of w kv =
     (case any_map (snd kv) of
        None \<Rightarrow> None
      | Some entry \<Rightarrow>
          Some (add_port_ids entry (add_chassis w entry
            \<lparr>ln_LocalPort = fst kv, ln_ChassisName = [], ln_ChassisDescr = [], ln_MgmtIP = [], ln_PortID = [], ln_PortDescr = []\<rparr>)))"

text \<open>A document that is \<open>null\<close> decodes to a nil map.\<close>

definition parseLldpctlJSON :: "world \<Rightarrow> string \<Rightarrow> string + lldpNeighbor list" where
  "parseLldpctlJSON w out =
     (case unmarshal w (dec_map Some) out of
        Inl e \<Rightarrow> Inl e
      | Inr doc \<Rightarrow>
          (case sub_map (map_of doc ''lldp'') of
             None \<Rightarrow> Inr []
           | Some lldp \<Rightarrow>
               Inr (concat (map (\<lambda>obj. List.map_filter (neighbor_of w) (range_map w obj)) (asObjectList (map_of lldp ''interface''))))))"


section \<open>The failure domain\<close>

text \<open>The loop over the neighbours, with its early exit: the chassis so far, and whether it is single.\<close>

fun single_chassis :: "string \<Rightarrow> lldpNeighbor list \<Rightarrow> string \<times> bool" where
  "single_chassis chassis [] = (chassis, True)"
| "single_chassis chassis (n # ns) =
     (if ln_ChassisName n = [] then single_chassis chassis ns
      else if chassis = [] then single_chassis (ln_ChassisName n) ns
      else if chassis \<noteq> ln_ChassisName n then (chassis, False)
      else single_chassis chassis ns)"

definition chassis_domain :: "lldpNeighbor list \<Rightarrow> string" where
  "chassis_domain ns =
     (case single_chassis [] ns of (chassis, single) \<Rightarrow> if single \<and> chassis \<noteq> [] then ''switch:'' @ chassis else [])"

definition neighbor_json :: "lldpNeighbor \<Rightarrow> json" where
  "neighbor_json n = JObj
     ([(''local_port'', jstr (ln_LocalPort n))]
      @ unless_empty (ln_ChassisName n = []) ''chassis_name'' (jstr (ln_ChassisName n))
      @ unless_empty (ln_ChassisDescr n = []) ''chassis_descr'' (jstr (ln_ChassisDescr n))
      @ unless_empty (ln_MgmtIP n = []) ''mgmt_ip'' (jstr (ln_MgmtIP n))
      @ unless_empty (ln_PortID n = []) ''port_id'' (jstr (ln_PortID n))
      @ unless_empty (ln_PortDescr n = []) ''port_descr'' (jstr (ln_PortDescr n)))"

definition lldp_collect :: "config \<Rightarrow> world \<Rightarrow> Collector" where
  "lldp_collect c w sid =
     (let f = new_facts w sid ''linux_lldp''
      in case cf_Runner c of
           None \<Rightarrow> (Some f, Some ''lldp collector: no CommandRunner configured'')
         | Some run \<Rightarrow>
             (case tool_output run (lookPath w c) ''lldpctl'' [''-f'', ''json''] of
                Inl e \<Rightarrow> (Some f, Some (''lldp collector: '' @ e))
              | Inr out \<Rightarrow>
                  (case parseLldpctlJSON w out of
                     Inl e \<Rightarrow> (Some f, Some (''lldp collector: '' @ e))
                   | Inr ns \<Rightarrow>
                       if ns = [] then (Some f, None)
                       else (Some ((set_raw ''lldp_neighbors'' (JArr (map neighbor_json ns)) f)
                              \<lparr>sf_FailureDomain := chassis_domain ns\<rparr>), None))))"

interpretation lldp: fact_collector lldp_collect "[''linux_lldp'']"
  by unfold_locales (auto simp: lldp_collect_def Let_def split: option.split sum.split)


section \<open>One switch or several\<close>

definition chassis_names :: "lldpNeighbor list \<Rightarrow> string set" where
  "chassis_names ns = ln_ChassisName ` set ns - {[]}"

lemma single_chassis_iff:
  "case single_chassis chassis ns of (r, single) \<Rightarrow>
     single = (\<exists>x. (set [chassis] - {[]}) \<union> chassis_names ns \<subseteq> {x})
     \<and> (single \<longrightarrow> (set [chassis] - {[]}) \<union> chassis_names ns = set [r] - {[]})"
proof (induction chassis ns rule: single_chassis.induct)
  case (1 chassis)
  then show ?case by (auto simp: chassis_names_def)
next
  case (2 chassis n ns)
  have names: "chassis_names (n # ns) = (if ln_ChassisName n = [] then {} else {ln_ChassisName n}) \<union> chassis_names ns"
    by (auto simp: chassis_names_def)
  show ?case
  proof (cases "ln_ChassisName n = []")
    case True
    with 2 show ?thesis by (simp add: names)
  next
    case named: False
    show ?thesis
    proof (cases "chassis = []")
      case True
      with 2 named show ?thesis by (simp add: names split: prod.splits)
    next
      case False
      then show ?thesis
        using 2 named by (cases "chassis = ln_ChassisName n") (auto simp: names split: prod.splits)
    qed
  qed
qed

lemma chassis_domain_iff:
  "(chassis_names ns = {x} \<longrightarrow> chassis_domain ns = ''switch:'' @ x)
   \<and> ((\<nexists>x. chassis_names ns = {x}) \<longrightarrow> chassis_domain ns = [])"
proof -
  obtain r single where s: "single_chassis [] ns = (r, single)"
    by fastforce
  have "single = (\<exists>x. chassis_names ns \<subseteq> {x})" and r: "single \<longrightarrow> chassis_names ns = set [r] - {[]}"
    using single_chassis_iff [of "[]" ns] by (simp_all add: s)
  then show ?thesis
    by (cases "r = []") (auto simp: chassis_domain_def s)
qed

section \<open>What lldpctl -f json prints\<close>

text \<open>
  A neighbour on a port. \<open>lldpctl\<close> prints the interfaces as a list of objects with one key each, or as
  one object, which is also how it prints a single one; a single management address is a string,
  several are a list.
\<close>

record lldp_peer =
  lp_port :: string
  lp_chassis :: string
  lp_descr :: string
  lp_mgmt :: "string list"
  lp_id :: string
  lp_portdescr :: string

definition jobj :: "(string \<times> json) list \<Rightarrow> json" where
  "jobj kvs = JObj (map (\<lambda>(k, v). (quote k, v)) kvs)"

definition mgmt_doc :: "string list \<Rightarrow> (string \<times> json) list" where
  "mgmt_doc ips =
     (case ips of [] \<Rightarrow> [] | [ip] \<Rightarrow> [(''mgmt-ip'', jstr ip)] | _ \<Rightarrow> [(''mgmt-ip'', JArr (map jstr ips))])"

definition peer_entry :: "lldp_peer \<Rightarrow> json" where
  "peer_entry p = jobj
     [(''via'', jstr ''LLDP''),
      (''chassis'', jobj [(lp_chassis p, jobj ((''descr'', jstr (lp_descr p)) # mgmt_doc (lp_mgmt p)))]),
      (''port'', jobj [(''id'', jobj [(''type'', jstr ''ifname''), (''value'', jstr (lp_id p))]),
                       (''descr'', jstr (lp_portdescr p))])]"

definition lldp_doc :: "bool \<Rightarrow> lldp_peer list \<Rightarrow> json" where
  "lldp_doc listed ps = jobj [(''lldp'', jobj [(''interface'',
     if listed then JArr (map (\<lambda>p. jobj [(lp_port p, peer_entry p)]) ps)
     else jobj (map (\<lambda>p. (lp_port p, peer_entry p)) ps))])]"

definition peer_ok :: "lldp_peer \<Rightarrow> bool" where
  "peer_ok p \<longleftrightarrow> list_all valid_utf8 ([lp_port p, lp_chassis p, lp_descr p, lp_id p, lp_portdescr p] @ lp_mgmt p)"

definition peer_neighbor :: "lldp_peer \<Rightarrow> lldpNeighbor" where
  "peer_neighbor p =
     \<lparr>ln_LocalPort = lp_port p, ln_ChassisName = lp_chassis p, ln_ChassisDescr = lp_descr p,
      ln_MgmtIP = (case lp_mgmt p of [] \<Rightarrow> [] | ip # _ \<Rightarrow> ip), ln_PortID = lp_id p, ln_PortDescr = lp_portdescr p\<rparr>"

lemma any_map_jobj:
  "distinct (map fst kvs) \<Longrightarrow> list_all (\<lambda>kv. valid_utf8 (fst kv)) kvs \<Longrightarrow> any_map (jobj kvs) = Some kvs"
  using dec_entries_new [of "[]" kvs] by (simp add: any_map_def jobj_def list_all_iff)

lemma any_string_jstr: "valid_utf8 s \<Longrightarrow> any_string (Some (jstr s)) = s"
  by (simp add: any_string_def jstr_def unquote_quote)

lemma json_ok_jobj: "json_ok (jobj kvs) \<longleftrightarrow> list_all (\<lambda>kv. json_ok (snd kv)) kvs"
  by (simp add: jobj_def list_all_iff case_prod_unfold str_ok_quote)

lemma mgmt_doc_ok: "list_all (\<lambda>kv. json_ok (snd kv) \<and> fst kv = ''mgmt-ip'') (mgmt_doc ips)"
  by (induction ips rule: induct_list012) (simp_all add: mgmt_doc_def list_all_iff)

lemma mgmt_read:
  "list_all valid_utf8 ips \<Longrightarrow> mgmt_ip (map_of (mgmt_doc ips) ''mgmt-ip'') = (case ips of [] \<Rightarrow> [] | ip # _ \<Rightarrow> ip)"
  using any_string_jstr by (induction ips rule: induct_list012) (simp_all add: mgmt_doc_def mgmt_ip_def jstr_def)

lemma lldp_doc_ok: "json_ok (lldp_doc listed ps)"
proof -
  have "json_ok (peer_entry p)" for p
    using mgmt_doc_ok [of "lp_mgmt p"] by (simp add: peer_entry_def json_ok_jobj list_all_iff)
  then show ?thesis
    by (simp add: lldp_doc_def json_ok_jobj list_all_iff)
qed

lemma range_map_single: "fair_order w \<Longrightarrow> range_map w [(k, v)] = [(k, v)]"
  using mset_single_iff [of "w_map_order w [k]" k] by (simp add: range_map_def fair_order_def map_filter_simps)

lemma lldp_key_names:
  "list_all valid_utf8 [''via'', ''chassis'', ''port'', ''id'', ''type'', ''value'', ''descr'', ''mgmt-ip'', ''lldp'', ''interface'']"
  by code_simp

lemma peer_read:
  assumes "fair_order w" and "peer_ok p"
  shows "neighbor_of w (lp_port p, peer_entry p) = Some (peer_neighbor p)"
proof -
  have utf: "valid_utf8 (lp_chassis p)" "valid_utf8 (lp_descr p)" "valid_utf8 (lp_id p)" "valid_utf8 (lp_portdescr p)"
    "list_all valid_utf8 (lp_mgmt p)"
    using assms(2) by (simp_all add: peer_ok_def)
  let ?chassis = "(''descr'', jstr (lp_descr p)) # mgmt_doc (lp_mgmt p)"
  have chassis: "any_map (jobj ?chassis) = Some ?chassis"
    using lldp_key_names by (intro any_map_jobj) (auto simp: mgmt_doc_def split: list.split)
  have wrap: "any_map (jobj [(lp_chassis p, jobj ?chassis)]) = Some [(lp_chassis p, jobj ?chassis)]"
    using utf(1) by (simp add: any_map_jobj)
  show ?thesis
    unfolding neighbor_of_def peer_entry_def
    using lldp_key_names utf(2-4)
    by (simp add: any_map_jobj add_chassis_def add_port_ids_def sub_map_def wrap chassis mgmt_read [OF utf(5)] range_map_single [OF assms(1)]
        any_string_jstr peer_neighbor_def Let_def)
qed

text \<open>Both shapes give the neighbours; the order within one object is the runtime's.\<close>

lemma lldp_read:
  assumes "fair_order w" and "list_all peer_ok ps" and "listed \<or> distinct (map lp_port ps)"
  shows "\<exists>ns. parseLldpctlJSON w (print_json (lldp_doc listed ps)) = Inr ns
    \<and> mset ns = mset (map peer_neighbor ps) \<and> (listed \<longrightarrow> ns = map peer_neighbor ps)"
proof -
  let ?shape = "if listed then JArr (map (\<lambda>p. jobj [(lp_port p, peer_entry p)]) ps) else jobj (map (\<lambda>p. (lp_port p, peer_entry p)) ps)"
  have port: "valid_utf8 (lp_port p)" if "p \<in> set ps" for p
    using that assms(2) by (simp add: list_all_iff peer_ok_def)
  have doc: "parseLldpctlJSON w (print_json (lldp_doc listed ps)) =
      Inr (concat (map (\<lambda>obj. List.map_filter (neighbor_of w) (range_map w obj)) (asObjectList (Some ?shape))))"
  proof -
    have "dec_map Some (jobj kvs) = any_map (jobj kvs)" for kvs
      by (simp add: dec_map_def any_map_def as_object_def jobj_def)
    then show ?thesis
      using lldp_key_names lldp_doc_ok [of listed ps]
      by (simp add: parseLldpctlJSON_def unmarshal_def parse_print lldp_doc_def any_map_jobj sub_map_def)
  qed
  show ?thesis
  proof (cases listed)
    case True
    have "concat (map (\<lambda>obj. List.map_filter (neighbor_of w) (range_map w obj))
        (List.map_filter any_map (map (\<lambda>p. jobj [(lp_port p, peer_entry p)]) ps))) = map peer_neighbor ps"
      using assms(2) port
      by (induction ps) (simp_all add: map_filter_simps any_map_jobj range_map_single [OF assms(1)] peer_read [OF assms(1)])
    then show ?thesis
      using True unfolding doc by (simp add: asObjectList_def any_map_def any_list_def)
  next
    case False
    let ?m = "map (\<lambda>p. (lp_port p, peer_entry p)) ps"
    have m: "any_map (jobj ?m) = Some ?m" and d: "distinct (map fst ?m)"
      using False assms(3) port by (auto intro!: any_map_jobj simp: list_all_iff comp_def)
    have "mset (List.map_filter (neighbor_of w) (range_map w ?m)) = mset (List.map_filter (neighbor_of w) ?m)"
      by (rule mset_map_filter_cong [OF mset_range_map [OF assms(1) d]])
    also have "List.map_filter (neighbor_of w) ?m = map peer_neighbor ps"
      using assms(2) by (induction ps) (simp_all add: map_filter_simps peer_read [OF assms(1)])
    finally show ?thesis
      using False unfolding doc by (simp add: asObjectList_def m)
  qed
qed


text \<open>Two ports to the same leaf, printed as one object, and a neighbour that names no chassis.\<close>

definition leaf_peers :: "lldp_peer list" where
  "leaf_peers = map (\<lambda>(p, ch, ips). \<lparr>lp_port = p, lp_chassis = ch, lp_descr = [], lp_mgmt = ips, lp_id = ''swp1'', lp_portdescr = []\<rparr>)
     [(''ens1'', ''leaf01'', [''10.0.0.11'']), (''ens2'', [], []), (''ens3'', ''leaf01'', [''10.0.0.11'', ''fd00::11''])]"


text \<open>A chassis or a port that is printed as a list is not read.\<close>

lemma listed_chassis_ignored:
  "map_of entry ''chassis'' = Some (JArr vs) \<Longrightarrow> add_chassis w entry n = n"
  "map_of entry ''port'' = Some (JArr vs) \<Longrightarrow> add_port_ids entry n = n"
  by (simp_all add: add_chassis_def add_port_ids_def sub_map_def any_map_def)

end
