(* ===== verification/Numa.thy ===== *)
theory Numa
  imports Host
begin

text \<open>
  \<open>collectors/linux_numa.go\<close>: the NUMA topology, from \<open>numactl --hardware\<close> or from sysfs. The
  numactl parser writes through pointers into a slice that \<open>append\<close> relocates; its backing arrays
  are modelled as an explicit store.
\<close>

record numaNode =
  nn_ID :: int
  nn_CPUs :: int
  nn_SizeMB :: int
  nn_FreeMB :: int

record numaTopology =
  nt_Nodes :: "numaNode list"
  nt_Distances :: "int list list"

definition new_node :: "int \<Rightarrow> numaNode" where
  "new_node i = \<lparr>nn_ID = i, nn_CPUs = 0, nn_SizeMB = 0, nn_FreeMB = 0\<rparr>"

definition node_json :: "numaNode \<Rightarrow> json" where
  "node_json n = JObj
     ([(''id'', jint (nn_ID n)), (''cpus'', jint (nn_CPUs n)), (''size_mb'', jint (nn_SizeMB n))]
      @ unless_empty (nn_FreeMB n = 0) ''free_mb'' (jint (nn_FreeMB n)))"

definition topology_json :: "numaTopology \<Rightarrow> json" where
  "topology_json t = JObj
     ((''nodes'', enc_slice node_json (nt_Nodes t))
      # unless_empty (nt_Distances t = []) ''distances'' (JArr (map (enc_slice jint) (nt_Distances t))))"


section \<open>numactl --hardware\<close>

text \<open>
  The arrays \<open>append\<close> allocated, oldest first, each with the elements written to it; the last one
  backs \<open>topo.Nodes\<close>. A pointer is the number of an array and an index into it.
\<close>

record numactl =
  nc_arrays :: "numaNode list list"
  nc_cap :: nat
  nc_nodesByID :: "(int, nat \<times> nat) gomap"
  nc_inDistances :: bool
  nc_Distances :: "int list list"

definition topo_nodes :: "numactl \<Rightarrow> numaNode list" where
  "topo_nodes st = (if nc_arrays st = [] then [] else last (nc_arrays st))"

definition append_node :: "(nat \<Rightarrow> nat) \<Rightarrow> numaNode \<Rightarrow> numactl \<Rightarrow> numactl" where
  "append_node grow n st =
     (let nodes = topo_nodes st
      in if length nodes < nc_cap st
         then st\<lparr>nc_arrays := butlast (nc_arrays st) @ [nodes @ [n]]\<rparr>
         else st\<lparr>nc_arrays := nc_arrays st @ [nodes @ [n]], nc_cap := grow (length nodes)\<rparr>)"

text \<open>The closure \<open>node\<close>: the pointer of a node, and the state with the node in it.\<close>

definition node_ptr :: "(nat \<Rightarrow> nat) \<Rightarrow> int \<Rightarrow> numactl \<Rightarrow> (nat \<times> nat) \<times> numactl" where
  "node_ptr grow i st =
     (case map_of (nc_nodesByID st) i of
        Some p \<Rightarrow> (p, st)
      | None \<Rightarrow>
          let st' = append_node grow (new_node i) st;
              p = (length (nc_arrays st') - 1, length (topo_nodes st') - 1)
          in (p, st'\<lparr>nc_nodesByID := AList.update i p (nc_nodesByID st')\<rparr>))"

definition write_ptr :: "nat \<times> nat \<Rightarrow> (numaNode \<Rightarrow> numaNode) \<Rightarrow> numactl \<Rightarrow> numactl" where
  "write_ptr p upd st =
     (let a = nc_arrays st ! fst p
      in st\<lparr>nc_arrays := (nc_arrays st)[fst p := a[snd p := upd (a ! snd p)]]\<rparr>)"

definition write_node :: "(nat \<Rightarrow> nat) \<Rightarrow> int \<times> (numaNode \<Rightarrow> numaNode) \<Rightarrow> numactl \<Rightarrow> numactl" where
  "write_node grow u st = (case node_ptr grow (fst u) st of (p, st') \<Rightarrow> write_ptr p (snd u) st')"

text \<open>What a line of the node section writes: the node's id and the field with its value.\<close>

definition node_line :: "string \<Rightarrow> (int \<times> (numaNode \<Rightarrow> numaNode)) option" where
  "node_line line =
     (if \<not> HasPrefix line ''node '' then None
      else let fs = Fields line
        in if length fs < 3 then None
           else case Atoi (fs ! 1) of (i, ok) \<Rightarrow>
             if \<not> ok then None
             else let key = TrimSuffix (fs ! 2) '':''
               in if key = ''cpus'' then Some (i, nn_CPUs_update (\<lambda>_. int (length fs) - 3))
                  else if key = ''size'' \<and> length fs \<ge> 4 then Some (i, nn_SizeMB_update (\<lambda>_. atoiOrZero (fs ! 3)))
                  else if key = ''free'' \<and> length fs \<ge> 4 then Some (i, nn_FreeMB_update (\<lambda>_. atoiOrZero (fs ! 3)))
                  else None)"

text \<open>The numbers of a distance row; fields that are not numbers are dropped.\<close>

definition number_of_field :: "string \<Rightarrow> int option" where
  "number_of_field s = (case Atoi s of (d, ok) \<Rightarrow> if ok then Some d else None)"

definition numbers :: "string \<Rightarrow> int list" where
  "numbers s = List.map_filter number_of_field (Fields s)"

definition distance_row :: "string \<Rightarrow> int list" where
  "distance_row line =
     (case Cut line (CHR '':'') of (i, rest, ok) \<Rightarrow>
        if \<not> ok \<or> \<not> snd (Atoi (TrimSpace i)) then [] else numbers rest)"

definition add_row :: "int list \<Rightarrow> int list list \<Rightarrow> int list list" where
  "add_row r rows = (if r = [] then rows else rows @ [r])"

definition numactl_line :: "(nat \<Rightarrow> nat) \<Rightarrow> numactl \<Rightarrow> string \<Rightarrow> numactl" where
  "numactl_line grow st raw =
     (let line = TrimSpace raw
      in if line = [] then st
         else if HasPrefix line ''node distances:'' then st\<lparr>nc_inDistances := True\<rparr>
         else if nc_inDistances st then st\<lparr>nc_Distances := add_row (distance_row line) (nc_Distances st)\<rparr>
         else (case node_line line of None \<Rightarrow> st | Some u \<Rightarrow> write_node grow u st))"

definition numactl_start :: numactl where
  "numactl_start = \<lparr>nc_arrays = [], nc_cap = 0, nc_nodesByID = [], nc_inDistances = False, nc_Distances = []\<rparr>"

definition parseNumactlHardware :: "(nat \<Rightarrow> nat) \<Rightarrow> string \<Rightarrow> numaTopology" where
  "parseNumactlHardware grow out =
     (let st = foldl (numactl_line grow) numactl_start (Split out (CHR 0x0A))
      in \<lparr>nt_Nodes = topo_nodes st, nt_Distances = nc_Distances st\<rparr>)"


section \<open>sysfs\<close>

text \<open>\<open>countCPUList\<close>\<close>

definition count_part :: "int \<Rightarrow> string \<Rightarrow> int" where
  "count_part n part =
     (case Cut part (CHR ''-'') of (lo, hi, isRange) \<Rightarrow>
        if \<not> isRange then wrap64 (n + 1)
        else case (Atoi (TrimSpace lo), Atoi (TrimSpace hi)) of ((a, okA), (b, okB)) \<Rightarrow>
          if \<not> okA \<or> \<not> okB \<or> b < a then n
          else wrap64 (n + wrap64 (wrap64 (b - a) + 1)))"

definition countCPUList :: "string \<Rightarrow> int" where
  "countCPUList list = (if list = [] then 0 else foldl count_part 0 (Split list (CHR '','')))"

fun meminfo_value :: "string \<Rightarrow> string list \<Rightarrow> int option" where
  "meminfo_value key (tok # next # rest) =
     (if HasPrefix tok key then Some (quot (atoiOrZero next) 1024) else meminfo_value key (next # rest))"
| "meminfo_value key _ = None"

fun node_meminfo :: "string \<Rightarrow> string list \<Rightarrow> int" where
  "node_meminfo key [] = 0"
| "node_meminfo key (line # lines) =
     (if \<not> Contains line (key @ '':'') then node_meminfo key lines
      else case meminfo_value key (Fields line) of Some v \<Rightarrow> v | None \<Rightarrow> node_meminfo key lines)"

definition parseNodeMeminfoMB :: "string \<Rightarrow> string \<Rightarrow> int" where
  "parseNodeMeminfoMB meminfo key = node_meminfo key (Split meminfo (CHR 0x0A))"

definition node_dir_id :: "string \<times> bool \<Rightarrow> int option" where
  "node_dir_id e =
     (if \<not> HasPrefix (fst e) ''node'' then None
      else number_of_field (TrimPrefix (fst e) ''node''))"

text \<open>The exchange sort of \<open>readSysfsTopology\<close>, both loops with the indices as written.\<close>

definition exchange :: "nat \<Rightarrow> int list \<Rightarrow> nat \<Rightarrow> int list" where
  "exchange i ids j = (if ids ! j < ids ! i then ids[i := ids ! j, j := ids ! i] else ids)"

definition exchange_sort :: "int list \<Rightarrow> int list" where
  "exchange_sort ids =
     foldl (\<lambda>ids i. foldl (exchange i) ids [Suc i..<length ids]) ids [0..<length ids]"

definition sysfs_node :: "world \<Rightarrow> string \<Rightarrow> int \<Rightarrow> numaNode" where
  "sysfs_node w nodeDir i =
     (let mem = w_ReadFile w (FilepathJoin [nodeDir, ''meminfo''])
      in \<lparr>nn_ID = i,
          nn_CPUs = from_file w (FilepathJoin [nodeDir, ''cpulist'']) 0 (\<lambda>data. countCPUList (TrimSpace data)),
          nn_SizeMB = (case mem of None \<Rightarrow> 0 | Some data \<Rightarrow> parseNodeMeminfoMB data ''MemTotal''),
          nn_FreeMB = (case mem of None \<Rightarrow> 0 | Some data \<Rightarrow> parseNodeMeminfoMB data ''MemFree'')\<rparr>)"

definition sysfs_step :: "world \<Rightarrow> string \<Rightarrow> numaTopology \<Rightarrow> int \<Rightarrow> numaTopology" where
  "sysfs_step w base t i =
     (let nodeDir = FilepathJoin [base, ''node'' @ Itoa i]
      in \<lparr>nt_Nodes = nt_Nodes t @ [sysfs_node w nodeDir i],
          nt_Distances = from_file w (FilepathJoin [nodeDir, ''distance'']) (nt_Distances t)
            (\<lambda>data. add_row (numbers data) (nt_Distances t))\<rparr>)"

definition readSysfsTopology :: "world \<Rightarrow> config \<Rightarrow> numaTopology option" where
  "readSysfsTopology w c =
     (let base = FilepathJoin [root c, ''sys/devices/system/node'']
      in case w_ReadDir w base of
           None \<Rightarrow> None
         | Some entries \<Rightarrow>
             let ids = List.map_filter node_dir_id entries
             in if ids = [] then None
                else Some (foldl (sysfs_step w base) \<lparr>nt_Nodes = [], nt_Distances = []\<rparr> (exchange_sort ids)))"


section \<open>Collect\<close>

definition numactl_topology :: "world \<Rightarrow> config \<Rightarrow> numaTopology option" where
  "numactl_topology w c =
     (case cf_Runner c of
        None \<Rightarrow> None
      | Some run \<Rightarrow>
          (case tool_output run (lookPath w c) ''numactl'' [''--hardware''] of
             Inl _ \<Rightarrow> None
           | Inr out \<Rightarrow> Some (parseNumactlHardware (w_grow w) out)))"

text \<open>The topology of the first source that lists a node.\<close>

definition with_nodes :: "numaTopology option \<Rightarrow> numaTopology option" where
  "with_nodes t = (case t of None \<Rightarrow> None | Some topo \<Rightarrow> if nt_Nodes topo = [] then None else Some topo)"

definition numa_topology :: "world \<Rightarrow> config \<Rightarrow> numaTopology option" where
  "numa_topology w c =
     (case with_nodes (numactl_topology w c) of
        Some topo \<Rightarrow> Some topo
      | None \<Rightarrow> with_nodes (readSysfsTopology w c))"

definition numa_collect :: "config \<Rightarrow> world \<Rightarrow> Collector" where
  "numa_collect c w sid =
     (let f = new_facts w sid ''linux_numa''
      in case numa_topology w c of
           None \<Rightarrow>
             (Some f, Some (''numa collector: neither numactl nor ''
                @ FilepathJoin [root c, ''sys/devices/system/node''] @ '' usable''))
         | Some topo \<Rightarrow>
             (Some ((set_raw ''numa'' (topology_json topo) f)
                \<lparr>sf_Capabilities := (if length (nt_Nodes topo) > 1 then [''multi_numa''] else [])\<rparr>), None))"

interpretation numa: hardware_collector numa_collect "[''linux_numa'']"
  by unfold_locales (auto simp: numa_collect_def Let_def split: option.splits sum.splits prod.splits if_splits)


section \<open>The exchange sort sorts\<close>

lemma length_exchange [simp]: "length (exchange i ids j) = length ids"
  by (simp add: exchange_def)

lemma mset_exchange [simp]: "i < length ids \<Longrightarrow> j < length ids \<Longrightarrow> mset (exchange i ids j) = mset ids"
  by (simp add: exchange_def mset_swap)

lemma length_exchanges [simp]: "length (foldl (exchange i) ids js) = length ids"
  by (induction js arbitrary: ids) simp_all

lemma exchanges_mset:
  "i < length ids \<Longrightarrow> \<forall>j\<in>set js. j < length ids \<Longrightarrow> mset (foldl (exchange i) ids js) = mset ids"
  by (induction js arbitrary: ids) simp_all

text \<open>The inner loop leaves the positions before \<open>i\<close> alone and moves a minimum of the rest to \<open>i\<close>.\<close>

lemma exchanges_before:
  "k < i \<Longrightarrow> \<forall>j\<in>set js. i < j \<Longrightarrow> foldl (exchange i) ids js ! k = ids ! k"
  by (induction js arbitrary: ids) (auto simp: exchange_def)

lemma exchanges_minimum:
  assumes "i < length ids" and "n \<le> length ids" and "i < n"
  shows "\<forall>k. i \<le> k \<and> k < n \<longrightarrow> foldl (exchange i) ids [Suc i..<n] ! i \<le> foldl (exchange i) ids [Suc i..<n] ! k"
  using assms(2,3)
proof (induction n)
  case (Suc n)
  show ?case
  proof (cases "n = i")
    case False
    let ?r = "foldl (exchange i) ids [Suc i..<n]"
    from Suc False have IH: "\<forall>k. i \<le> k \<and> k < n \<longrightarrow> ?r ! i \<le> ?r ! k" and n: "i < n" "n < length ids"
      by auto
    have step: "foldl (exchange i) ids [Suc i..<Suc n] = exchange i ?r n"
      using n by simp
    show ?thesis
      unfolding step
    proof (intro allI impI)
      fix k assume k: "i \<le> k \<and> k < Suc n"
      then consider "k = i" | "k = n" | "i < k" "k < n" by linarith
      then show "exchange i ?r n ! i \<le> exchange i ?r n ! k"
      proof cases
        case 3
        then show ?thesis
          using IH n by (auto simp: exchange_def intro: order_trans less_imp_le)
      qed (use n in \<open>auto simp: exchange_def\<close>)
    qed
  qed (auto simp: le_less_Suc_eq)
qed simp

lemma set_drop_nth: "x \<in> set (drop i xs) \<longleftrightarrow> (\<exists>k. i \<le> k \<and> k < length xs \<and> x = xs ! k)"
proof
  show "\<exists>k. i \<le> k \<and> k < length xs \<and> x = xs ! k" if "x \<in> set (drop i xs)"
  proof -
    from that obtain m where "m < length xs - i" "x = drop i xs ! m"
      by (auto simp: in_set_conv_nth)
    then show ?thesis
      by (intro exI [of _ "i + m"]) auto
  qed
next
  show "x \<in> set (drop i xs)" if "\<exists>k. i \<le> k \<and> k < length xs \<and> x = xs ! k"
  proof -
    from that obtain k where "i \<le> k" "k < length xs" "x = xs ! k" by auto
    then show ?thesis
      by (auto simp: in_set_conv_nth intro!: exI [of _ "k - i"])
  qed
qed


definition settled :: "nat \<Rightarrow> int list \<Rightarrow> bool" where
  "settled m ids \<longleftrightarrow> (\<forall>a b. a < m \<and> a \<le> b \<and> b < length ids \<longrightarrow> ids ! a \<le> ids ! b)"

lemma settled_step:
  assumes "settled i ids" and i: "i < length ids"
  shows "settled (Suc i) (foldl (exchange i) ids [Suc i..<length ids])"
proof -
  let ?r = "foldl (exchange i) ids [Suc i..<length ids]"
  have mset: "mset ?r = mset ids"
    using i by (intro exchanges_mset) auto
  have before: "?r ! a = ids ! a" if "a < i" for a
    using that by (intro exchanges_before) auto
  have "take i ?r = take i ids"
    using i before by (intro nth_equalityI) auto
  then have "mset (drop i ?r) = mset (drop i ids)"
    using mset by (metis add_left_cancel append_take_drop_id mset_append)
  then have rest: "set (drop i ?r) = set (drop i ids)"
    by (rule mset_eq_setD)
  show ?thesis
    unfolding settled_def
  proof (intro allI impI)
    fix a b assume ab: "a < Suc i \<and> a \<le> b \<and> b < length ?r"
    show "?r ! a \<le> ?r ! b"
    proof (cases "a = i")
      case True
      then show ?thesis
        using exchanges_minimum [of i ids "length ids"] ab i by auto
    next
      case False
      then have a: "a < i" using ab by simp
      show ?thesis
      proof (cases "b < i")
        case True
        then show ?thesis
          using assms(1) ab a i by (simp add: before settled_def)
      next
        case False
        then have "?r ! b \<in> set (drop i ids)"
          using ab unfolding rest [symmetric] set_drop_nth by (intro exI [of _ b]) auto
        then obtain k where "i \<le> k" "k < length ids" "?r ! b = ids ! k"
          using set_drop_nth by metis
        then show ?thesis
          using assms(1) a by (simp add: before settled_def)
      qed
    qed
  qed
qed

lemma exchange_sort_prefix:
  "m \<le> length ids \<Longrightarrow>
   (let r = foldl (\<lambda>ids i. foldl (exchange i) ids [Suc i..<length ids]) ids [0..<m]
    in settled m r \<and> mset r = mset ids \<and> length r = length ids)"
proof (induction m)
  case (Suc m)
  let ?r = "foldl (\<lambda>ids i. foldl (exchange i) ids [Suc i..<length ids]) ids [0..<m]"
  have r: "settled m ?r" "mset ?r = mset ids" "length ?r = length ids" "m < length ?r"
    using Suc by (auto simp: Let_def)
  then have "mset (foldl (exchange m) ?r [Suc m..<length ?r]) = mset ids"
    by (subst exchanges_mset) auto
  with settled_step [OF r(1,4)] r(3) show ?case
    by (simp add: Let_def)
qed (simp add: settled_def)

lemma exchange_sort_sort: "exchange_sort ids = sort ids"
proof -
  have r: "settled (length ids) (exchange_sort ids)" "mset (exchange_sort ids) = mset ids"
      "length (exchange_sort ids) = length ids"
    using exchange_sort_prefix [of "length ids" ids] by (simp_all add: Let_def exchange_sort_def)
  then have "sorted (exchange_sort ids)"
    by (simp add: settled_def sorted_iff_nth_mono)
  with r(2) show ?thesis
    by (metis properties_for_sort)
qed

lemma sysfs_steps:
  "foldl (sysfs_step w base) t is =
     \<lparr>nt_Nodes = nt_Nodes t @ map (\<lambda>i. sysfs_node w (FilepathJoin [base, ''node'' @ Itoa i]) i) is,
      nt_Distances = nt_Distances t @ filter (\<lambda>r. r \<noteq> [])
        (map (\<lambda>i. from_file w (FilepathJoin [FilepathJoin [base, ''node'' @ Itoa i], ''distance'']) [] numbers) is)\<rparr>"
  by (induction "is" arbitrary: t) (simp_all add: sysfs_step_def Let_def from_file_def add_row_def split: option.split)

text \<open>
  C28. The sysfs reader lists the nodes in the numeric order of their ids, whatever order the
  directory lists them in, one node per directory entry \<open>node<number>\<close>, and the distance rows
  in the same order; a directory without such an entry gives no topology.
\<close>

theorem sysfs_topology:
  assumes "base = FilepathJoin [root c, ''sys/devices/system/node'']"
    and "w_ReadDir w base = Some entries"
    and "dir = (\<lambda>i. FilepathJoin [base, ''node'' @ Itoa i])"
    and "ids = sort (List.map_filter node_dir_id entries)"
  shows "readSysfsTopology w c =
    (if ids = [] then None
     else Some \<lparr>nt_Nodes = map (\<lambda>i. sysfs_node w (dir i) i) ids,
                nt_Distances = filter (\<lambda>r. r \<noteq> []) (map (\<lambda>i. from_file w (FilepathJoin [dir i, ''distance'']) [] numbers) ids)\<rparr>)"
proof -
  have "ids = [] \<longleftrightarrow> List.map_filter node_dir_id entries = []"
    using assms(4) by (metis mset_sort mset_zero_iff)
  with assms show ?thesis
    by (simp add: readSysfsTopology_def exchange_sort_sort sysfs_steps Let_def)
qed

definition three_nodes :: "world \<Rightarrow> world" where
  "three_nodes w = w\<lparr>w_ReadDir := (\<lambda>p. if p = ''/sys/devices/system/node''
       then Some [(''has_cpu'', False), (''node0'', True), (''node10'', True), (''node2'', True)] else None),
     w_ReadFile := (\<lambda>p. if p = ''/sys/devices/system/node/node10/cpulist'' then Some ''0-3,8'' else None)\<rparr>"

theorem sysfs_topology_witness:
  "map_option (\<lambda>t. map (\<lambda>n. (nn_ID n, nn_CPUs n)) (nt_Nodes t)) (readSysfsTopology (three_nodes bare_world) (new_config bare_world)) =
     Some [(0, 0), (2, 0), (10, 5)]"
proof -
  have base: "FilepathJoin [root (new_config bare_world), ''sys/devices/system/node''] = ''/sys/devices/system/node''"
    unfolding root_def new_config_def by code_simp
  have ids: "sort (List.map_filter node_dir_id [(''has_cpu'', False), (''node0'', True), (''node10'', True), (''node2'', True)]) = [0, 2, 10]"
    by code_simp
  have files: "FilepathJoin [FilepathJoin [''/sys/devices/system/node'', ''node'' @ Itoa 0], ''cpulist''] = ''/sys/devices/system/node/node0/cpulist''"
    "FilepathJoin [FilepathJoin [''/sys/devices/system/node'', ''node'' @ Itoa 2], ''cpulist''] = ''/sys/devices/system/node/node2/cpulist''"
    "FilepathJoin [FilepathJoin [''/sys/devices/system/node'', ''node'' @ Itoa 10], ''cpulist''] = ''/sys/devices/system/node/node10/cpulist''"
    by code_simp+
  have cpus: "countCPUList (TrimSpace ''0-3,8'') = 5"
    by code_simp
  have counts: "nn_CPUs (sysfs_node (three_nodes bare_world) (FilepathJoin [''/sys/devices/system/node'', ''node'' @ Itoa 0]) 0) = 0"
    "nn_CPUs (sysfs_node (three_nodes bare_world) (FilepathJoin [''/sys/devices/system/node'', ''node'' @ Itoa 2]) 2) = 0"
    "nn_CPUs (sysfs_node (three_nodes bare_world) (FilepathJoin [''/sys/devices/system/node'', ''node'' @ Itoa 10]) 10) = 5"
    unfolding sysfs_node_def Let_def numaNode.select_convs from_file_def files three_nodes_def
    by (simp_all add: cpus)
  have ids': "nn_ID (sysfs_node v d i) = i" for v d i
    by (simp add: sysfs_node_def Let_def)
  have dirs: "w_ReadDir (three_nodes bare_world) ''/sys/devices/system/node'' =
      Some [(''has_cpu'', False), (''node0'', True), (''node10'', True), (''node2'', True)]"
    by (simp add: three_nodes_def)
  show ?thesis
    unfolding sysfs_topology [OF base [symmetric] dirs refl ids [symmetric]]
    using counts by (simp add: ids')
qed


section \<open>CPU lists\<close>

definition cpu_range_text :: "int \<times> int \<Rightarrow> string" where
  "cpu_range_text r = (if fst r = snd r then Itoa (fst r) else Itoa (fst r) @ ''-'' @ Itoa (snd r))"

definition cpu_list_text :: "(int \<times> int) list \<Rightarrow> string" where
  "cpu_list_text rs = Join (map cpu_range_text rs) '',''"

definition range_ok :: "int \<times> int \<Rightarrow> bool" where
  "range_ok r \<longleftrightarrow> 0 \<le> fst r \<and> fst r \<le> snd r \<and> in_int64 (snd r)"

lemma count_part_range:
  assumes "range_ok r"
  shows "count_part n (cpu_range_text r) = wrap64 (n + (snd r - fst r + 1))"
proof -
  obtain a b where r: "r = (a, b)" by fastforce
  have ab: "0 \<le> a" "a \<le> b" "0 \<le> b" "in_int64 a" "in_int64 b"
    using assms by (auto simp: r range_ok_def in_int64_def)
  have dash: "CHR ''-'' \<notin> set (Itoa a)" "CHR ''-'' \<notin> set (Itoa b)"
    using Itoa_nonneg ab digits_free by (auto simp: is_digit_def)
  have "wrap64 (b - a) = b - a"
    using ab by (intro wrap64_id) (auto simp: in_int64_def)
  then show ?thesis
    using ab dash
    by (simp add: r cpu_range_text_def count_part_def Cut_missing Cut_found Itoa_trimmed Atoi_Itoa)
qed

lemma count_parts: "list_all range_ok rs \<Longrightarrow> in_int64 n \<Longrightarrow>
    foldl count_part n (map cpu_range_text rs) = wrap64 (n + (\<Sum>r\<leftarrow>rs. snd r - fst r + 1))"
  by (induction rs arbitrary: n) (simp_all add: count_part_range wrap64_id algebra_simps)

lemma card_ranges:
  assumes "list_all range_ok rs" and "sorted_wrt (\<lambda>x y. snd x < fst y) rs"
  shows "int (card (\<Union>r\<in>set rs. {fst r..snd r})) = (\<Sum>r\<leftarrow>rs. snd r - fst r + 1)"
  using assms
proof (induction rs)
  case (Cons r rs)
  have "{fst r..snd r} \<inter> (\<Union>r\<in>set rs. {fst r..snd r}) = {}"
    using Cons.prems(2) by fastforce
  moreover have "fst r \<le> snd r"
    using Cons.prems(1) by (simp add: range_ok_def)
  ultimately show ?case
    using Cons by (simp add: card_Un_disjoint)
qed simp

text \<open>
  C29. The CPU count of a kernel cpulist is the number of CPUs it lists: for ascending,
  non-overlapping ranges printed as the kernel does, a single CPU as its number and a range as
  \<open>first-last\<close>, the result is the size of their union, wrapped to 64 bits.
\<close>

theorem cpulist_counts_cpus:
  assumes "list_all range_ok rs" and "sorted_wrt (\<lambda>x y. snd x < fst y) rs"
  shows "countCPUList (cpu_list_text rs) = wrap64 (int (card (\<Union>r\<in>set rs. {fst r..snd r})))"
proof (cases "rs = []")
  case True
  then show ?thesis by (simp add: countCPUList_def cpu_list_text_def)
next
  case False
  have comma: "CHR '','' \<notin> set (cpu_range_text r)" if "r \<in> set rs" for r
  proof -
    have "0 \<le> fst r" "0 \<le> snd r"
      using assms(1) that by (auto simp: list_all_iff range_ok_def)
    then have "CHR '','' \<notin> set (Itoa (fst r))" "CHR '','' \<notin> set (Itoa (snd r))"
      by (simp_all add: digits_free [OF Itoa_nonneg] is_digit_def)
    then show ?thesis by (simp add: cpu_range_text_def)
  qed
  have split: "Split (cpu_list_text rs) (CHR '','') = map cpu_range_text rs"
    unfolding cpu_list_text_def using False comma by (intro Split_Join) auto
  moreover have "cpu_list_text rs \<noteq> []"
  proof
    assume "cpu_list_text rs = []"
    then have "map cpu_range_text rs = [[]]"
      using split by simp
    then show False
      by (auto simp: cpu_range_text_def Itoa_def split: if_splits)
  qed
  ultimately show ?thesis
    using count_parts [OF assms(1), of 0] card_ranges [OF assms] by (simp add: countCPUList_def in_int64_def)
qed

theorem cpulist_counts_cpus_witness: "countCPUList (cpu_list_text [(0, 63), (70, 70), (128, 191)]) = 129"
proof -
  let ?rs = "[(0, 63), (70, 70), (128, 191)] :: (int \<times> int) list"
  have ok: "list_all range_ok ?rs" "sorted_wrt (\<lambda>x y. snd x < fst y) ?rs"
    by (simp_all add: range_ok_def in_int64_def)
  show ?thesis
    unfolding cpulist_counts_cpus [OF ok] card_ranges [OF ok] by (simp add: wrap64_def)
qed


section \<open>Pointers into a slice that grows\<close>

text \<open>The writes of the node section, and a parser that keeps the nodes in a plain list.\<close>

fun node_writes :: "string list \<Rightarrow> (int \<times> (numaNode \<Rightarrow> numaNode)) list" where
  "node_writes [] = []"
| "node_writes (raw # lines) =
     (let line = TrimSpace raw
      in if line = [] then node_writes lines
         else if HasPrefix line ''node distances:'' then []
         else case node_line line of None \<Rightarrow> node_writes lines | Some u \<Rightarrow> u # node_writes lines)"

definition plain_write :: "numaNode list \<Rightarrow> int \<times> (numaNode \<Rightarrow> numaNode) \<Rightarrow> numaNode list" where
  "plain_write nodes u =
     (if fst u \<in> nn_ID ` set nodes then map (\<lambda>n. if nn_ID n = fst u then snd u n else n) nodes
      else nodes @ [snd u (new_node (fst u))])"

definition plain_nodes :: "string \<Rightarrow> numaNode list" where
  "plain_nodes out = foldl plain_write [] (node_writes (Split out (CHR 0x0A)))"

definition keeps_id :: "int \<times> (numaNode \<Rightarrow> numaNode) \<Rightarrow> bool" where
  "keeps_id u \<longleftrightarrow> (\<forall>n. nn_ID (snd u n) = nn_ID n)"

lemma node_line_keeps_id: "node_line line = Some u \<Longrightarrow> keeps_id u"
  by (auto simp: node_line_def Let_def keeps_id_def split: if_splits prod.splits)

lemma node_writes_keep_id: "list_all keeps_id (node_writes lines)"
  by (induction lines rule: node_writes.induct)
     (auto simp: Let_def node_line_keeps_id split: option.split)

lemma write_node_distances [simp]: "nc_inDistances (write_node grow u st) = nc_inDistances st"
  by (simp add: write_node_def node_ptr_def write_ptr_def append_node_def Let_def split: option.split prod.split)

lemma topo_nodes_other [simp]:
  "topo_nodes (st\<lparr>nc_inDistances := b\<rparr>) = topo_nodes st"
  "topo_nodes (st\<lparr>nc_Distances := ds\<rparr>) = topo_nodes st"
  "topo_nodes (st\<lparr>nc_nodesByID := ps\<rparr>) = topo_nodes st"
  "topo_nodes (st\<lparr>nc_arrays := as @ [ns]\<rparr>) = ns"
  by (simp_all add: topo_nodes_def)

lemma numactl_lines_done:
  "nc_inDistances st \<Longrightarrow> topo_nodes (foldl (numactl_line grow) st lines) = topo_nodes st"
  by (induction lines arbitrary: st) (auto simp: numactl_line_def Let_def)

lemma numactl_lines:
  "\<not> nc_inDistances st \<Longrightarrow>
     topo_nodes (foldl (numactl_line grow) st lines) = topo_nodes (foldl (\<lambda>st u. write_node grow u st) st (node_writes lines))"
proof (induction lines arbitrary: st)
  case (Cons raw lines)
  let ?line = "TrimSpace raw"
  consider "?line = []" | "?line \<noteq> []" "HasPrefix ?line ''node distances:''"
    | "?line \<noteq> []" "\<not> HasPrefix ?line ''node distances:''" by blast
  then show ?case
  proof cases
    case 2
    then have "numactl_line grow st raw = st\<lparr>nc_inDistances := True\<rparr>"
      by (simp add: numactl_line_def Let_def)
    then show ?thesis
      using 2 by (simp add: numactl_lines_done Let_def)
  next
    case 3
    then show ?thesis
      using Cons by (cases "node_line ?line") (simp_all add: numactl_line_def Let_def)
  qed (use Cons in \<open>simp add: numactl_line_def\<close>)
qed simp

text \<open>The pointer of the node written last points into the current array.\<close>

definition tracks :: "numactl \<Rightarrow> bool" where
  "tracks st \<longleftrightarrow>
     fst ` set (nc_nodesByID st) = nn_ID ` set (topo_nodes st) \<and> distinct (map nn_ID (topo_nodes st))
     \<and> (if topo_nodes st = [] then nc_arrays st = []
        else nc_arrays st \<noteq> []
           \<and> map_of (nc_nodesByID st) (nn_ID (last (topo_nodes st))) = Some (length (nc_arrays st) - 1, length (topo_nodes st) - 1))"

lemma plain_write_last:
  assumes "distinct (map nn_ID nodes)" and "nodes \<noteq> []" and "fst u = nn_ID (last nodes)"
  shows "plain_write nodes u = butlast nodes @ [snd u (last nodes)]"
proof -
  obtain xs x where nodes: "nodes = xs @ [x]"
    using assms(2) by (metis rev_exhaust)
  have "map (\<lambda>n. if nn_ID n = nn_ID x then snd u n else n) xs = xs"
    using assms(1) [unfolded nodes] by (intro map_idI) (force simp: image_iff)
  then show ?thesis
    using assms(3) by (simp add: plain_write_def nodes)
qed

lemma write_known:
  assumes "tracks st" and "topo_nodes st \<noteq> []" and "keeps_id (i, upd)" and "i = nn_ID (last (topo_nodes st))"
  shows "tracks (write_node grow (i, upd) st)
    \<and> topo_nodes (write_node grow (i, upd) st) = butlast (topo_nodes st) @ [upd (last (topo_nodes st))]"
proof -
  have "nc_arrays st \<noteq> []" "topo_nodes st = last (nc_arrays st)"
    using assms(2) by (simp_all add: topo_nodes_def split: if_splits)
  then obtain arrays where arrays: "nc_arrays st = arrays @ [topo_nodes st]"
    by (metis append_butlast_last_id)
  obtain xs x where xs: "topo_nodes st = xs @ [x]"
    using assms(2) by (metis rev_exhaust)
  note st = arrays [unfolded xs] xs
  have "map_of (nc_nodesByID st) i = Some (length arrays, length xs)"
    using assms(1,4) by (simp add: tracks_def st)
  then have w: "write_node grow (i, upd) st = st\<lparr>nc_arrays := arrays @ [xs @ [upd x]]\<rparr>"
    by (simp add: write_node_def node_ptr_def write_ptr_def st nth_append list_update_append Let_def)
  have same: "nn_ID (upd x) = nn_ID x"
    using assms(3) by (simp add: keeps_id_def)
  have "topo_nodes (write_node grow (i, upd) st) = xs @ [upd x]"
    unfolding w by simp
  moreover have "tracks (write_node grow (i, upd) st)"
    using assms(1) unfolding tracks_def w topo_nodes_other st by (simp add: same)
  ultimately show ?thesis
    by (simp add: st)
qed

lemma write_new:
  assumes "tracks st" and "keeps_id (i, upd)" and "i \<notin> nn_ID ` set (topo_nodes st)"
  shows "tracks (write_node grow (i, upd) st)
    \<and> topo_nodes (write_node grow (i, upd) st) = topo_nodes st @ [upd (new_node i)]"
proof -
  have new: "map_of (nc_nodesByID st) i = None"
    using assms(1,3) by (simp add: tracks_def map_of_eq_None_iff)
  obtain arrays cap where a: "append_node grow (new_node i) st =
      st\<lparr>nc_arrays := arrays @ [topo_nodes st @ [new_node i]], nc_cap := cap\<rparr>"
  proof (cases "length (topo_nodes st) < nc_cap st")
    case True
    then show ?thesis
      by (intro that [of "nc_cap st" "butlast (nc_arrays st)"]) (simp add: append_node_def Let_def)
  next
    case False
    then show ?thesis
      by (intro that [of "grow (length (topo_nodes st))" "nc_arrays st"]) (simp add: append_node_def Let_def)
  qed
  have w: "write_node grow (i, upd) st =
      st\<lparr>nc_arrays := arrays @ [topo_nodes st @ [upd (new_node i)]], nc_cap := cap,
         nc_nodesByID := AList.update i (length arrays, length (topo_nodes st)) (nc_nodesByID st)\<rparr>"
    by (simp add: write_node_def node_ptr_def write_ptr_def new a Let_def topo_nodes_def list_update_append)
  have same: "nn_ID (upd (new_node i)) = i"
    using assms(2) by (simp add: keeps_id_def new_node_def)
  have nodes: "topo_nodes (write_node grow (i, upd) st) = topo_nodes st @ [upd (new_node i)]"
    unfolding w by (simp add: topo_nodes_def)
  moreover have "tracks (write_node grow (i, upd) st)"
    using assms(1,3) unfolding tracks_def nodes by (simp add: w same update_keys dom_update update_conv')
  ultimately show ?thesis by simp
qed

lemma disjoint_rest: "insert a A \<inter> B \<subseteq> {l} \<Longrightarrow> l \<notin> A \<Longrightarrow> A \<inter> insert i B \<subseteq> {i}"
  by blast

lemma grouped_writes:
  assumes "tracks st" and "topo_nodes st \<noteq> []" and "list_all keeps_id us"
    and "distinct (remdups_adj (nn_ID (last (topo_nodes st)) # map fst us))"
    and "fst ` set us \<inter> nn_ID ` set (topo_nodes st) \<subseteq> {nn_ID (last (topo_nodes st))}"
  shows "topo_nodes (foldl (\<lambda>st u. write_node grow u st) st us) = foldl plain_write (topo_nodes st) us"
  using assms
proof (induction us arbitrary: st)
  case (Cons u us)
  obtain i upd where u: "u = (i, upd)" by fastforce
  let ?nodes = "topo_nodes st" and ?l = "nn_ID (last (topo_nodes st))"
  have keeps: "keeps_id (i, upd)" and same: "\<And>n. nn_ID (upd n) = nn_ID n"
    using Cons.prems(3) by (simp_all add: u keeps_id_def)
  show ?case
  proof (cases "i = ?l")
    case True
    have "distinct (map nn_ID ?nodes)"
      using Cons.prems(1) by (simp add: tracks_def)
    then have plain: "plain_write ?nodes u = butlast ?nodes @ [upd (last ?nodes)]"
      using Cons.prems(2) True by (simp add: plain_write_last u)
    have ids: "nn_ID ` set (butlast ?nodes @ [upd (last ?nodes)]) = nn_ID ` set ?nodes"
      using Cons.prems(2) append_butlast_last_id [of ?nodes]
      by (metis (no_types, lifting) list.set_map map_append list.map same)
    show ?thesis
      using write_known [OF Cons.prems(1,2) keeps True, of grow] Cons.prems Cons.IH [of "write_node grow u st"] plain True ids
      by (auto simp: u same)
  next
    case False
    then have "i \<notin> nn_ID ` set ?nodes"
      using Cons.prems(5) by (auto simp: u)
    moreover from this have "plain_write ?nodes u = ?nodes @ [upd (new_node i)]"
      by (simp add: plain_write_def u)
    moreover have "?l \<notin> fst ` set us"
      using Cons.prems(4) False by (auto simp: u)
    then have "fst ` set us \<inter> insert i (nn_ID ` set ?nodes) \<subseteq> {i}"
      by (rule disjoint_rest [OF Cons.prems(5) [unfolded list.set image_insert]])
    ultimately show ?thesis
      using write_new [OF Cons.prems(1) keeps, of grow] Cons.prems Cons.IH [of "write_node grow u st"] False
      by (auto simp: u same new_node_def)
  qed
qed simp

text \<open>
  C30. The relocation of the node slice is harmless as long as the lines of each node stand
  together: whatever capacities \<open>append\<close> picks, the parser then gives the nodes of the parser
  that keeps them in a plain list and has no pointers.
\<close>

theorem numactl_pointers_harmless:
  assumes "distinct (remdups_adj (map fst (node_writes (Split out (CHR 0x0A)))))"
  shows "nt_Nodes (parseNumactlHardware grow out) = plain_nodes out"
proof -
  let ?us = "node_writes (Split out (CHR 0x0A))"
  have start: "tracks numactl_start" "topo_nodes numactl_start = []" "\<not> nc_inDistances numactl_start"
    by (simp_all add: tracks_def topo_nodes_def numactl_start_def)
  have "topo_nodes (foldl (\<lambda>st u. write_node grow u st) numactl_start ?us) = foldl plain_write [] ?us"
  proof (cases ?us)
    case (Cons u us)
    obtain i upd where u: "u = (i, upd)" by fastforce
    have keep: "list_all keeps_id (u # us)"
      using node_writes_keep_id [of "Split out (CHR 0x0A)"] Cons by simp
    then have w: "tracks (write_node grow u numactl_start)" "topo_nodes (write_node grow u numactl_start) = [upd (new_node i)]"
      using write_new [OF start(1), of i upd grow] by (simp_all add: u start(2))
    moreover have "nn_ID (upd (new_node i)) = i"
      using keep by (simp add: u keeps_id_def new_node_def)
    ultimately show ?thesis
      using grouped_writes [of "write_node grow u numactl_start" us grow] keep assms Cons
      by (simp add: u plain_write_def)
  qed (simp add: start(2))
  with numactl_lines [OF start(3)] show ?thesis
    by (simp add: parseNumactlHardware_def plain_nodes_def Let_def)
qed

definition grouped_output :: string where
  "grouped_output = Join
     [''available: 2 nodes (0-1)'', ''node 0 cpus: 0 1 2 3'', ''node 0 size: 257635 MB'', ''node 0 free: 245001 MB'',
      ''node 1 cpus: 4 5 6 7'', ''node 1 size: 258040 MB'', ''node distances:'', ''node   0   1'', ''  0:  10  32''] [CHR 0x0A]"

theorem numactl_pointers_harmless_witness:
  "map (\<lambda>n. (nn_ID n, nn_CPUs n, nn_SizeMB n)) (nt_Nodes (parseNumactlHardware Suc grouped_output)) =
     [(0, 4, 257635), (1, 4, 258040)]"
proof -
  have "map fst (node_writes (Split grouped_output (CHR 0x0A))) = [0, 0, 0, 1, 1]"
    unfolding grouped_output_def by code_simp
  moreover have "map (\<lambda>n. (nn_ID n, nn_CPUs n, nn_SizeMB n)) (plain_nodes grouped_output) = [(0, 4, 257635), (1, 4, 258040)]"
    unfolding grouped_output_def by code_simp
  ultimately show ?thesis
    by (simp add: numactl_pointers_harmless)
qed

text \<open>
  Interleaved lines are not harmless: with the capacities 1 and 2 the runtime starts with, the
  size of node 0 is written to the array the second \<open>append\<close> left behind, and lost.
\<close>

lemma stale_pointer_loses_size:
  "map (\<lambda>n. (nn_ID n, nn_CPUs n, nn_SizeMB n)) (nt_Nodes (parseNumactlHardware (\<lambda>n. if n = 0 then 1 else 2 * n)
     (Join [''node 0 cpus: 0 1'', ''node 1 cpus: 2 3'', ''node 0 size: 100 MB'', ''node 1 size: 200 MB''] [CHR 0x0A])))
   = [(0, 2, 0), (1, 2, 200)]"
  by code_simp

end
