(* ===== verification/Rdma.thy ===== *)
theory Rdma
  imports Host
begin

text \<open>
  \<open>collectors/linux_rdma.go\<close>: RDMA devices, from \<open>rdma link show -j\<close> or \<open>ibv_devinfo\<close>, completed
  from sysfs.
\<close>

record rdmaDevice =
  rd_Device :: string
  rd_Port :: int
  rd_State :: string
  rd_PhysicalState :: string
  rd_Netdev :: string
  rd_LinkLayer :: string
  rd_Transport :: string
  rd_FirmwareVer :: string

definition rdma_json :: "rdmaDevice \<Rightarrow> json" where
  "rdma_json d = JObj
     ([(''device'', jstr (rd_Device d)), (''port'', jint (rd_Port d)), (''state'', jstr (rd_State d))]
      @ unless_empty (rd_PhysicalState d = []) ''physical_state'' (jstr (rd_PhysicalState d))
      @ unless_empty (rd_Netdev d = []) ''netdev'' (jstr (rd_Netdev d))
      @ unless_empty (rd_LinkLayer d = []) ''link_layer'' (jstr (rd_LinkLayer d))
      @ unless_empty (rd_Transport d = []) ''transport'' (jstr (rd_Transport d))
      @ unless_empty (rd_FirmwareVer d = []) ''firmware_version'' (jstr (rd_FirmwareVer d)))"


section \<open>rdma link show -j\<close>

text \<open>An \<open>rdmaLinkEntry\<close> and the device made of it; the \<open>ifindex\<close> is decoded and dropped.\<close>

definition dec_rdma_link :: "rdmaDevice decoder" where
  "dec_rdma_link v =
     do { kvs \<leftarrow> as_object v;
          _ \<leftarrow> field ''ifindex'' dec_int 0 kvs;
          n \<leftarrow> field ''ifname'' dec_string [] kvs;
          p \<leftarrow> field ''port'' dec_int 0 kvs;
          s \<leftarrow> field ''state'' dec_string [] kvs;
          ps \<leftarrow> field ''physical_state'' dec_string [] kvs;
          nd \<leftarrow> field ''netdev'' dec_string [] kvs;
          Some \<lparr>rd_Device = n, rd_Port = p, rd_State = s, rd_PhysicalState = ps, rd_Netdev = nd,
                rd_LinkLayer = [], rd_Transport = [], rd_FirmwareVer = []\<rparr> }"

definition parseRdmaLinkJSON :: "world \<Rightarrow> string \<Rightarrow> string + rdmaDevice list" where
  "parseRdmaLinkJSON w out = unmarshal w (dec_slice dec_rdma_link) out"


section \<open>ibv_devinfo\<close>

text \<open>\<open>trimParenthetical\<close>\<close>

definition trimParenthetical :: "string \<Rightarrow> string" where
  "trimParenthetical v =
     (case IndexByte v (CHR ''('') of Some i \<Rightarrow> TrimSpace (take i v) | None \<Rightarrow> v)"

definition normalizeIbvPortState :: "string \<Rightarrow> string" where
  "normalizeIbvPortState s = ToUpper (TrimPrefix s ''PORT_'')"

record ibv =
  ib_hca :: string
  ib_transport :: string
  ib_fwVer :: string
  ib_cur :: "rdmaDevice option"
  ib_devices :: "rdmaDevice list"

definition ibv_flush :: "ibv \<Rightarrow> ibv" where
  "ibv_flush st =
     (case ib_cur st of None \<Rightarrow> st | Some d \<Rightarrow> st\<lparr>ib_devices := ib_devices st @ [d], ib_cur := None\<rparr>)"

definition ibv_port :: "string \<Rightarrow> ibv \<Rightarrow> ibv" where
  "ibv_port value st = st\<lparr>ib_cur := Some
     \<lparr>rd_Device = ib_hca st, rd_Port = fst (Atoi value), rd_State = [], rd_PhysicalState = [], rd_Netdev = [],
      rd_LinkLayer = [], rd_Transport = ib_transport st, rd_FirmwareVer = ib_fwVer st\<rparr>\<rparr>"

definition ibv_key :: "string \<Rightarrow> string \<Rightarrow> ibv \<Rightarrow> ibv" where
  "ibv_key key value st =
     (if key = ''hca_id'' then (ibv_flush st)\<lparr>ib_hca := value, ib_transport := [], ib_fwVer := []\<rparr>
      else if key = ''transport'' then st\<lparr>ib_transport := trimParenthetical value\<rparr>
      else if key = ''fw_ver'' then st\<lparr>ib_fwVer := value\<rparr>
      else if key = ''port'' then ibv_port value (ibv_flush st)
      else if key = ''state'' then
        st\<lparr>ib_cur := map_option (rd_State_update (\<lambda>_. normalizeIbvPortState (trimParenthetical value))) (ib_cur st)\<rparr>
      else if key = ''link_layer'' then st\<lparr>ib_cur := map_option (rd_LinkLayer_update (\<lambda>_. value)) (ib_cur st)\<rparr>
      else st)"

definition ibv_line :: "ibv \<Rightarrow> string \<Rightarrow> ibv" where
  "ibv_line st line =
     (case Cut line (CHR '':'') of (key, value, ok) \<Rightarrow>
        if \<not> ok then st else ibv_key (TrimSpace key) (TrimSpace value) st)"

definition ibv_start :: ibv where
  "ibv_start = \<lparr>ib_hca = [], ib_transport = [], ib_fwVer = [], ib_cur = None, ib_devices = []\<rparr>"

definition parseIbvDevinfo :: "string \<Rightarrow> rdmaDevice list" where
  "parseIbvDevinfo out = ib_devices (ibv_flush (foldl ibv_line ibv_start (Split out (CHR 0x0A))))"


section \<open>Collect\<close>

definition gather :: "world \<Rightarrow> CommandRunner \<Rightarrow> (string \<Rightarrow> string + string) \<Rightarrow> string + rdmaDevice list" where
  "gather w run look =
     (case requireCommand look ''rdma'' of
        None \<Rightarrow>
          (case run ''rdma'' [''link'', ''show'', ''-j''] of
             (_, Some e) \<Rightarrow> Inl e
           | (out, None) \<Rightarrow> parseRdmaLinkJSON w out)
      | Some rdmaErr \<Rightarrow>
          (case requireCommand look ''ibv_devinfo'' of
             None \<Rightarrow>
               (case run ''ibv_devinfo'' [] of
                  (_, Some e) \<Rightarrow> Inl e
                | (out, None) \<Rightarrow> Inr (parseIbvDevinfo out))
           | Some ibvErr \<Rightarrow> Inl (rdmaErr @ ''; '' @ ibvErr)))"

definition enrichFromSysfs :: "world \<Rightarrow> config \<Rightarrow> rdmaDevice \<Rightarrow> rdmaDevice" where
  "enrichFromSysfs w c d =
     (let base = FilepathJoin [root c, ''sys/class/infiniband'', rd_Device d]
      in d\<lparr>rd_LinkLayer :=
             (if rd_LinkLayer d = []
              then from_file w (FilepathJoin [base, ''ports'', Itoa (rd_Port d), ''link_layer'']) [] TrimSpace
              else rd_LinkLayer d),
           rd_FirmwareVer :=
             (if rd_FirmwareVer d = [] then from_file w (FilepathJoin [base, ''fw_ver'']) [] TrimSpace
              else rd_FirmwareVer d)\<rparr>)"

definition rdma_caps :: "rdmaDevice list \<Rightarrow> string list" where
  "rdma_caps devices =
     (let sawIB = list_ex (\<lambda>d. rd_LinkLayer d = ''InfiniBand'') devices;
          sawRoCE = list_ex (\<lambda>d. rd_LinkLayer d = ''Ethernet'') devices;
          sawActive = list_ex (\<lambda>d. EqualFold (rd_State d) ''ACTIVE'') devices
      in [''rdma''] @ (if sawIB then [''infiniband''] else []) @ (if sawRoCE then [''roce''] else [])
         @ (if sawActive then [''rdma_active''] else []))"

definition rdma_collect :: "config \<Rightarrow> world \<Rightarrow> Collector" where
  "rdma_collect c w sid =
     (let f = new_facts w sid ''linux_rdma''
      in case cf_Runner c of
           None \<Rightarrow> (Some f, Some ''rdma collector: no CommandRunner configured'')
         | Some run \<Rightarrow>
             (case gather w run (lookPath w c) of
                Inl e \<Rightarrow> (Some f, Some (''rdma collector: '' @ e))
              | Inr found \<Rightarrow>
                  let devices = map (enrichFromSysfs w c) found
                  in if devices = [] then (Some f, None)
                     else (Some ((set_raw ''rdma'' (JArr (map rdma_json devices)) f)
                            \<lparr>sf_NetworkModes := [''rdma''], sf_Capabilities := rdma_caps devices\<rparr>), None)))"

interpretation rdma: hardware_collector rdma_collect "[''linux_rdma'']"
  by unfold_locales (auto simp: rdma_collect_def Let_def split: option.splits sum.splits prod.splits if_splits)


section \<open>What ibv_devinfo prints\<close>

text \<open>A host channel adapter with its ports, and the lines \<open>ibv_devinfo\<close> prints for it.\<close>

record hca =
  h_name :: string
  h_transport :: string
  h_fw :: string
  h_ports :: "(int \<times> string \<times> string) list"

definition port_lines :: "int \<times> string \<times> string \<Rightarrow> string list" where
  "port_lines p = (case p of (n, state, layer) \<Rightarrow>
     [[CHR 0x09, CHR 0x09] @ ''port:'' @ [CHR 0x09] @ Itoa n,
      [CHR 0x09, CHR 0x09, CHR 0x09] @ ''state:'' @ [CHR 0x09] @ ''PORT_'' @ state @ '' (4)'',
      [CHR 0x09, CHR 0x09, CHR 0x09] @ ''link_layer:'' @ [CHR 0x09] @ layer])"

definition hca_lines :: "hca \<Rightarrow> string list" where
  "hca_lines h =
     [''hca_id:'' @ [CHR 0x09] @ h_name h,
      [CHR 0x09] @ ''transport:'' @ [CHR 0x09] @ h_transport h @ '' (0)'',
      [CHR 0x09] @ ''fw_ver:'' @ [CHR 0x09] @ h_fw h] @ concat (map port_lines (h_ports h))"

definition ibv_text :: "hca list \<Rightarrow> string" where
  "ibv_text hs = Join (concat (map hca_lines hs)) [CHR 0x0A]"

definition port_device :: "hca \<Rightarrow> int \<times> string \<times> string \<Rightarrow> rdmaDevice" where
  "port_device h p = (case p of (n, state, layer) \<Rightarrow>
     \<lparr>rd_Device = h_name h, rd_Port = n, rd_State = ToUpper state, rd_PhysicalState = [], rd_Netdev = [],
      rd_LinkLayer = layer, rd_Transport = h_transport h, rd_FirmwareVer = h_fw h\<rparr>)"

definition port_ok :: "int \<times> string \<times> string \<Rightarrow> bool" where
  "port_ok p \<longleftrightarrow> in_int64 (fst p) \<and> word_ok (fst (snd p)) \<and> CHR ''('' \<notin> set (fst (snd p)) \<and> word_ok (snd (snd p))"

definition hca_ok :: "hca \<Rightarrow> bool" where
  "hca_ok h \<longleftrightarrow> word_ok (h_name h) \<and> word_ok (h_transport h) \<and> CHR ''('' \<notin> set (h_transport h) \<and> word_ok (h_fw h)
     \<and> list_all port_ok (h_ports h)"

lemma word_trim_paren:
  assumes "word_ok u"
  shows "TrimSpace (u @ '' ('' @ [c] @ '')'') = u @ '' ('' @ [c] @ '')''"
  using assms by (intro TrimSpace_plain) (auto simp: word_ok_def list_all_iff plain_char_def)

lemma paren_trimmed:
  assumes "word_ok u" and "CHR ''('' \<notin> set u"
  shows "trimParenthetical (u @ '' ('' @ s) = u"
proof -
  have "IndexByte (u @ '' ('' @ s) (CHR ''('') = Some (length u + 1)"
    using assms(2) IndexByte_found [of "CHR ''(''" "u @ '' ''" s] by simp
  moreover have "TrimSpace (u @ '' '') = u"
    using assms(1) by (rule word_trim_blank) (simp add: ascii_space_def)
  ultimately show ?thesis
    by (simp add: trimParenthetical_def)
qed

lemma trim_tabs: "TrimSpace (replicate n (CHR 0x09) @ s) = TrimSpace s"
  by (induction n) (simp_all add: TrimSpace_lead_space ascii_space_def)

text \<open>A line of key and value, indented with tabs.\<close>

lemma ibv_line_key:
  assumes "word_ok key" and "CHR '':'' \<notin> set key" and "TrimSpace value = value"
  shows "ibv_line st (replicate n (CHR 0x09) @ key @ '':'' @ [CHR 0x09] @ value) = ibv_key key value st"
proof -
  have "CHR '':'' \<notin> set (replicate n (CHR 0x09) @ key)"
    using assms(2) by auto
  from Cut_found [OF this, of "CHR 0x09 # value"]
  have "Cut (replicate n (CHR 0x09) @ key @ '':'' @ [CHR 0x09] @ value) (CHR '':'') =
      (replicate n (CHR 0x09) @ key, CHR 0x09 # value, True)"
    by simp
  then show ?thesis
    using assms by (simp add: ibv_line_def trim_tabs word_trim TrimSpace_lead_space ascii_space_def)
qed

text \<open>The devices read so far, the open one included.\<close>

definition pending :: "ibv \<Rightarrow> rdmaDevice list" where
  "pending st = ib_devices (ibv_flush st)"

lemma pending_simps:
  "pending st = ib_devices st @ (case ib_cur st of None \<Rightarrow> [] | Some d \<Rightarrow> [d])"
  by (simp add: pending_def ibv_flush_def split: option.split)

lemma flush_simps [simp]:
  "ib_hca (ibv_flush st) = ib_hca st" "ib_transport (ibv_flush st) = ib_transport st" "ib_fwVer (ibv_flush st) = ib_fwVer st"
  "ib_cur (ibv_flush st) = None" "ib_devices (ibv_flush st) = pending st"
  by (simp_all add: pending_def ibv_flush_def split: option.split)

lemma port_lines_read:
  assumes "port_ok p" and "ib_hca st = h_name h" and "ib_transport st = h_transport h" and "ib_fwVer st = h_fw h"
  shows "let st' = foldl ibv_line st (port_lines p) in
    ib_hca st' = h_name h \<and> ib_transport st' = h_transport h \<and> ib_fwVer st' = h_fw h
    \<and> pending st' = pending st @ [port_device h p]"
proof -
  obtain n state layer where p: "p = (n, state, layer)" by (cases p)
  have ok: "in_int64 n" "word_ok state" "CHR ''('' \<notin> set state" "word_ok layer"
    using assms(1) by (simp_all add: p port_ok_def)
  have words: "word_ok ''port''" "word_ok ''state''" "word_ok ''link_layer''" "word_ok (''PORT_'' @ state)"
    using ok(2) by (simp_all add: word_ok_def plain_char_def)
  have l1: "ibv_line s ([CHR 0x09, CHR 0x09] @ ''port:'' @ [CHR 0x09] @ Itoa n) = ibv_key ''port'' (Itoa n) s" for s
    using ibv_line_key [OF words(1), of "Itoa n" s 2] by (simp add: numeral_2_eq_2)
  have l2: "ibv_line s ([CHR 0x09, CHR 0x09, CHR 0x09] @ ''state:'' @ [CHR 0x09] @ ''PORT_'' @ state @ '' (4)'') =
      ibv_key ''state'' (''PORT_'' @ state @ '' (4)'') s" for s
    using ibv_line_key [OF words(2), of "''PORT_'' @ state @ '' (4)''" s 3] word_trim_paren [OF words(4), of "CHR ''4''"]
    by (simp add: numeral_3_eq_3)
  have l3: "ibv_line s ([CHR 0x09, CHR 0x09, CHR 0x09] @ ''link_layer:'' @ [CHR 0x09] @ layer) = ibv_key ''link_layer'' layer s" for s
    using ibv_line_key [OF words(3), of layer s 3] word_trim [OF ok(4)] by (simp add: numeral_3_eq_3)
  have "normalizeIbvPortState (trimParenthetical (''PORT_'' @ state @ '' (4)'')) = ToUpper state"
    using paren_trimmed [OF words(4), of "''4)''"] ok(3) TrimPrefix_append [of "''PORT_''" state]
    by (simp add: normalizeIbvPortState_def)
  then show ?thesis
    unfolding p port_lines_def prod.case foldl.simps l1 l2 l3
    using assms(2-4) ok(1) by (simp add: ibv_key_def ibv_port_def port_device_def pending_simps [of "_\<lparr>ib_cur := _\<rparr>"] Atoi_Itoa)
qed

lemma ports_read:
  assumes "list_all port_ok ps" and "ib_hca st = h_name h" and "ib_transport st = h_transport h" and "ib_fwVer st = h_fw h"
  shows "pending (foldl ibv_line st (concat (map port_lines ps))) = pending st @ map (port_device h) ps"
  using assms
proof (induction ps arbitrary: st)
  case (Cons p ps)
  then show ?case
    using port_lines_read [of p st h] by (simp add: Let_def)
qed simp

lemma hca_read:
  assumes "hca_ok h"
  shows "pending (foldl ibv_line st (hca_lines h)) = pending st @ map (port_device h) (h_ports h)"
proof -
  have ok: "word_ok (h_name h)" "word_ok (h_transport h)" "CHR ''('' \<notin> set (h_transport h)" "word_ok (h_fw h)" "list_all port_ok (h_ports h)"
    using assms by (simp_all add: hca_ok_def)
  have words: "word_ok ''hca_id''" "word_ok ''transport''" "word_ok ''fw_ver''"
    by (simp_all add: word_ok_def plain_char_def)
  have l1: "ibv_line s (''hca_id:'' @ [CHR 0x09] @ h_name h) = ibv_key ''hca_id'' (h_name h) s" for s
    using ibv_line_key [OF words(1), of "h_name h" s 0] word_trim [OF ok(1)] by simp
  have l2: "ibv_line s ([CHR 0x09] @ ''transport:'' @ [CHR 0x09] @ h_transport h @ '' (0)'') =
      ibv_key ''transport'' (h_transport h @ '' (0)'') s" for s
    using ibv_line_key [OF words(2), of "h_transport h @ '' (0)''" s 1] word_trim_paren [OF ok(2), of "CHR ''0''"] by simp
  have l3: "ibv_line s ([CHR 0x09] @ ''fw_ver:'' @ [CHR 0x09] @ h_fw h) = ibv_key ''fw_ver'' (h_fw h) s" for s
    using ibv_line_key [OF words(3), of "h_fw h" s 1] word_trim [OF ok(4)] by simp
  have t: "trimParenthetical (h_transport h @ '' (0)'') = h_transport h"
    using paren_trimmed [OF ok(2,3), of "''0)''"] by simp
  let ?st = "(ibv_flush st)\<lparr>ib_hca := h_name h, ib_transport := h_transport h, ib_fwVer := h_fw h\<rparr>"
  have "foldl ibv_line st (hca_lines h) = foldl ibv_line ?st (concat (map port_lines (h_ports h)))"
    unfolding hca_lines_def foldl_append foldl.simps l1 l2 l3 by (simp add: ibv_key_def t)
  also have "pending \<dots> = pending ?st @ map (port_device h) (h_ports h)"
    using ok(5) by (intro ports_read) simp_all
  finally show ?thesis
    by (simp add: pending_simps [of ?st])
qed

lemma hcas_read:
  "list_all hca_ok hs \<Longrightarrow>
     pending (foldl ibv_line st (concat (map hca_lines hs))) = pending st @ concat (map (\<lambda>h. map (port_device h) (h_ports h)) hs)"
  by (induction hs arbitrary: st) (simp_all add: hca_read)

lemma ibv_lines_clean:
  assumes "list_all hca_ok hs" and "l \<in> set (concat (map hca_lines hs))"
  shows "CHR 0x0A \<notin> set l"
proof -
  have word: "CHR 0x0A \<notin> set u" if "word_ok u" for u
    using that by (auto simp: word_ok_def list_all_iff plain_char_def)
  obtain h where h: "hca_ok h" "l \<in> set (hca_lines h)"
    using assms by (auto simp: list_all_iff)
  then consider "l \<in> set (take 3 (hca_lines h))" | p where "p \<in> set (h_ports h)" "l \<in> set (port_lines p)"
    by (auto simp: hca_lines_def)
  then show ?thesis
  proof cases
    case 1
    then show ?thesis
      using h(1) word by (auto simp: hca_lines_def hca_ok_def)
  next
    case (2 p)
    then have "port_ok p"
      using h(1) by (simp add: hca_ok_def list_all_iff)
    then show ?thesis
      using 2(2) word Itoa_word by (auto simp: port_lines_def port_ok_def split: prod.splits)
  qed
qed



end
