(* ===== verification/Net_Topology.thy ===== *)
theory Net_Topology
  imports Host
begin

text \<open>
  \<open>collectors/linux_bond.go\<close>: bonds, VLANs and bridges, from \<open>ip -j -d link\<close> and
  \<open>/proc/net/bonding\<close>.
\<close>

record ipLinkDetail =
  ld_IfName :: string
  ld_InfoKind :: string

definition dec_link_detail :: "ipLinkDetail decoder" where
  "dec_link_detail v =
     do { kvs \<leftarrow> as_object v;
          n \<leftarrow> field ''ifname'' dec_string [] kvs;
          info \<leftarrow> sub_object ''linkinfo'' kvs;
          k \<leftarrow> field ''info_kind'' dec_string [] info;
          Some \<lparr>ld_IfName = n, ld_InfoKind = k\<rparr> }"

record bondSlave =
  bs_Name :: string
  bs_MIIStatus :: string
  bs_SpeedMbps :: int

record bondFacts =
  bf_Name :: string
  bf_Mode :: string
  bf_HashPolicy :: string
  bf_MIIStatus :: string
  bf_LACPActive :: string
  bf_LACPRate :: string
  bf_Slaves :: "bondSlave list"

definition new_slave :: "string \<Rightarrow> bondSlave" where
  "new_slave name = \<lparr>bs_Name = name, bs_MIIStatus = [], bs_SpeedMbps = 0\<rparr>"

definition new_bond :: "string \<Rightarrow> bondFacts" where
  "new_bond name = \<lparr>bf_Name = name, bf_Mode = [], bf_HashPolicy = [], bf_MIIStatus = [], bf_LACPActive = [],
     bf_LACPRate = [], bf_Slaves = []\<rparr>"

definition slave_json :: "bondSlave \<Rightarrow> json" where
  "slave_json s = JObj
     ([(''name'', jstr (bs_Name s))]
      @ unless_empty (bs_MIIStatus s = []) ''mii_status'' (jstr (bs_MIIStatus s))
      @ unless_empty (bs_SpeedMbps s = 0) ''speed_mbps'' (jint (bs_SpeedMbps s)))"

definition bond_json :: "bondFacts \<Rightarrow> json" where
  "bond_json b = JObj
     ([(''name'', jstr (bf_Name b)), (''mode'', jstr (bf_Mode b))]
      @ unless_empty (bf_HashPolicy b = []) ''hash_policy'' (jstr (bf_HashPolicy b))
      @ unless_empty (bf_MIIStatus b = []) ''mii_status'' (jstr (bf_MIIStatus b))
      @ unless_empty (bf_LACPActive b = []) ''lacp_active'' (jstr (bf_LACPActive b))
      @ unless_empty (bf_LACPRate b = []) ''lacp_rate'' (jstr (bf_LACPRate b))
      @ unless_empty (bf_Slaves b = []) ''slaves'' (JArr (map slave_json (bf_Slaves b))))"


section \<open>/proc/net/bonding\<close>

text \<open>
  \<open>cur\<close> is nil before the first slave line and the address of the last slave afterwards: a new
  slave is appended and pointed to in one step, so a write through it always reaches the slice.
\<close>

definition slave_key :: "bondSlave \<Rightarrow> string \<times> string \<Rightarrow> bondSlave" where
  "slave_key s kv =
     (if fst kv = ''MII Status'' then s\<lparr>bs_MIIStatus := snd kv\<rparr>
      else if fst kv = ''Speed'' then s\<lparr>bs_SpeedMbps := atoiOrZero (TrimSuffix (snd kv) '' Mbps'')\<rparr>
      else s)"

definition bond_key :: "bondFacts \<Rightarrow> string \<times> string \<Rightarrow> bondFacts" where
  "bond_key b kv =
     (if fst kv = ''Bonding Mode'' then b\<lparr>bf_Mode := snd kv\<rparr>
      else if fst kv = ''Transmit Hash Policy'' then b\<lparr>bf_HashPolicy := snd kv\<rparr>
      else if fst kv = ''MII Status'' then b\<lparr>bf_MIIStatus := snd kv\<rparr>
      else if fst kv = ''LACP active'' then b\<lparr>bf_LACPActive := snd kv\<rparr>
      else if fst kv = ''LACP rate'' then b\<lparr>bf_LACPRate := snd kv\<rparr>
      else b)"

definition bond_entry :: "bondFacts \<Rightarrow> string \<times> string \<Rightarrow> bondFacts" where
  "bond_entry b kv =
     (if fst kv = ''Slave Interface'' then b\<lparr>bf_Slaves := bf_Slaves b @ [new_slave (snd kv)]\<rparr>
      else if bf_Slaves b \<noteq> [] then b\<lparr>bf_Slaves := butlast (bf_Slaves b) @ [slave_key (last (bf_Slaves b)) kv]\<rparr>
      else bond_key b kv)"

definition key_value :: "string \<Rightarrow> (string \<times> string) option" where
  "key_value line =
     (case Cut line (CHR '':'') of (key, value, ok) \<Rightarrow> if ok then Some (TrimSpace key, TrimSpace value) else None)"

definition bond_line :: "bondFacts \<Rightarrow> string \<Rightarrow> bondFacts" where
  "bond_line b line = (case key_value line of None \<Rightarrow> b | Some kv \<Rightarrow> bond_entry b kv)"

definition parseBondFile :: "string \<Rightarrow> string \<Rightarrow> bondFacts" where
  "parseBondFile name data = foldl bond_line (new_bond name) (Split data (CHR 0x0A))"


section \<open>Collect\<close>

definition bond_of :: "world \<Rightarrow> config \<Rightarrow> string \<Rightarrow> bondFacts" where
  "bond_of w c name =
     from_file w (FilepathJoin [root c, ''proc/net/bonding'', name]) (new_bond name) (parseBondFile name)"

definition of_kind :: "string \<Rightarrow> ipLinkDetail list \<Rightarrow> string list" where
  "of_kind kind links = map ld_IfName (filter (\<lambda>l. ld_InfoKind l = kind) links)"

definition topology_modes :: "bondFacts list \<Rightarrow> string list \<Rightarrow> string list \<Rightarrow> string list" where
  "topology_modes bonds vlans bridges =
     (if bonds \<noteq> [] then ''bonded'' # (if list_ex (\<lambda>b. Contains (bf_Mode b) ''802.3ad'') bonds then [''lacp''] else []) else [])
     @ (if vlans \<noteq> [] then [''vlan_tagged''] else []) @ (if bridges \<noteq> [] then [''bridged''] else [])"

definition net_topology_collect :: "config \<Rightarrow> world \<Rightarrow> Collector" where
  "net_topology_collect c w sid =
     (let f = new_facts w sid ''linux_net_topology''
      in case cf_Runner c of
           None \<Rightarrow> (Some f, Some ''net topology collector: no CommandRunner configured'')
         | Some run \<Rightarrow>
             (case tool_output run (lookPath w c) ''ip'' [''-j'', ''-d'', ''link''] of
                Inl e \<Rightarrow> (Some f, Some (''net topology collector: '' @ e))
              | Inr out \<Rightarrow>
                  (case unmarshal w (dec_slice dec_link_detail) out of
                     Inl e \<Rightarrow> (Some f, Some (''net topology collector: parsing ip link: '' @ e))
                   | Inr links \<Rightarrow>
                       let bonds = map (bond_of w c) (of_kind ''bond'' links);
                           vlans = of_kind ''vlan'' links;
                           bridges = of_kind ''bridge'' links
                       in if bonds = [] \<and> vlans = [] \<and> bridges = [] then (Some f, None)
                          else
                            let topo = unless_empty (bonds = []) ''bonds'' (JArr (map bond_json bonds))
                                  @ unless_empty (vlans = []) ''vlans'' (JArr (map jstr vlans))
                                  @ unless_empty (bridges = []) ''bridges'' (JArr (map jstr bridges))
                            in (Some ((set_raw ''net_topology'' (raw_json topo) f)
                                  \<lparr>sf_NetworkModes := topology_modes bonds vlans bridges\<rparr>), None))))"

interpretation net_topology: hardware_collector net_topology_collect "[''linux_net_topology'']"
  by unfold_locales (auto simp: net_topology_collect_def Let_def split: option.splits sum.splits prod.splits if_splits)


section \<open>The blocks of a bonding file\<close>

text \<open>The entries before the first slave line, and those of each slave.\<close>

fun slave_blocks :: "(string \<times> string) list \<Rightarrow> (string \<times> string) list \<times> (string \<times> (string \<times> string) list) list" where
  "slave_blocks [] = ([], [])"
| "slave_blocks (kv # kvs) =
     (case slave_blocks kvs of (head, blocks) \<Rightarrow>
        if fst kv = ''Slave Interface'' then ([], (snd kv, head) # blocks) else (kv # head, blocks))"

definition slave_of :: "string \<times> (string \<times> string) list \<Rightarrow> bondSlave" where
  "slave_of b = foldl slave_key (new_slave (fst b)) (snd b)"

lemma bond_entry_simps:
  "fst kv = ''Slave Interface'' \<Longrightarrow> bond_entry b kv = b\<lparr>bf_Slaves := bf_Slaves b @ [new_slave (snd kv)]\<rparr>"
  "fst kv \<noteq> ''Slave Interface'' \<Longrightarrow> bf_Slaves b = ss @ [s] \<Longrightarrow>
     bond_entry b kv = b\<lparr>bf_Slaves := ss @ [slave_key s kv]\<rparr>"
  "fst kv \<noteq> ''Slave Interface'' \<Longrightarrow> bf_Slaves b = [] \<Longrightarrow> bond_entry b kv = bond_key b kv"
  by (simp_all add: bond_entry_def)

lemma slave_of_pair: "slave_of (name, es) = foldl slave_key (new_slave name) es"
  by (simp add: slave_of_def)

lemma bond_lines: "foldl bond_line b lines = foldl bond_entry b (List.map_filter key_value lines)"
  by (induction lines arbitrary: b) (auto simp: bond_line_def map_filter_simps split: option.split)

lemma slave_entries:
  "foldl bond_entry (b\<lparr>bf_Slaves := ss @ [s]\<rparr>) kvs =
     (case slave_blocks kvs of (head, blocks) \<Rightarrow>
        b\<lparr>bf_Slaves := ss @ [foldl slave_key s head] @ map slave_of blocks\<rparr>)"
proof (induction kvs arbitrary: ss s)
  case (Cons kv kvs)
  show ?case
  proof (cases "fst kv = ''Slave Interface''")
    case True
    then show ?thesis
      using Cons [where ss = "ss @ [s]" and s = "new_slave (snd kv)"]
      by (simp add: bond_entry_simps slave_of_pair split: prod.split)
  next
    case False
    then show ?thesis
      using Cons [where ss = ss and s = "slave_key s kv"] by (simp add: bond_entry_simps split: prod.split)
  qed
qed simp

lemma bond_key_slaves [simp]: "bf_Slaves (bond_key b kv) = bf_Slaves b"
  by (simp add: bond_key_def)

lemma bond_entries:
  "bf_Slaves b = [] \<Longrightarrow>
     foldl bond_entry b kvs = (case slave_blocks kvs of (head, blocks) \<Rightarrow> (foldl bond_key b head)\<lparr>bf_Slaves := map slave_of blocks\<rparr>)"
proof (induction kvs arbitrary: b)
  case (Cons kv kvs)
  show ?case
  proof (cases "fst kv = ''Slave Interface''")
    case True
    then show ?thesis
      using slave_entries [where b = b and ss = "[]" and s = "new_slave (snd kv)" and kvs = kvs] Cons.prems
      by (simp add: bond_entry_simps slave_of_pair split: prod.split)
  next
    case False
    then show ?thesis
      using Cons by (simp add: bond_entry_simps split: prod.split)
  qed
qed simp


end
