(* ===== verification/Nic_Offload.thy ===== *)
theory Nic_Offload
  imports Linux_Host
begin

text \<open>
  \<open>collectors/linux_ethtool_deep.go\<close>: driver, rings, channels and hardware timestamping of every
  Ethernet interface, from ethtool.
\<close>

record nicOffloadFacts =
  no_Driver :: "(string, string) gomap"
  no_RingsMax :: "(string, int) gomap"
  no_RingsCurrent :: "(string, int) gomap"
  no_ChannelsMax :: "(string, int) gomap"
  no_ChannelsCurrent :: "(string, int) gomap"
  no_TimestampCaps :: "string list"
  no_PHCIndex :: int

text \<open>A map or slice without elements is left out like a nil one.\<close>

definition offload_json :: "nicOffloadFacts \<Rightarrow> json" where
  "offload_json n = JObj
     (unless_empty (no_Driver n = []) ''driver'' (raw_json (map (\<lambda>(k, v). (k, jstr v)) (no_Driver n)))
      @ unless_empty (no_RingsMax n = []) ''rings_max'' (raw_json (map (\<lambda>(k, v). (k, jint v)) (no_RingsMax n)))
      @ unless_empty (no_RingsCurrent n = []) ''rings_current'' (raw_json (map (\<lambda>(k, v). (k, jint v)) (no_RingsCurrent n)))
      @ unless_empty (no_ChannelsMax n = []) ''channels_max'' (raw_json (map (\<lambda>(k, v). (k, jint v)) (no_ChannelsMax n)))
      @ unless_empty (no_ChannelsCurrent n = []) ''channels_current'' (raw_json (map (\<lambda>(k, v). (k, jint v)) (no_ChannelsCurrent n)))
      @ unless_empty (no_TimestampCaps n = []) ''timestamp_caps'' (JArr (map jstr (no_TimestampCaps n)))
      @ [(''phc_index'', jint (no_PHCIndex n))])"


section \<open>ethtool -i\<close>

definition driver_line :: "(string, string) gomap \<Rightarrow> string \<Rightarrow> (string, string) gomap" where
  "driver_line info line =
     (case Cut line (CHR '':'') of (k, v, ok) \<Rightarrow>
        if \<not> ok then info
        else let key = TrimSpace k; value = TrimSpace v
          in if key \<in> set [''driver'', ''version'', ''firmware-version'', ''bus-info''] \<and> value \<noteq> []
             then AList.update key value info else info)"

definition parseEthtoolDriverInfo :: "string \<Rightarrow> (string, string) gomap" where
  "parseEthtoolDriverInfo out = foldl driver_line [] (Split out (CHR 0x0A))"


section \<open>ethtool -g and ethtool -l\<close>

text \<open>The maps \<open>max\<close> and \<open>current\<close>, and whether \<open>target\<close> is the second.\<close>

record max_current =
  mc_max :: "(string, int) gomap"
  mc_current :: "(string, int) gomap"
  mc_to_current :: bool

definition put_target :: "string \<Rightarrow> int \<Rightarrow> max_current \<Rightarrow> max_current" where
  "put_target key v st =
     (if mc_to_current st then st\<lparr>mc_current := AList.update key v (mc_current st)\<rparr>
      else st\<lparr>mc_max := AList.update key v (mc_max st)\<rparr>)"

definition max_current_line :: "max_current \<Rightarrow> string \<Rightarrow> max_current" where
  "max_current_line st raw =
     (let line = TrimSpace raw
      in if line = [] then st
         else if HasPrefix line ''Pre-set maximums'' then st\<lparr>mc_to_current := False\<rparr>
         else if HasPrefix line ''Current hardware settings'' then st\<lparr>mc_to_current := True\<rparr>
         else if HasSuffix line '':'' then st
         else case Cut line (CHR '':'') of (key, v, ok) \<Rightarrow>
           if \<not> ok then st
           else let value = TrimSpace v
             in if value = ''n/a'' \<or> value = [] then st
                else put_target (ToLower (TrimSpace key)) (atoiOrZero value) st)"

definition parseEthtoolMaxCurrent :: "string \<Rightarrow> (string, int) gomap \<times> (string, int) gomap" where
  "parseEthtoolMaxCurrent out =
     (let st = foldl max_current_line \<lparr>mc_max = [], mc_current = [], mc_to_current = False\<rparr> (Split out (CHR 0x0A))
      in (mc_max st, mc_current st))"


section \<open>ethtool -T\<close>

record timestamping =
  ts_caps :: "string list"
  ts_phcIndex :: int
  ts_inCaps :: bool

definition phc_value :: "string \<Rightarrow> int option" where
  "phc_value value =
     (if value = ''none'' then None
      else let n = atoiOrZero value in if n > 0 \<or> value = ''0'' then Some n else None)"

definition timestamping_line :: "timestamping \<Rightarrow> string \<Rightarrow> timestamping" where
  "timestamping_line st raw =
     (let line = TrimSpace raw
      in if line = [] then st
         else if HasPrefix line ''Capabilities:'' then st\<lparr>ts_inCaps := True\<rparr>
         else if HasPrefix line ''PTP Hardware Clock:'' then
           (case phc_value (TrimSpace (fst (snd (Cut line (CHR '':''))))) of
              None \<Rightarrow> st\<lparr>ts_inCaps := False\<rparr>
            | Some n \<Rightarrow> st\<lparr>ts_inCaps := False, ts_phcIndex := n\<rparr>)
         else if HasSuffix line '':'' then st\<lparr>ts_inCaps := False\<rparr>
         else if ts_inCaps st then st\<lparr>ts_caps := ts_caps st @ [line]\<rparr>
         else st)"

definition parseEthtoolTimestamping :: "string \<Rightarrow> string list \<times> int" where
  "parseEthtoolTimestamping out =
     (let st = foldl timestamping_line \<lparr>ts_caps = [], ts_phcIndex = -1, ts_inCaps = False\<rparr> (Split out (CHR 0x0A))
      in (ts_caps st, ts_phcIndex st))"


section \<open>Collect\<close>

text \<open>One ethtool subcommand; its failure leaves the section as it is.\<close>

definition ethtool_section :: "CommandRunner \<Rightarrow> string \<Rightarrow> string \<Rightarrow> (string \<Rightarrow> nicOffloadFacts \<Rightarrow> nicOffloadFacts) \<Rightarrow> nicOffloadFacts \<Rightarrow> nicOffloadFacts" where
  "ethtool_section run flag name upd entry =
     (case run ''ethtool'' [flag, name] of (out, None) \<Rightarrow> upd out entry | _ \<Rightarrow> entry)"

definition nic_offload :: "CommandRunner \<Rightarrow> string \<Rightarrow> nicOffloadFacts" where
  "nic_offload run name =
     (let e0 = \<lparr>no_Driver = [], no_RingsMax = [], no_RingsCurrent = [], no_ChannelsMax = [], no_ChannelsCurrent = [],
                no_TimestampCaps = [], no_PHCIndex = -1\<rparr>;
          e1 = ethtool_section run ''-i'' name (\<lambda>out e. e\<lparr>no_Driver := parseEthtoolDriverInfo out\<rparr>) e0;
          e2 = ethtool_section run ''-g'' name (\<lambda>out e. case parseEthtoolMaxCurrent out of (m, cu) \<Rightarrow>
                 e\<lparr>no_RingsMax := m, no_RingsCurrent := cu\<rparr>) e1;
          e3 = ethtool_section run ''-l'' name (\<lambda>out e. case parseEthtoolMaxCurrent out of (m, cu) \<Rightarrow>
                 e\<lparr>no_ChannelsMax := m, no_ChannelsCurrent := cu\<rparr>) e2
      in ethtool_section run ''-T'' name (\<lambda>out e. case parseEthtoolTimestamping out of (caps, phc) \<Rightarrow>
                 e\<lparr>no_TimestampCaps := caps, no_PHCIndex := phc\<rparr>) e3)"

text \<open>The loop over the links: \<open>perNIC\<close> and \<open>sawPHC\<close>.\<close>

definition offload_link :: "CommandRunner \<Rightarrow> (string, nicOffloadFacts) gomap \<times> bool \<Rightarrow> ipLinkEntry \<Rightarrow> (string, nicOffloadFacts) gomap \<times> bool" where
  "offload_link run st link =
     (if il_LinkType link \<noteq> ''ether'' then st
      else let entry = nic_offload run (il_IfName link)
        in (AList.update (il_IfName link) entry (fst st), snd st \<or> no_PHCIndex entry \<ge> 0))"

text \<open>Both tools must be there before the first is run.\<close>

definition require_both :: "(string \<Rightarrow> string + string) \<Rightarrow> string option" where
  "require_both look =
     (case requireCommand look ''ip'' of Some e \<Rightarrow> Some e | None \<Rightarrow> requireCommand look ''ethtool'')"

definition offload_links :: "world \<Rightarrow> CommandRunner \<Rightarrow> (string \<Rightarrow> string + string) \<Rightarrow> string + ipLinkEntry list" where
  "offload_links w run look =
     (case require_both look of
        Some e \<Rightarrow> Inl (''nic offload collector: '' @ e)
      | None \<Rightarrow>
          (case run ''ip'' [''-j'', ''link''] of
             (_, Some e) \<Rightarrow> Inl (''nic offload collector: '' @ e)
           | (out, None) \<Rightarrow>
               (case unmarshal w (dec_slice dec_ip_link) out of
                  Inl e \<Rightarrow> Inl (''nic offload collector: parsing ip link: '' @ e)
                | Inr links \<Rightarrow> Inr links)))"

definition nic_offload_collect :: "config \<Rightarrow> world \<Rightarrow> Collector" where
  "nic_offload_collect c w sid =
     (let f = new_facts w sid ''linux_nic_offload''
      in case cf_Runner c of
           None \<Rightarrow> (Some f, Some ''nic offload collector: no CommandRunner configured'')
         | Some run \<Rightarrow>
             (case offload_links w run (lookPath w c) of
                Inl e \<Rightarrow> (Some f, Some e)
              | Inr links \<Rightarrow>
                  (case foldl (offload_link run) ([], False) links of (perNIC, sawPHC) \<Rightarrow>
                     if perNIC = [] then (Some f, None)
                     else (Some ((set_raw ''nic_offload'' (raw_json (map (\<lambda>(k, v). (k, offload_json v)) perNIC)) f)
                            \<lparr>sf_Capabilities := (if sawPHC then [''ptp_hardware_clock''] else [])\<rparr>), None))))"

interpretation nic_offload: hardware_collector nic_offload_collect "[''linux_nic_offload'']"
  by unfold_locales (auto simp: nic_offload_collect_def Let_def split: option.splits sum.splits prod.splits if_splits)


section \<open>What the collector claims\<close>

definition ethers :: "ipLinkEntry list \<Rightarrow> string list" where
  "ethers links = map il_IfName (filter (\<lambda>l. il_LinkType l = ''ether'') links)"

lemma offload_fold:
  "case foldl (offload_link run) (m, saw) links of (perNIC, sawPHC) \<Rightarrow>
     map_of perNIC n = (if n \<in> set (ethers links) then Some (nic_offload run n) else map_of m n)
     \<and> sawPHC = (saw \<or> (\<exists>n\<in>set (ethers links). no_PHCIndex (nic_offload run n) \<ge> 0))"
proof (induction links arbitrary: m saw)
  case (Cons link links)
  show ?case
    using Cons [of "fst (offload_link run (m, saw) link)" "snd (offload_link run (m, saw) link)"]
    by (cases "il_LinkType link = ''ether''")
       (auto simp: offload_link_def ethers_def Let_def update_conv' split: prod.splits)
qed (simp add: ethers_def)

lemma offload_capabilities:
  assumes "cf_Runner c = Some run" and "offload_links w run (lookPath w c) = Inr links"
    and "nic_offload_collect c w sid = (Some f, e)"
  shows "e = None \<and> sf_Capabilities f =
    (if \<exists>n\<in>set (ethers links). no_PHCIndex (nic_offload run n) \<ge> 0 then [''ptp_hardware_clock''] else [])"
proof -
  obtain perNIC saw where fold: "foldl (offload_link run) ([], False) links = (perNIC, saw)"
    by fastforce
  have saw: "saw = (\<exists>n\<in>set (ethers links). no_PHCIndex (nic_offload run n) \<ge> 0)"
    and entries: "\<And>n. map_of perNIC n = (if n \<in> set (ethers links) then Some (nic_offload run n) else None)"
    using offload_fold [where run = run and m = "[]" and saw = False and links = links] by (auto simp: fold)
  have none: "\<not> saw" if "perNIC = []"
    using entries saw that by (metis map_of.simps(1) option.distinct(1))
  show ?thesis
  proof (cases "perNIC = []")
    case True
    then show ?thesis
      using assms none saw fold by (auto simp: nic_offload_collect_def)
  next
    case False
    then show ?thesis
      using assms saw fold by (auto simp: nic_offload_collect_def)
  qed
qed

end
