(* ===== verification/Gpu.thy ===== *)
theory Gpu
  imports Host
begin

text \<open>
  \<open>collectors/linux_gpu.go\<close>: GPUs, BlueField DPUs and the GPUDirect path, from PCI identities,
  loaded modules, device nodes and nvidia-smi.
\<close>

record gpuDevice =
  gd_Address :: string
  gd_VendorID :: string
  gd_DeviceID :: string
  gd_ClassID :: string
  gd_Kind :: string

record nvidiaSMIGpu =
  sg_Name :: string
  sg_DriverVersion :: string
  sg_MemoryTotal :: string

definition gpu_json :: "gpuDevice \<Rightarrow> json" where
  "gpu_json d = JObj
     [(''address'', jstr (gd_Address d)), (''vendor_id'', jstr (gd_VendorID d)), (''device_id'', jstr (gd_DeviceID d)),
      (''class_id'', jstr (gd_ClassID d)), (''kind'', jstr (gd_Kind d))]"

definition smi_json :: "nvidiaSMIGpu \<Rightarrow> json" where
  "smi_json g = JObj
     ([(''name'', jstr (sg_Name g))]
      @ unless_empty (sg_DriverVersion g = []) ''driver_version'' (jstr (sg_DriverVersion g))
      @ unless_empty (sg_MemoryTotal g = []) ''memory_total'' (jstr (sg_MemoryTotal g)))"

definition pciVendorNVIDIA :: string where
  "pciVendorNVIDIA = ''0x10de''"

definition pciVendorMellanox :: string where
  "pciVendorMellanox = ''0x15b3''"

definition bluefieldDeviceIDs :: "string list" where
  "bluefieldDeviceIDs = [''0xa2d2'', ''0xa2d6'', ''0xa2dc'']"


section \<open>The sources\<close>

definition readTrimmedLower :: "world \<Rightarrow> string \<Rightarrow> string" where
  "readTrimmedLower w path = from_file w path [] (\<lambda>data. ToLower (TrimSpace data))"

text \<open>What a PCI function is, by vendor, device and class.\<close>

definition gpu_kind :: "string \<Rightarrow> string \<Rightarrow> string \<Rightarrow> string option" where
  "gpu_kind vendor device cls =
     (if vendor = [] \<or> cls = [] then None
      else let baseClass = (if HasPrefix cls ''0x'' \<and> length cls \<ge> 4 then take 2 (drop 2 cls) else [])
        in if vendor = pciVendorNVIDIA \<and> baseClass = ''03'' then Some ''nvidia_gpu''
           else if vendor = pciVendorMellanox \<and> device \<in> set bluefieldDeviceIDs then Some ''bluefield_dpu''
           else None)"

definition gpu_function :: "world \<Rightarrow> string \<Rightarrow> string \<times> bool \<Rightarrow> gpuDevice option" where
  "gpu_function w base e =
     (let dir = FilepathJoin [base, fst e];
          vendor = readTrimmedLower w (FilepathJoin [dir, ''vendor'']);
          device = readTrimmedLower w (FilepathJoin [dir, ''device'']);
          cls = readTrimmedLower w (FilepathJoin [dir, ''class''])
      in map_option (\<lambda>kind. \<lparr>gd_Address = fst e, gd_VendorID = vendor, gd_DeviceID = device, gd_ClassID = cls, gd_Kind = kind\<rparr>)
           (gpu_kind vendor device cls))"

definition scanPCI :: "world \<Rightarrow> config \<Rightarrow> gpuDevice list \<times> bool" where
  "scanPCI w c =
     (let base = FilepathJoin [root c, ''sys/bus/pci/devices'']
      in case w_ReadDir w base of
           None \<Rightarrow> ([], False)
         | Some entries \<Rightarrow> (List.map_filter (gpu_function w base) entries, True))"

definition peermem_line :: "string \<Rightarrow> bool" where
  "peermem_line line \<longleftrightarrow> fst (Cut line (CHR '' '')) \<in> set [''nvidia_peermem'', ''nv_peer_mem'']"

definition hasPeermemModule :: "world \<Rightarrow> config \<Rightarrow> bool \<times> bool" where
  "hasPeermemModule w c =
     (case w_ReadFile w (FilepathJoin [root c, ''proc/modules'']) of
        None \<Rightarrow> (False, False)
      | Some data \<Rightarrow> (list_ex peermem_line (Split data (CHR 0x0A)), True))"

definition hasRDMADevice :: "world \<Rightarrow> config \<Rightarrow> bool" where
  "hasRDMADevice w c =
     (case w_ReadDir w (FilepathJoin [root c, ''sys/class/infiniband'']) of None \<Rightarrow> False | Some es \<Rightarrow> es \<noteq> [])"

definition hasMST :: "world \<Rightarrow> config \<Rightarrow> bool" where
  "hasMST w c \<longleftrightarrow> w_Stat w (FilepathJoin [root c, ''dev/mst'']) = None"

definition hasNvidiaCtl :: "world \<Rightarrow> config \<Rightarrow> bool" where
  "hasNvidiaCtl w c \<longleftrightarrow> w_Stat w (FilepathJoin [root c, ''dev/nvidiactl'']) = None"

definition smi_line :: "string \<Rightarrow> nvidiaSMIGpu option" where
  "smi_line raw =
     (let line = TrimSpace raw
      in if line = [] then None
         else let fs = Split line (CHR '','');
                  name = TrimSpace (hd fs)
           in if name = [] then None
              else Some \<lparr>sg_Name = name,
                         sg_DriverVersion = (if length fs > 1 then TrimSpace (fs ! 1) else []),
                         sg_MemoryTotal = (if length fs > 2 then TrimSpace (fs ! 2) else [])\<rparr>)"

definition parseNvidiaSMICSV :: "string \<Rightarrow> nvidiaSMIGpu list" where
  "parseNvidiaSMICSV out = List.map_filter smi_line (Split out (CHR 0x0A))"

text \<open>nvidia-smi's GPUs, \<open>None\<close> when it did not run.\<close>

definition smi_gpus :: "world \<Rightarrow> config \<Rightarrow> nvidiaSMIGpu list option" where
  "smi_gpus w c =
     (case cf_Runner c of
        None \<Rightarrow> None
      | Some run \<Rightarrow>
          (case tool_output run (lookPath w c) ''nvidia-smi''
                  [''--query-gpu=name,driver_version,memory.total'', ''--format=csv,noheader''] of
             Inl _ \<Rightarrow> None
           | Inr out \<Rightarrow> Some (parseNvidiaSMICSV out)))"


section \<open>Collect\<close>

definition gpu_caps :: "bool \<Rightarrow> bool \<Rightarrow> bool \<Rightarrow> bool \<Rightarrow> bool \<Rightarrow> string list" where
  "gpu_caps nvidiaGPU cudaReady bluefield doca gpudirect =
     (let caps = cap_if [] ''gpu'' nvidiaGPU;
          caps = cap_if caps ''nvidia_gpu'' nvidiaGPU;
          caps = cap_if caps ''gpu_cuda'' cudaReady;
          caps = cap_if caps ''bluefield_dpu'' bluefield;
          caps = cap_if caps ''doca'' doca
      in cap_if caps ''gpudirect_rdma'' gpudirect)"

definition gpu_collect :: "config \<Rightarrow> world \<Rightarrow> Collector" where
  "gpu_collect c w sid =
     (let f = new_facts w sid ''linux_gpu'';
          (devices, sawPCI) = scanPCI w c;
          smi = smi_gpus w c;
          smiGPUs = (case smi of None \<Rightarrow> [] | Some gs \<Rightarrow> gs);
          nvidiaGPU = (list_ex (\<lambda>d. gd_Kind d = ''nvidia_gpu'') devices \<or> smiGPUs \<noteq> []);
          bluefield = list_ex (\<lambda>d. gd_Kind d = ''bluefield_dpu'') devices;
          (peermem, sawModules) = hasPeermemModule w c;
          rdmaPresent = hasRDMADevice w c;
          mstPresent = hasMST w c;
          docaTool = (requireCommand (lookPath w c) ''doca'' = None);
          cudaReady = (smiGPUs \<noteq> [] \<or> hasNvidiaCtl w c);
          sawAnySource = (sawPCI \<or> smi \<noteq> None \<or> sawModules \<or> rdmaPresent \<or> mstPresent \<or> hasNvidiaCtl w c);
          gpuRaw = unless_empty (devices = []) ''pci'' (JArr (map gpu_json devices))
            @ unless_empty (smiGPUs = []) ''nvidia_smi'' (JArr (map smi_json smiGPUs))
            @ unless_empty (\<not> peermem) ''peermem_module'' (JBool True);
          f' = f\<lparr>sf_Capabilities := gpu_caps nvidiaGPU cudaReady bluefield (mstPresent \<or> docaTool) (peermem \<and> rdmaPresent)\<rparr>
      in if \<not> sawAnySource then (Some f, Some (''gpu collector: no GPU-related sources readable under '' @ root c))
         else (Some (if gpuRaw = [] then f' else set_raw ''gpu'' (raw_json gpuRaw) f'), None))"

interpretation gpu: hardware_collector gpu_collect "[''linux_gpu'']"
  by unfold_locales (auto simp: gpu_collect_def Let_def split: option.splits sum.splits prod.splits if_splits)


section \<open>What the collector claims\<close>

text \<open>The evidence for each capability.\<close>

definition gpu_evidence :: "world \<Rightarrow> config \<Rightarrow> string \<Rightarrow> bool" where
  "gpu_evidence w c cap \<longleftrightarrow>
     (let nvidia = (\<exists>d\<in>set (fst (scanPCI w c)). gd_Kind d = ''nvidia_gpu'');
          listed = (\<exists>g gs. smi_gpus w c = Some (g # gs))
      in cap = ''gpu'' \<and> (nvidia \<or> listed) \<or> cap = ''nvidia_gpu'' \<and> (nvidia \<or> listed)
       \<or> cap = ''gpu_cuda'' \<and> (listed \<or> hasNvidiaCtl w c)
       \<or> cap = ''bluefield_dpu'' \<and> (\<exists>d\<in>set (fst (scanPCI w c)). gd_Kind d = ''bluefield_dpu'')
       \<or> cap = ''doca'' \<and> (hasMST w c \<or> requireCommand (lookPath w c) ''doca'' = None)
       \<or> cap = ''gpudirect_rdma'' \<and> fst (hasPeermemModule w c) \<and> hasRDMADevice w c)"

lemma set_gpu_caps: "cap \<in> set (gpu_caps g cu b d r) \<longleftrightarrow>
    cap = ''gpu'' \<and> g \<or> cap = ''nvidia_gpu'' \<and> g \<or> cap = ''gpu_cuda'' \<and> cu \<or> cap = ''bluefield_dpu'' \<and> b
    \<or> cap = ''doca'' \<and> d \<or> cap = ''gpudirect_rdma'' \<and> r"
  unfolding gpu_caps_def Let_def set_cap_if by (simp only: list.set empty_iff simp_thms disj_assoc)

lemma listed_iff: "(case x of None \<Rightarrow> [] | Some gs \<Rightarrow> gs) \<noteq> [] \<longleftrightarrow> (\<exists>g gs. x = Some (g # gs))"
  by (cases x) (auto simp: neq_Nil_conv)

text \<open>
  A GPU or DPU capability is reported exactly on evidence: a GPU when a PCI display function
  of NVIDIA or nvidia-smi shows one, CUDA only with a working driver, a BlueField by its device id,
  and GPUDirect RDMA only when the peer-memory module is loaded and the host has an RDMA device.
  Without a single readable source the collector reports no capability and an error.
\<close>

lemma gpu_capabilities:
  assumes "gpu_collect c w sid = (Some f, e)"
  shows "(e = None \<longrightarrow> (\<forall>cap. cap \<in> set (sf_Capabilities f) \<longleftrightarrow> gpu_evidence w c cap))
    \<and> (e \<noteq> None \<longrightarrow> sf_Capabilities f = [])"
proof -
  obtain devices sawPCI where pci: "scanPCI w c = (devices, sawPCI)" by fastforce
  obtain peermem sawModules where pm: "hasPeermemModule w c = (peermem, sawModules)" by fastforce
  let ?smi = "case smi_gpus w c of None \<Rightarrow> [] | Some gs \<Rightarrow> gs"
  let ?caps = "gpu_caps (list_ex (\<lambda>d. gd_Kind d = ''nvidia_gpu'') devices \<or> ?smi \<noteq> []) (?smi \<noteq> [] \<or> hasNvidiaCtl w c)
      (list_ex (\<lambda>d. gd_Kind d = ''bluefield_dpu'') devices) (hasMST w c \<or> requireCommand (lookPath w c) ''doca'' = None)
      (peermem \<and> hasRDMADevice w c)"
  have "cap \<in> set ?caps \<longleftrightarrow> gpu_evidence w c cap" for cap
    unfolding set_gpu_caps listed_iff gpu_evidence_def pci pm Let_def list_ex_iff fst_conv ..
  moreover have "e = None \<longrightarrow> sf_Capabilities f = ?caps" and "e \<noteq> None \<longrightarrow> sf_Capabilities f = []"
    using assms by (auto simp: gpu_collect_def Let_def pci pm split: if_splits)
  ultimately show ?thesis by simp
qed

text \<open>A host with a BlueField DPU, the peer-memory module, and no RDMA device.\<close>

definition dpu_world :: "world \<Rightarrow> world" where
  "dpu_world w = w\<lparr>w_LookPath := (\<lambda>_. Inl ''not found''), w_Stat := (\<lambda>_. Some ''no such file''),
     w_ReadDir := (\<lambda>p. if p = ''/sys/bus/pci/devices'' then Some [(''0000:03:00.0'', False)] else None),
     w_ReadFile := (\<lambda>p. if p = ''/proc/modules'' then Some ''nvidia_peermem 16384 0''
        else if p = ''/sys/bus/pci/devices/0000:03:00.0/vendor'' then Some ''0x15b3''
        else if p = ''/sys/bus/pci/devices/0000:03:00.0/device'' then Some ''0xA2D6''
        else if p = ''/sys/bus/pci/devices/0000:03:00.0/class'' then Some ''0x020000'' else None)\<rparr>"

lemma dpu_world_sources:
  "map gd_Kind (fst (scanPCI (dpu_world w) (new_config (dpu_world w)))) = [''bluefield_dpu'']"
  "hasRDMADevice (dpu_world w) (new_config (dpu_world w)) = False"
  "hasMST (dpu_world w) c = False" "hasNvidiaCtl (dpu_world w) c = False"
  "smi_gpus (dpu_world w) (new_config (dpu_world w)) = None"
  "requireCommand (lookPath (dpu_world w) (new_config (dpu_world w))) x = Some (x @ '' not found: not found'')"
proof -
  have root: "root (new_config v) = ''/''" for v
    by (simp add: root_def new_config_def)
  have paths: "FilepathJoin [''/'', ''sys/bus/pci/devices''] = ''/sys/bus/pci/devices''"
    "FilepathJoin [''/'', ''sys/class/infiniband''] = ''/sys/class/infiniband''"
    "FilepathJoin [''/sys/bus/pci/devices'', ''0000:03:00.0''] = ''/sys/bus/pci/devices/0000:03:00.0''"
    "FilepathJoin [''/sys/bus/pci/devices/0000:03:00.0'', ''vendor''] = ''/sys/bus/pci/devices/0000:03:00.0/vendor''"
    "FilepathJoin [''/sys/bus/pci/devices/0000:03:00.0'', ''device''] = ''/sys/bus/pci/devices/0000:03:00.0/device''"
    "FilepathJoin [''/sys/bus/pci/devices/0000:03:00.0'', ''class''] = ''/sys/bus/pci/devices/0000:03:00.0/class''"
    by code_simp+
  have kind: "gpu_kind (ToLower (TrimSpace ''0x15b3'')) (ToLower (TrimSpace ''0xA2D6'')) (ToLower (TrimSpace ''0x020000'')) = Some ''bluefield_dpu''"
    by code_simp
  show "map gd_Kind (fst (scanPCI (dpu_world w) (new_config (dpu_world w)))) = [''bluefield_dpu'']"
    unfolding scanPCI_def Let_def root paths
    by (simp add: dpu_world_def map_filter_simps gpu_function_def Let_def paths readTrimmedLower_def from_file_def kind)
  show "hasRDMADevice (dpu_world w) (new_config (dpu_world w)) = False"
    unfolding hasRDMADevice_def root paths by (simp add: dpu_world_def)
  show "hasMST (dpu_world w) c = False" "hasNvidiaCtl (dpu_world w) c = False"
    by (simp_all add: hasMST_def hasNvidiaCtl_def dpu_world_def)
  show look: "requireCommand (lookPath (dpu_world w) (new_config (dpu_world w))) x = Some (x @ '' not found: not found'')" for x
    by (simp add: requireCommand_def lookPath_def new_config_def dpu_world_def)
  show "smi_gpus (dpu_world w) (new_config (dpu_world w)) = None"
    by (simp add: smi_gpus_def tool_output_def look split: option.split)
qed

lemma gpu_capabilities_example:
  "\<exists>f. gpu_collect (new_config (dpu_world bare_world)) (dpu_world bare_world) ''srv'' = (Some f, None) \<and> set (sf_Capabilities f) = {''bluefield_dpu''}"
proof -
  let ?w = "dpu_world bare_world" and ?c = "new_config (dpu_world bare_world)"
  obtain f e where r: "gpu_collect ?c ?w ''srv'' = (Some f, e)"
    using gpu.reports by blast
  obtain devices sawPCI where pci: "scanPCI ?w ?c = (devices, sawPCI)" by fastforce
  have kinds: "\<exists>d\<in>set devices. gd_Kind d = ''bluefield_dpu''" "\<not> (\<exists>d\<in>set devices. gd_Kind d = ''nvidia_gpu'')" "sawPCI"
    using dpu_world_sources(1) [of bare_world] pci by (auto simp: scanPCI_def Let_def split: option.splits)
  have "e = None"
    using r kinds(3) by (auto simp: gpu_collect_def Let_def pci split: prod.splits if_splits)
  moreover have "gpu_evidence ?w ?c cap \<longleftrightarrow> cap = ''bluefield_dpu''" for cap
    unfolding gpu_evidence_def Let_def pci fst_conv dpu_world_sources(2-6) using kinds(1,2) by simp
  ultimately show ?thesis
    using gpu_capabilities [OF r] r by auto
qed

end
