(* ===== verification/Redfish.thy ===== *)
theory Redfish
  imports Host Store
begin

text \<open>
  \<open>collectors/redfish.go\<close> and \<open>collectors/provisioning.go\<close>: the two collectors that do not look at
  the host, one asking the BMC over HTTP, the other the provisioning store.
\<close>


section \<open>The first value of a stream\<close>

text \<open>
  \<open>json.NewDecoder(r).Decode\<close> reads the input up to the end of the first value; what follows is not
  looked at.
\<close>

definition finished :: "pstate \<Rightarrow> json option" where
  "finished st = (case snd st of MDone v \<Rightarrow> Some v | _ \<Rightarrow> None)"

function decode_from :: "pstate \<Rightarrow> string \<Rightarrow> json option" where
  "decode_from st [] = None"
| "decode_from st (c # s) =
     (if json_space c then decode_from st s
      else case lex1 (c # s) of
        None \<Rightarrow> None
      | Some (tok, r) \<Rightarrow>
          (case pstep st tok of
             None \<Rightarrow> None
           | Some st' \<Rightarrow> (case finished st' of Some v \<Rightarrow> Some v | None \<Rightarrow> decode_from st' r)))"
  by pat_completeness auto
termination
  by (relation "measure (\<lambda>(st, s). length s)") (auto dest: lex1_shorter)

declare decode_from.simps(2) [simp del]

definition decode_first :: "string \<Rightarrow> json option" where
  "decode_first s = decode_from ([], MValue) s"

lemma pstep_finished: "finished st = Some v \<Longrightarrow> pstep st tok = None"
  by (cases st) (simp add: pstep_def finished_def split: mode.splits)

lemma decode_from_lex:
  "lex s = Some ts \<Longrightarrow> ts \<noteq> [] \<Longrightarrow> prun st ts = Some st' \<Longrightarrow> finished st' = Some v \<Longrightarrow> decode_from st s = Some v"
proof (induction st s arbitrary: ts rule: decode_from.induct)
  case (2 st c s)
  show ?case
  proof (cases "json_space c")
    case True
    with 2 show ?thesis
      by (simp add: lex.simps(2) decode_from.simps(2))
  next
    case False
    then obtain tok r ts' where tok: "lex1 (c # s) = Some (tok, r)" "lex r = Some ts'" "ts = tok # ts'"
      using 2(3) by (auto simp: lex.simps(2) split: option.splits)
    then obtain st1 where st1: "pstep st tok = Some st1" "prun st1 ts' = Some st'"
      using 2(5) by (auto split: option.splits)
    show ?thesis
    proof (cases "ts' = []")
      case True
      then show ?thesis
        using st1 tok False 2(6) by (simp add: decode_from.simps(2))
    next
      case False': False
      then have "finished st1 = None"
        using st1(2) pstep_finished by (cases ts'; cases "finished st1") (auto split: option.splits)
      then show ?thesis
        using 2(2) [OF False tok(1) refl st1(1)] st1 tok False False' 2(6) by (simp add: decode_from.simps(2))
    qed
  qed
qed simp

lemma decode_first_parse: "parse_json s = Some v \<Longrightarrow> decode_first s = Some v"
proof -
  assume "parse_json s = Some v"
  then obtain ts where ts: "lex s = Some ts" "prun ([], MValue) ts = Some ([], MDone v)"
    by (auto simp: parse_json_def parse_tokens_def split: option.splits list.splits mode.splits)
  then have "ts \<noteq> []" by auto
  with ts show "decode_first s = Some v"
    unfolding decode_first_def using decode_from_lex [OF ts(1) _ ts(2), of v] by (simp add: finished_def)
qed


section \<open>Redfish\<close>

record RedfishCollector =
  rc_BaseURL :: string
  rc_Token :: string

definition NewRedfishCollector :: "string \<Rightarrow> string \<Rightarrow> RedfishCollector" where
  "NewRedfishCollector baseURL token = \<lparr>rc_BaseURL = baseURL, rc_Token = token\<rparr>"

record redfishSystem =
  rs_PowerState :: string
  rs_Manufacturer :: string
  rs_Model :: string
  rs_SerialNumber :: string
  rs_Health :: string
  rs_State :: string

definition dec_system :: "redfishSystem decoder" where
  "dec_system v =
     do { kvs \<leftarrow> as_object v;
          p \<leftarrow> field ''PowerState'' dec_string [] kvs;
          m \<leftarrow> field ''Manufacturer'' dec_string [] kvs;
          mo \<leftarrow> field ''Model'' dec_string [] kvs;
          sn \<leftarrow> field ''SerialNumber'' dec_string [] kvs;
          status \<leftarrow> sub_object ''Status'' kvs;
          h \<leftarrow> field ''Health'' dec_string [] status;
          st \<leftarrow> field ''State'' dec_string [] status;
          Some \<lparr>rs_PowerState = p, rs_Manufacturer = m, rs_Model = mo, rs_SerialNumber = sn, rs_Health = h, rs_State = st\<rparr> }"

definition demoRedfishFacts :: "world \<Rightarrow> string \<Rightarrow> ServerFacts" where
  "demoRedfishFacts w sid =
     (new_facts w sid ''redfish_demo'')\<lparr>sf_PowerState := ''on'',
        sf_Raw := Some [(''vendor'', jstr ''Demo Vendor''), (''model'', jstr ''Demo Model X1''),
          (''serial_number'', jstr ''DEMO-SERIAL-0000''), (''demo_mode'', JBool True),
          (''demo_reason'', jstr ''no reachable Redfish/BMC endpoint in this build environment'')]\<rparr>"

definition redfish_facts :: "world \<Rightarrow> string \<Rightarrow> redfishSystem \<Rightarrow> ServerFacts" where
  "redfish_facts w sid sys =
     (new_facts w sid ''redfish'')\<lparr>sf_PowerState := ToLower (rs_PowerState sys),
        sf_Raw := Some [(''vendor'', jstr (rs_Manufacturer sys)), (''model'', jstr (rs_Model sys)),
          (''serial_number'', jstr (rs_SerialNumber sys)), (''redfish_health'', jstr (rs_Health sys)),
          (''redfish_state'', jstr (rs_State sys))]\<rparr>"

definition redfish_url :: "RedfishCollector \<Rightarrow> string \<Rightarrow> string" where
  "redfish_url c sid = TrimRightByte (rc_BaseURL c) (CHR ''/'') @ ''/redfish/v1/Systems/'' @ sid"

definition redfish_headers :: "RedfishCollector \<Rightarrow> (string \<times> string) list" where
  "redfish_headers c =
     (if rc_Token c \<noteq> [] then [(''Authorization'', ''Bearer '' @ rc_Token c)] else []) @ [(''Accept'', ''application/json'')]"

text \<open>The system the endpoint describes, or the text of the first failure.\<close>

definition redfish_system :: "RedfishCollector \<Rightarrow> world \<Rightarrow> string \<Rightarrow> string + redfishSystem" where
  "redfish_system c w sid =
     (let url = redfish_url c sid
      in case w_bad_url w url of
           Some e \<Rightarrow> Inl (''redfish: building request for '' @ url @ '': '' @ e @ '' (using demo fallback)'')
         | None \<Rightarrow>
             (case w_http_get w url (redfish_headers c) of
                HttpError e \<Rightarrow> Inl (''redfish: '' @ url @ '' unreachable: '' @ e @ '' (using demo fallback)'')
              | HttpResponse status body \<Rightarrow>
                  if status \<noteq> 200 then
                    Inl (''redfish: '' @ url @ '' returned status '' @ Itoa status @ '' (using demo fallback)'')
                  else (case Option.bind (decode_first body) dec_system of
                     None \<Rightarrow> Inl (''redfish: decoding response from '' @ url @ '': '' @ w_json_error w body @ '' (using demo fallback)'')
                   | Some sys \<Rightarrow> Inr sys)))"

definition redfish_collect :: "RedfishCollector \<Rightarrow> world \<Rightarrow> Collector" where
  "redfish_collect c w sid =
     (case redfish_system c w sid of
        Inl e \<Rightarrow> (Some (demoRedfishFacts w sid), Some e)
      | Inr sys \<Rightarrow> (Some (redfish_facts w sid sys), None))"

interpretation redfish: fact_collector redfish_collect "[''redfish'', ''redfish_demo'']"
  by unfold_locales
     (auto simp: redfish_collect_def redfish_facts_def demoRedfishFacts_def split: sum.split)


section \<open>Provisioning\<close>

text \<open>The configured store, or nil.\<close>

type_synonym ProvisioningCollector = "(driver \<times> database) option"

definition provisioning_collect :: "ProvisioningCollector \<Rightarrow> world \<Rightarrow> Collector" where
  "provisioning_collect store w sid =
     (let failed = zero_facts\<lparr>sf_ServerID := sid, sf_Source := ''provisioning_store''\<rparr>
      in case store of
           None \<Rightarrow> (Some failed, Some ''provisioning collector: no ProvisioningStore configured'')
         | Some (d, db) \<Rightarrow>
             (case GetProvisioning d db sid of
                Inl e \<Rightarrow> (Some failed, Some (''provisioning collector: '' @ e))
              | Inr (state, fd) \<Rightarrow>
                  (Some (zero_facts\<lparr>sf_ServerID := sid, sf_Source := ''provisioning_store'', sf_ObservedAt := w_now w,
                     sf_Provisioning := state, sf_FailureDomain := fd\<rparr>), None)))"

interpretation provisioning: fact_collector provisioning_collect "[''provisioning_store'']"
  by unfold_locales
     (auto simp: provisioning_collect_def Let_def split: option.split sum.split prod.split)


section \<open>What Redfish reports\<close>

text \<open>A ComputerSystem resource, with any further members.\<close>

definition system_doc :: "redfishSystem \<Rightarrow> json" where
  "system_doc s = JObj
     [(''PowerState'', jstr (rs_PowerState s)), (''Manufacturer'', jstr (rs_Manufacturer s)), (''Model'', jstr (rs_Model s)),
      (''SerialNumber'', jstr (rs_SerialNumber s)),
      (''Status'', JObj [(''Health'', jstr (rs_Health s)), (''State'', jstr (rs_State s))])]"

definition system_ok :: "redfishSystem \<Rightarrow> bool" where
  "system_ok s \<longleftrightarrow> list_all valid_utf8
     [rs_PowerState s, rs_Manufacturer s, rs_Model s, rs_SerialNumber s, rs_Health s, rs_State s]"

lemma key_is_system:
  "list_all (\<lambda>k. list_all (\<lambda>n. key_is n k = (k = n)) [''PowerState'', ''Manufacturer'', ''Model'', ''SerialNumber'', ''Status''])
     [''PowerState'', ''Manufacturer'', ''Model'', ''SerialNumber'', ''Status'']"
  "list_all (\<lambda>k. list_all (\<lambda>n. key_is n k = (k = n)) [''Health'', ''State'']) [''Health'', ''State'']"
  by code_simp+

lemma jstr_not_null: "jstr s \<noteq> JNull"
  by (simp add: jstr_def)

lemma dec_system_doc:
  assumes "system_ok s"
  shows "dec_system (system_doc s) = Some s"
  using assms key_is_system
  by (simp add: dec_system_def system_doc_def as_object_def field_def field_step_def sub_object_def sub_step_def system_ok_def
      dec_string_jstr jstr_not_null)

text \<open>
  C35. Demo data is always told apart from a reading: the collector answers without an error exactly
  when the endpoint answered 200 with a valid system, and then reports that system's power state in
  lower case under the source \<open>redfish\<close>; in every other case, whatever failed, the facts carry the
  source \<open>redfish_demo\<close> and the \<open>demo_mode\<close> mark, with the power state \<open>on\<close>.
\<close>

theorem redfish_demo_labelled:
  assumes "redfish_collect c w sid = (Some f, e)"
  shows "(e = None \<longleftrightarrow> (\<exists>body sys. w_bad_url w (redfish_url c sid) = None
      \<and> w_http_get w (redfish_url c sid) (redfish_headers c) = HttpResponse 200 body
      \<and> Option.bind (decode_first body) dec_system = Some sys
      \<and> sf_Source f = ''redfish'' \<and> sf_PowerState f = ToLower (rs_PowerState sys)))
    \<and> (e \<noteq> None \<longleftrightarrow> sf_Source f = ''redfish_demo'')
    \<and> (e \<noteq> None \<longleftrightarrow> raw_get f ''demo_mode'' = Some (JBool True))
    \<and> (e \<noteq> None \<longrightarrow> sf_PowerState f = ''on'')"
proof (cases "redfish_system c w sid")
  case (Inl m)
  then have "\<not> (\<exists>body sys. w_bad_url w (redfish_url c sid) = None
      \<and> w_http_get w (redfish_url c sid) (redfish_headers c) = HttpResponse 200 body
      \<and> Option.bind (decode_first body) dec_system = Some sys)"
    by (auto simp: redfish_system_def Let_def split: option.splits)
  moreover have "f = demoRedfishFacts w sid" "e = Some m"
    using assms Inl by (simp_all add: redfish_collect_def)
  ultimately show ?thesis
    by (auto simp: demoRedfishFacts_def raw_get_def)
next
  case (Inr sys)
  then have f: "f = redfish_facts w sid sys" "e = None"
    using assms by (simp_all add: redfish_collect_def)
  have "\<exists>body. w_bad_url w (redfish_url c sid) = None
      \<and> w_http_get w (redfish_url c sid) (redfish_headers c) = HttpResponse 200 body
      \<and> Option.bind (decode_first body) dec_system = Some sys"
    using Inr by (auto simp: redfish_system_def Let_def split: option.splits http_result.splits if_splits)
  then show ?thesis
    by (auto simp: f redfish_facts_def raw_get_def)
qed

definition bmc_world :: "world \<Rightarrow> world" where
  "bmc_world w = w\<lparr>w_bad_url := (\<lambda>_. None),
     w_http_get := (\<lambda>url hs. if url = ''https://bmc/redfish/v1/Systems/s1''
       then HttpResponse 200 (print_json (system_doc \<lparr>rs_PowerState = ''Off'', rs_Manufacturer = ''V'', rs_Model = ''M'',
              rs_SerialNumber = ''1'', rs_Health = ''OK'', rs_State = ''Enabled''\<rparr>))
       else HttpError ''no route to host'')\<rparr>"

theorem redfish_demo_labelled_witness:
  "\<exists>f e. redfish_collect (NewRedfishCollector ''https://bmc/'' []) (bmc_world bare_world) ''s1'' = (Some f, e)
     \<and> e = None \<and> sf_PowerState f = ''off'' \<and> sf_Source f = ''redfish''
     \<and> (\<exists>g e'. redfish_collect (NewRedfishCollector ''https://bmc/'' []) (bmc_world bare_world) ''s2'' = (Some g, e')
          \<and> e' \<noteq> None \<and> sf_PowerState g = ''on'')"
proof -
  let ?c = "NewRedfishCollector ''https://bmc/'' []" and ?w = "bmc_world bare_world"
  let ?s = "\<lparr>rs_PowerState = ''Off'', rs_Manufacturer = ''V'', rs_Model = ''M'', rs_SerialNumber = ''1'', rs_Health = ''OK'',
      rs_State = ''Enabled''\<rparr>"
  obtain f e g e' where r: "redfish_collect ?c ?w ''s1'' = (Some f, e)" "redfish_collect ?c ?w ''s2'' = (Some g, e')"
    using redfish.reports by metis
  have urls: "redfish_url ?c ''s1'' = ''https://bmc/redfish/v1/Systems/s1''" "redfish_url ?c ''s2'' = ''https://bmc/redfish/v1/Systems/s2''"
    unfolding redfish_url_def NewRedfishCollector_def by code_simp+
  have ok: "system_ok ?s"
    unfolding system_ok_def by code_simp
  have "json_ok (system_doc ?s)"
    unfolding system_doc_def by (simp add: str_ok_name json_name_def name_chars_def) code_simp
  then have body: "Option.bind (decode_first (print_json (system_doc ?s))) dec_system = Some ?s"
    using dec_system_doc [OF ok] by (simp add: decode_first_parse parse_print)
  have low: "ToLower ''Off'' = ''off''"
    by code_simp
  have "e = None"
    using redfish_demo_labelled [OF r(1)] r(1) body by (auto simp: redfish_collect_def redfish_system_def Let_def urls bmc_world_def split: sum.splits)
  moreover have "e' \<noteq> None"
    using redfish_demo_labelled [OF r(2)] by (auto simp: urls bmc_world_def)
  moreover have "sf_PowerState f = ''off'' \<and> sf_Source f = ''redfish''"
    using redfish_demo_labelled [OF r(1)] \<open>e = None\<close> body by (auto simp: urls bmc_world_def low)
  ultimately show ?thesis
    using r redfish_demo_labelled [OF r(2)] by blast
qed

end
