(* ===== verification/Float64.thy ===== *)
theory Float64
  imports Json
begin

text \<open>
  The \<open>float64\<close> values of the collectors: reading them with \<open>strconv.ParseFloat\<close>, comparing them,
  and the number \<open>encoding/json\<close> writes for them. A finite value is a sign, a mantissa of at most 53
  bits and a binary exponent.
\<close>

datatype float64 = Finite bool int int | Infinite bool | NaN

definition fzero :: float64 where
  "fzero = Finite False 0 0"

definition of_whole :: "int \<Rightarrow> float64" where
  "of_whole n = Finite False n 0"

text \<open>The signed mantissa at a smaller exponent.\<close>

definition mantissa_at :: "int \<Rightarrow> bool \<Rightarrow> int \<Rightarrow> int \<Rightarrow> int" where
  "mantissa_at k neg m e = (if neg then - m else m) * 2 ^ nat (e - k)"

text \<open>Go's \<open><\<close>: a comparison with NaN is false.\<close>

fun fless :: "float64 \<Rightarrow> float64 \<Rightarrow> bool" where
  "fless NaN _ = False"
| "fless _ NaN = False"
| "fless (Infinite s) (Infinite t) = (s \<and> \<not> t)"
| "fless (Infinite s) (Finite _ _ _) = s"
| "fless (Finite _ _ _) (Infinite t) = (\<not> t)"
| "fless (Finite s m e) (Finite t n d) = (mantissa_at (min e d) s m e < mantissa_at (min e d) t n d)"

definition fge :: "float64 \<Rightarrow> float64 \<Rightarrow> bool" where
  "fge a b \<longleftrightarrow> a \<noteq> NaN \<and> b \<noteq> NaN \<and> \<not> fless a b"

text \<open>The zero value; \<open>omitempty\<close> keeps a negative zero.\<close>

definition is_fzero :: "float64 \<Rightarrow> bool" where
  "is_fzero f = (case f of Finite neg m _ \<Rightarrow> \<not> neg \<and> m = 0 | _ \<Rightarrow> False)"


section \<open>Rounding\<close>

function bit_len :: "int \<Rightarrow> int" where
  "bit_len n = (if n \<le> 0 then 0 else 1 + bit_len (n div 2))"
  by pat_completeness auto
termination
  by (relation "measure nat") auto

declare bit_len.simps [simp del]

text \<open>The quotient rounded to the nearest integer, ties to even.\<close>

definition round_even :: "int \<Rightarrow> int \<Rightarrow> int" where
  "round_even a b =
     (let k = a div b; r = a mod b
      in if 2 * r < b then k else if 2 * r > b then k + 1 else if even k then k else k + 1)"

text \<open>\<open>p / (q * 2 ^ e)\<close> as a pair.\<close>

definition scaled :: "int \<Rightarrow> int \<Rightarrow> int \<Rightarrow> int \<times> int" where
  "scaled p q e = (if 0 \<le> e then (p, q * 2 ^ nat e) else (p * 2 ^ nat (- e), q))"

definition float_exp :: "int \<Rightarrow> int \<Rightarrow> int" where
  "float_exp p q =
     (let e = bit_len p - bit_len q - 53;
          e' = (case scaled p q e of (a, b) \<Rightarrow> if a \<ge> b * 2 ^ 53 then e + 1 else e)
      in max e' (- 1074))"

text \<open>The \<open>float64\<close> nearest to \<open>p / q\<close>; \<open>None\<close> when it is out of range.\<close>

definition round_float :: "bool \<Rightarrow> int \<Rightarrow> int \<Rightarrow> float64 option" where
  "round_float neg p q =
     (if p = 0 then Some (Finite neg 0 0)
      else let e = float_exp p q;
               m = (case scaled p q e of (a, b) \<Rightarrow> round_even a b);
               (m, e) = (if m = 2 ^ 53 then (2 ^ 52, e + 1) else (m, e))
           in if e > 971 then None else Some (Finite neg m e))"


section \<open>strconv.ParseFloat\<close>

definition hex_digit :: "char \<Rightarrow> int option" where
  "hex_digit c =
     (if is_digit c then Some (digit_val c)
      else map_of (zip ''abcdef'' [10, 11, 12, 13, 14, 15]) (lower_char c))"

text \<open>The digit a character is in the given base.\<close>

definition digit_in :: "bool \<Rightarrow> char \<Rightarrow> int option" where
  "digit_in hex c = (if hex then hex_digit c else if is_digit c then Some (digit_val c) else None)"

text \<open>
  The mantissa: the value of its digits, how many follow the point, whether a point and whether a
  digit was seen, and the rest of the input. Underscores are skipped here and checked apart.
\<close>

fun mantissa :: "bool \<Rightarrow> int \<times> int \<times> bool \<times> bool \<Rightarrow> string \<Rightarrow> (int \<times> int \<times> bool \<times> bool) \<times> string" where
  "mantissa hex st [] = (st, [])"
| "mantissa hex (v, fd, dot, seen) (c # s) =
     (if c = CHR ''_'' then mantissa hex (v, fd, dot, seen) s
      else if c = CHR ''.'' then
        (if dot then ((v, fd, dot, seen), c # s) else mantissa hex (v, fd, True, seen) s)
      else case digit_in hex c of
        Some d \<Rightarrow> mantissa hex (v * (if hex then 16 else 10) + d, if dot then fd + 1 else fd, dot, True) s
      | None \<Rightarrow> ((v, fd, dot, seen), c # s))"

fun exponent_digits :: "int \<Rightarrow> string \<Rightarrow> int \<times> string" where
  "exponent_digits e [] = (e, [])"
| "exponent_digits e (c # s) =
     (if c = CHR ''_'' then exponent_digits e s
      else if is_digit c then exponent_digits (if e < 10000 then e * 10 + digit_val c else e) s
      else (e, c # s))"

definition sign_of :: "string \<Rightarrow> bool \<times> string" where
  "sign_of s =
     (case s of
        [] \<Rightarrow> (False, [])
      | c # t \<Rightarrow> if c = CHR ''-'' then (True, t) else if c = CHR ''+'' then (False, t) else (False, s))"

text \<open>An optional exponent after the mantissa; hexadecimal numbers must have one.\<close>

definition exponent :: "bool \<Rightarrow> string \<Rightarrow> int option" where
  "exponent hex s =
     (case s of
        [] \<Rightarrow> if hex then None else Some 0
      | c # t \<Rightarrow>
          if lower_char c \<noteq> (if hex then CHR ''p'' else CHR ''e'') then None
          else case sign_of t of (neg, ds) \<Rightarrow>
            if ds = [] \<or> \<not> is_digit (hd ds) then None
            else case exponent_digits 0 ds of (e, rest) \<Rightarrow>
              if rest \<noteq> [] then None else Some (if neg then - e else e))"

text \<open>Underscores stand between digits only, or after a base prefix.\<close>

datatype seen = AtStart | AtDigit | AtUnderscore | AtOther

fun underscores_from :: "bool \<Rightarrow> seen \<Rightarrow> string \<Rightarrow> bool" where
  "underscores_from hex saw [] = (saw \<noteq> AtUnderscore)"
| "underscores_from hex saw (c # s) =
     (if digit_in hex c \<noteq> None then underscores_from hex AtDigit s
      else if c = CHR ''_'' then saw = AtDigit \<and> underscores_from hex AtUnderscore s
      else saw \<noteq> AtUnderscore \<and> underscores_from hex AtOther s)"

definition has_prefix_letter :: "string \<Rightarrow> string \<Rightarrow> bool" where
  "has_prefix_letter letters s \<longleftrightarrow> length s \<ge> 2 \<and> s ! 0 = CHR ''0'' \<and> lower_char (s ! 1) \<in> set letters"

definition underscoreOK :: "string \<Rightarrow> bool" where
  "underscoreOK str =
     (let s = snd (sign_of str)
      in if has_prefix_letter ''box'' s then underscores_from (lower_char (s ! 1) = CHR ''x'') AtDigit (drop 2 s)
         else underscores_from False AtStart s)"

definition special_float :: "string \<Rightarrow> float64 option" where
  "special_float s =
     (case sign_of s of (neg, t) \<Rightarrow>
        if ToLower t \<in> {''inf'', ''infinity''} then Some (Infinite neg)
        else if ToLower s = ''nan'' then Some NaN else None)"

definition number_float :: "string \<Rightarrow> float64 option" where
  "number_float str =
     (case sign_of str of (neg, s) \<Rightarrow>
        let hex = (has_prefix_letter ''x'' s \<and> length s > 2)
        in case mantissa hex (0, 0, False, False) (if hex then drop 2 s else s) of
          ((v, fd, _, sawdigits), rest) \<Rightarrow>
            if \<not> sawdigits \<or> (CHR ''_'' \<in> set str \<and> \<not> underscoreOK str) then None
            else case exponent hex rest of
              None \<Rightarrow> None
            | Some ex \<Rightarrow>
                let e = (if hex then ex - 4 * fd else ex - fd);
                    b = (if hex then 2 else 10 :: int)
                in if 0 \<le> e then round_float neg (v * b ^ nat e) 1 else round_float neg v (b ^ nat (- e)))"

definition ParseFloat :: "string \<Rightarrow> float64 option" where
  "ParseFloat s = (case special_float s of Some f \<Rightarrow> Some f | None \<Rightarrow> number_float s)"


section \<open>The number in a JSON document\<close>

text \<open>The value as a quotient, and the number of digits before its decimal point.\<close>

definition as_quotient :: "int \<Rightarrow> int \<Rightarrow> int \<times> int" where
  "as_quotient m e = (if 0 \<le> e then (m * 2 ^ nat e, 1) else (m, 2 ^ nat (- e)))"

definition times_pow10 :: "int \<times> int \<Rightarrow> int \<Rightarrow> int \<times> int" where
  "times_pow10 pq k = (if 0 \<le> k then (fst pq * 10 ^ nat k, snd pq) else (fst pq, snd pq * 10 ^ nat (- k)))"

definition point_position :: "int \<times> int \<Rightarrow> int" where
  "point_position pq =
     (case find (\<lambda>x. case times_pow10 pq (- x) of (a, b) \<Rightarrow> a < b) ([- 330..329]) of
        Some x \<Rightarrow> x | None \<Rightarrow> 330)"

text \<open>
  A decimal of \<open>n\<close> digits that reads back as the value, as \<open>(d, k)\<close> for \<open>d / 10 ^ k\<close>: the nearer of
  the two next to the value, if one reads back.
\<close>

definition reads_back :: "int \<Rightarrow> int \<Rightarrow> int \<Rightarrow> int \<Rightarrow> bool" where
  "reads_back m e k d =
     (case times_pow10 (d, 1) (- k) of (p, q) \<Rightarrow>
        (case round_float False p q of Some (Finite _ m' e') \<Rightarrow> m' = m \<and> e' = e | _ \<Rightarrow> False))"

definition digits_of_length :: "int \<Rightarrow> int \<Rightarrow> int \<Rightarrow> (int \<times> int) option" where
  "digits_of_length m e n =
     (let pq = as_quotient m e;
          k = n - point_position pq;
          (a, b) = times_pow10 pq k;
          near = round_even a b;
          far = (if near = a div b then near + 1 else near - 1)
      in if reads_back m e k near then Some (near, k)
         else if a mod b \<noteq> 0 \<and> reads_back m e k far then Some (far, k) else None)"

text \<open>The digits, without the zeros at their end, and the position of the decimal point.\<close>

definition shortest_digits :: "int \<Rightarrow> int \<Rightarrow> string \<times> int" where
  "shortest_digits m e =
     (case List.map_filter (digits_of_length m e) [1..17] of
        (d, k) # _ \<Rightarrow> (rev (dropWhile (\<lambda>c. c = CHR ''0'') (rev (nat_str d))), int (length (nat_str d)) - k)
      | [] \<Rightarrow> ([], 0))"

definition format_f :: "string \<Rightarrow> int \<Rightarrow> string" where
  "format_f ds dp =
     (let whole = (if dp > 0 then take (nat dp) ds @ replicate (nat dp - length ds) (CHR ''0'') else ''0'');
          rest = (if dp > 0 then drop (nat dp) ds else replicate (nat (- dp)) (CHR ''0'') @ ds)
      in if rest = [] then whole else whole @ ''.'' @ rest)"

text \<open>The exponent as \<open>encoding/json\<close> leaves it: two digits, but a negative or positive one of one digit loses its zero.\<close>

definition format_e :: "string \<Rightarrow> int \<Rightarrow> string" where
  "format_e ds dp =
     (let frac = tl ds; x = dp - 1
      in [hd ds] @ (if frac = [] then [] else ''.'' @ frac) @ ''e'' @ (if x < 0 then ''-'' else ''+'') @ nat_str \<bar>x\<bar>)"

text \<open>\<open>None\<close> for the values \<open>Marshal\<close> refuses.\<close>

definition float_text :: "float64 \<Rightarrow> string option" where
  "float_text f =
     (case f of
        Finite neg m e \<Rightarrow>
          let sign = (if neg then ''-'' else [])
          in if m = 0 then Some (sign @ ''0'')
             else let (ds, dp) = shortest_digits m e;
                      small = fless (Finite False m e) (Finite False 4722366482869645 (- 72));
                      large = \<not> fless (Finite False m e) (Finite False 7629394531250000 17)
                  in Some (sign @ (if small \<or> large then format_e ds dp else format_f ds dp))
      | _ \<Rightarrow> None)"

definition jfloat :: "float64 \<Rightarrow> json" where
  "jfloat f = JNum
     (case f of Infinite neg \<Rightarrow> if neg then ''-Inf'' else ''+Inf''
      | NaN \<Rightarrow> ''NaN''
      | Finite _ _ _ \<Rightarrow> (case float_text f of Some t \<Rightarrow> t | None \<Rightarrow> []))"


section \<open>Order\<close>

lemma fless_NaN [simp]: "\<not> fless f NaN"
  by (cases f) simp_all

text \<open>The comparison of finite values does not depend on the common exponent.\<close>

lemma mantissa_less:
  assumes "k \<le> e" and "k \<le> d"
  shows "mantissa_at (min e d) s m e < mantissa_at (min e d) t n d \<longleftrightarrow> mantissa_at k s m e < mantissa_at k t n d"
proof -
  have shift: "mantissa_at k u x y = mantissa_at (min e d) u x y * 2 ^ nat (min e d - k)" if "min e d \<le> y" for u x y
  proof -
    have "nat (y - k) = nat (y - min e d) + nat (min e d - k)"
      using assms that by (simp add: nat_add_distrib [symmetric])
    then show ?thesis by (simp add: mantissa_at_def power_add)
  qed
  show ?thesis
    by (simp add: shift)
qed

lemma fless_finite: "k \<le> e \<Longrightarrow> k \<le> d \<Longrightarrow>
    fless (Finite s m e) (Finite t n d) \<longleftrightarrow> mantissa_at k s m e < mantissa_at k t n d"
  using mantissa_less by simp

lemma fless_trans:
  assumes "fless a b" and "fless b c"
  shows "fless a c"
proof (cases "\<exists>s m e t n d u p f. a = Finite s m e \<and> b = Finite t n d \<and> c = Finite u p f")
  case True
  then obtain s m e t n d u p f where abc: "a = Finite s m e" "b = Finite t n d" "c = Finite u p f" by blast
  define k where "k = min e (min d f)"
  have "k \<le> e" "k \<le> d" "k \<le> f" by (auto simp: k_def)
  with assms show ?thesis
    unfolding abc by (simp only: fless_finite [of k])
next
  case False
  with assms show ?thesis
    by (cases a; cases b; cases c) auto
qed

lemma not_fless_trans:
  assumes "b \<noteq> NaN" and "\<not> fless a b" and "\<not> fless b c"
  shows "\<not> fless a c"
proof (cases "\<exists>s m e t n d u p f. a = Finite s m e \<and> b = Finite t n d \<and> c = Finite u p f")
  case True
  then obtain s m e t n d u p f where abc: "a = Finite s m e" "b = Finite t n d" "c = Finite u p f" by blast
  define k where "k = min e (min d f)"
  have "k \<le> e" "k \<le> d" "k \<le> f" by (auto simp: k_def)
  with assms show ?thesis
    unfolding abc by (simp only: fless_finite [of k])
next
  case False
  with assms show ?thesis
    by (cases a; cases b; cases c) auto
qed

text \<open>The running maximum \<open>if x > m { m = x }\<close> reaches a bound exactly when one of its inputs does.\<close>

definition fmax :: "float64 \<Rightarrow> float64 \<Rightarrow> float64" where
  "fmax m x = (if fless m x then x else m)"

lemma fge_fmax:
  assumes "m \<noteq> NaN" and "c \<noteq> NaN"
  shows "fge (fmax m x) c \<longleftrightarrow> fge m c \<or> fge x c"
  using assms fless_trans [of m x c] not_fless_trans [of x m c]
  by (auto simp: fge_def fmax_def)

lemma fmax_not_NaN: "m \<noteq> NaN \<Longrightarrow> fmax m x \<noteq> NaN"
  by (auto simp: fmax_def)

lemma fge_foldl_fmax:
  "m \<noteq> NaN \<Longrightarrow> c \<noteq> NaN \<Longrightarrow> fge (foldl (\<lambda>m d. fmax m (g d)) m ds) c \<longleftrightarrow> fge m c \<or> (\<exists>d\<in>set ds. fge (g d) c)"
  by (induction ds arbitrary: m) (auto simp: fge_fmax fmax_not_NaN)

end
