(* ===== verification/Pci.thy ===== *)
theory Pci
  imports Host Float64
begin

text \<open>
  \<open>collectors/linux_pci.go\<close>: the PCIe functions a scheduler cares about, from \<open>lspci -Dnnmm\<close>, with
  their links and virtual functions from sysfs.
\<close>

record pciDevice =
  pd_Address :: string
  pd_ClassName :: string
  pd_ClassID :: string
  pd_VendorName :: string
  pd_VendorID :: string
  pd_DeviceName :: string
  pd_DeviceID :: string
  pd_Revision :: string
  pd_CurLinkGTs :: float64
  pd_MaxLinkGTs :: float64
  pd_CurLinkX :: int
  pd_MaxLinkX :: int
  pd_SRIOVTotal :: int
  pd_SRIOVActive :: int

definition pci_json :: "pciDevice \<Rightarrow> json" where
  "pci_json d = JObj
     ([(''address'', jstr (pd_Address d)), (''class_name'', jstr (pd_ClassName d)), (''class_id'', jstr (pd_ClassID d)),
       (''vendor_name'', jstr (pd_VendorName d)), (''vendor_id'', jstr (pd_VendorID d)),
       (''device_name'', jstr (pd_DeviceName d)), (''device_id'', jstr (pd_DeviceID d))]
      @ unless_empty (pd_Revision d = []) ''revision'' (jstr (pd_Revision d))
      @ unless_empty (is_fzero (pd_CurLinkGTs d)) ''current_link_gts'' (jfloat (pd_CurLinkGTs d))
      @ unless_empty (is_fzero (pd_MaxLinkGTs d)) ''max_link_gts'' (jfloat (pd_MaxLinkGTs d))
      @ unless_empty (pd_CurLinkX d = 0) ''current_link_width'' (jint (pd_CurLinkX d))
      @ unless_empty (pd_MaxLinkX d = 0) ''max_link_width'' (jint (pd_MaxLinkX d))
      @ unless_empty (pd_SRIOVTotal d = 0) ''sriov_total_vfs'' (jint (pd_SRIOVTotal d))
      @ unless_empty (pd_SRIOVActive d = 0) ''sriov_num_vfs'' (jint (pd_SRIOVActive d)))"

text \<open>The keys of \<open>interestingPCIClasses\<close>; the labels it maps them to are never read.\<close>

definition interestingPCIClasses :: "string list" where
  "interestingPCIClasses =
     [''0100'', ''0104'', ''0106'', ''0107'', ''0108'', ''0200'', ''0207'', ''0280'', ''0300'', ''0302'', ''0b40'', ''1200'']"


section \<open>lspci -Dnnmm\<close>

lemma IndexByte_pos: "IndexByte (c # s) d = Some e \<Longrightarrow> c \<noteq> d \<Longrightarrow> 0 < e"
  by auto

text \<open>The fields in quotes and the tokens between them, from the first unread byte on.\<close>

function split_lspci :: "string list \<Rightarrow> string list \<Rightarrow> string \<Rightarrow> string list \<times> string list" where
  "split_lspci fs ts [] = (fs, ts)"
| "split_lspci fs ts (c # s) =
     (if c = CHR 0x22 then
        (case IndexByte s (CHR 0x22) of
           None \<Rightarrow> (fs, ts)
         | Some e \<Rightarrow> split_lspci (fs @ [take e s]) ts (drop (e + 1) s))
      else if c = CHR '' '' then split_lspci fs ts s
      else
        (case IndexByte (c # s) (CHR '' '') of
           None \<Rightarrow> (fs, ts @ [c # s])
         | Some e \<Rightarrow> split_lspci fs (ts @ [take e (c # s)]) (drop e (c # s))))"
  by pat_completeness auto
termination
  by (relation "measure (\<lambda>(fs, ts, s). length s)") (auto simp del: IndexByte.simps dest: IndexByte_pos)

declare split_lspci.simps(2) [simp del]

definition splitLspciFields :: "string \<Rightarrow> string list \<times> string list" where
  "splitLspciFields s = split_lspci [] [] s"

definition splitNameAndID :: "string \<Rightarrow> string \<times> string" where
  "splitNameAndID s =
     (case (LastIndexByte s (CHR ''[''), LastIndexByte s (CHR '']'')) of
        (Some a, Some b) \<Rightarrow>
          if b < a then (TrimSpace s, []) else (TrimSpace (take a s), take (b - a - 1) (drop (a + 1) s))
      | _ \<Rightarrow> (TrimSpace s, []))"

definition revision_of :: "string list \<Rightarrow> string" where
  "revision_of tokens = foldl (\<lambda>r t. if HasPrefix t ''-r'' then TrimPrefix t ''-r'' else r) [] tokens"

definition lspci_line :: "string \<Rightarrow> pciDevice option" where
  "lspci_line raw =
     (let line = TrimSpace raw
      in if line = [] then None
         else case Cut line (CHR '' '') of (addr, rest, ok) \<Rightarrow>
           if \<not> ok then None
           else case splitLspciFields rest of (fs, tokens) \<Rightarrow>
             if length fs < 3 then None
             else let (className, classID) = splitNameAndID (fs ! 0);
                      (vendorName, vendorID) = splitNameAndID (fs ! 1);
                      (deviceName, deviceID) = splitNameAndID (fs ! 2)
               in Some \<lparr>pd_Address = addr, pd_ClassName = className, pd_ClassID = classID,
                        pd_VendorName = vendorName, pd_VendorID = vendorID,
                        pd_DeviceName = deviceName, pd_DeviceID = deviceID, pd_Revision = revision_of tokens,
                        pd_CurLinkGTs = fzero, pd_MaxLinkGTs = fzero, pd_CurLinkX = 0, pd_MaxLinkX = 0,
                        pd_SRIOVTotal = 0, pd_SRIOVActive = 0\<rparr>)"

definition parseLspciMM :: "string \<Rightarrow> pciDevice list" where
  "parseLspciMM out = List.map_filter lspci_line (Split out (CHR 0x0A))"


section \<open>sysfs\<close>

definition readLinkGTs :: "world \<Rightarrow> string \<Rightarrow> float64" where
  "readLinkGTs w path =
     from_file w path fzero (\<lambda>data.
       case ParseFloat (fst (Cut (TrimSpace data) (CHR '' ''))) of None \<Rightarrow> fzero | Some v \<Rightarrow> v)"

definition readIntFile :: "world \<Rightarrow> string \<Rightarrow> int" where
  "readIntFile w path =
     from_file w path 0 (\<lambda>data. case Atoi (TrimSpace data) of (n, ok) \<Rightarrow> if ok then n else 0)"

definition pci_enrich :: "world \<Rightarrow> config \<Rightarrow> pciDevice \<Rightarrow> pciDevice" where
  "pci_enrich w c d =
     (let base = FilepathJoin [root c, ''sys/bus/pci/devices'', pd_Address d]
      in d\<lparr>pd_CurLinkGTs := readLinkGTs w (FilepathJoin [base, ''current_link_speed'']),
           pd_MaxLinkGTs := readLinkGTs w (FilepathJoin [base, ''max_link_speed'']),
           pd_CurLinkX := readIntFile w (FilepathJoin [base, ''current_link_width'']),
           pd_MaxLinkX := readIntFile w (FilepathJoin [base, ''max_link_width'']),
           pd_SRIOVTotal := readIntFile w (FilepathJoin [base, ''sriov_totalvfs'']),
           pd_SRIOVActive := readIntFile w (FilepathJoin [base, ''sriov_numvfs''])\<rparr>)"


section \<open>Collect\<close>

definition pci_caps :: "pciDevice list \<Rightarrow> string list" where
  "pci_caps kept =
     (let maxGTs = foldl (\<lambda>m d. fmax m (pd_MaxLinkGTs d)) fzero kept;
          sawAccel = list_ex (\<lambda>d. pd_ClassID d \<in> {''0302'', ''1200'', ''0b40''}) kept;
          sawSRIOV = list_ex (\<lambda>d. pd_SRIOVTotal d > 0) kept;
          gen = (if fge maxGTs (of_whole 32) then [''pcie_gen5'']
                 else if fge maxGTs (of_whole 16) then [''pcie_gen4''] else [])
      in gen @ (if sawAccel then [''gpu_accelerator''] else []) @ (if sawSRIOV then [''sriov''] else []))"

definition pci_kept :: "world \<Rightarrow> config \<Rightarrow> pciDevice list \<Rightarrow> pciDevice list" where
  "pci_kept w c found = map (pci_enrich w c) (filter (\<lambda>d. pd_ClassID d \<in> set interestingPCIClasses) found)"

definition pci_collect :: "config \<Rightarrow> world \<Rightarrow> Collector" where
  "pci_collect c w sid =
     (let f = new_facts w sid ''linux_pci''
      in case cf_Runner c of
           None \<Rightarrow> (Some f, Some ''pci collector: no CommandRunner configured'')
         | Some run \<Rightarrow>
             (case tool_output run (lookPath w c) ''lspci'' [''-Dnnmm''] of
                Inl e \<Rightarrow> (Some f, Some (''pci collector: '' @ e))
              | Inr out \<Rightarrow>
                  let found = parseLspciMM out;
                      kept = pci_kept w c found
                  in if found = [] then (Some f, Some ''pci collector: lspci output parsed to zero devices'')
                     else (Some ((set_raw ''pci'' (raw_json
                              [(''total_functions'', jint (int (length found))), (''devices'', enc_slice pci_json kept)]) f)
                            \<lparr>sf_Capabilities := pci_caps kept\<rparr>), None)))"

interpretation pci: hardware_collector pci_collect "[''linux_pci'']"
  by unfold_locales (auto simp: pci_collect_def Let_def split: option.splits sum.splits prod.splits if_splits)


section \<open>What the collector claims\<close>

definition speeds_reach :: "pciDevice list \<Rightarrow> int \<Rightarrow> bool" where
  "speeds_reach kept n \<longleftrightarrow> (\<exists>d\<in>set kept. fge (pd_MaxLinkGTs d) (of_whole n))"

lemma fastest_reaches:
  assumes "0 < n"
  shows "fge (foldl (\<lambda>m d. fmax m (pd_MaxLinkGTs d)) fzero kept) (of_whole n) \<longleftrightarrow> speeds_reach kept n"
proof -
  have "\<not> fge fzero (of_whole n)"
    using assms by (simp add: fge_def fzero_def of_whole_def mantissa_at_def)
  then show ?thesis
    by (subst fge_foldl_fmax) (simp_all add: fzero_def of_whole_def speeds_reach_def)
qed

text \<open>
  The PCIe generation reported is that of the fastest interesting device, as its maximum speed
  says; only one generation is reported.
\<close>

lemma pci_generation:
  "''pcie_gen5'' \<in> set (pci_caps kept) \<longleftrightarrow> speeds_reach kept 32"
  "''pcie_gen4'' \<in> set (pci_caps kept) \<longleftrightarrow> speeds_reach kept 16 \<and> \<not> speeds_reach kept 32"
  by (simp_all add: pci_caps_def Let_def fastest_reaches)

section \<open>What lspci -Dnnmm prints\<close>

text \<open>
  A line is the function's address and a list of quoted fields, with tokens that start with a minus
  sign between them.
\<close>

datatype lspci_item = Quoted string | Token string

fun item_text :: "lspci_item \<Rightarrow> string" where
  "item_text (Quoted s) = CHR 0x22 # s @ [CHR 0x22]"
| "item_text (Token t) = t"

fun item_ok :: "lspci_item \<Rightarrow> bool" where
  "item_ok (Quoted s) = (CHR 0x22 \<notin> set s \<and> CHR 0x0A \<notin> set s)"
| "item_ok (Token t) = (word_ok t \<and> hd t \<noteq> CHR 0x22)"

fun quoted_part :: "lspci_item \<Rightarrow> string list" where
  "quoted_part (Quoted s) = [s]"
| "quoted_part (Token t) = []"

fun token_part :: "lspci_item \<Rightarrow> string list" where
  "token_part (Quoted s) = []"
| "token_part (Token t) = [t]"

lemma split_lspci_quoted:
  "CHR 0x22 \<notin> set s \<Longrightarrow> split_lspci fs ts (CHR 0x22 # s @ CHR 0x22 # r) = split_lspci (fs @ [s]) ts r"
  by (simp add: split_lspci.simps(2) IndexByte_found)

lemma split_lspci_space: "split_lspci fs ts (CHR '' '' # r) = split_lspci fs ts r"
  by (simp add: split_lspci.simps(2))

lemma word_no_space: "word_ok u \<Longrightarrow> ascii_space c \<Longrightarrow> c \<notin> set u"
  using plain_char_not_space by (auto simp: word_ok_def list_all_iff)

lemma split_lspci_token:
  assumes "word_ok t" and "hd t \<noteq> CHR 0x22" and "r = [] \<or> hd r = CHR '' ''"
  shows "split_lspci fs ts (t @ r) = split_lspci fs (ts @ [t]) r"
proof -
  obtain c u where t: "t = c # u"
    using assms(1) by (cases t) (auto simp: word_ok_def)
  have free: "CHR '' '' \<notin> set t"
    using word_no_space [OF assms(1)] by (simp add: ascii_space_def)
  then have c: "c \<noteq> CHR '' ''" "c \<noteq> CHR 0x22"
    using assms(2) by (auto simp: t)
  show ?thesis
  proof (cases r)
    case Nil
    then show ?thesis
      using c free by (simp add: t split_lspci.simps(2) IndexByte_None)
  next
    case (Cons d r')
    then have "IndexByte (t @ r) (CHR '' '') = Some (length t)"
      using assms(3) free IndexByte_found [of "CHR '' ''" t r'] by simp
    then show ?thesis
      using c by (simp add: t split_lspci.simps(2) del: IndexByte.simps)
  qed
qed

lemma split_lspci_item:
  assumes "item_ok i" and "r = [] \<or> hd r = CHR '' ''"
  shows "split_lspci fs ts (item_text i @ r) = split_lspci (fs @ quoted_part i) (ts @ token_part i) r"
  using assms by (cases i) (simp_all add: split_lspci_quoted split_lspci_token)

lemma split_lspci_items:
  "list_all item_ok is \<Longrightarrow>
     split_lspci fs ts (Join (map item_text is) '' '') = (fs @ concat (map quoted_part is), ts @ concat (map token_part is))"
proof (induction "is" arbitrary: fs ts rule: induct_list012)
  case (2 i)
  then show ?case
    using split_lspci_item [of i "[]" fs ts] by simp
next
  case (3 i j js)
  then show ?case
    using split_lspci_item [of i "'' '' @ Join (map item_text (j # js)) '' ''" fs ts] by (simp add: split_lspci_space)
qed simp

text \<open>A name with its id in brackets; brackets inside the name do not matter.\<close>

definition ends_plain :: "string \<Rightarrow> bool" where
  "ends_plain s \<longleftrightarrow> s \<noteq> [] \<and> plain_char (hd s) \<and> plain_char (last s)"

definition named_id :: "string \<times> string \<Rightarrow> string" where
  "named_id n = fst n @ '' ['' @ snd n @ '']''"

definition named_id_ok :: "string \<times> string \<Rightarrow> bool" where
  "named_id_ok n \<longleftrightarrow> ends_plain (fst n) \<and> CHR 0x22 \<notin> set (fst n) \<and> CHR 0x0A \<notin> set (fst n)
     \<and> word_ok (snd n) \<and> CHR ''['' \<notin> set (snd n) \<and> CHR 0x22 \<notin> set (snd n)"

lemma LastIndexByte_found: "c \<notin> set v \<Longrightarrow> LastIndexByte (u @ c # v) c = Some (length u)"
  using IndexByte_found [of c "rev v" "rev u"] by (simp add: LastIndexByte_def)

lemma named_id_read:
  assumes "named_id_ok n"
  shows "splitNameAndID (named_id n) = n"
proof -
  obtain s i where n: "n = (s, i)" by (cases n)
  have a: "LastIndexByte (named_id n) (CHR ''['') = Some (length s + 1)"
    using LastIndexByte_found [of "CHR ''[''" "i @ '']''" "s @ '' ''"] assms by (simp add: n named_id_def named_id_ok_def)
  have b: "LastIndexByte (named_id n) (CHR '']'') = Some (length s + 2 + length i)"
    using LastIndexByte_found [of "CHR '']''" "[]" "s @ '' ['' @ i"] by (simp add: n named_id_def)
  have "TrimSpace (s @ '' '') = s"
    using assms by (intro TrimSpace_blank_end) (auto simp: n named_id_ok_def ends_plain_def ascii_space_def)
  then show ?thesis
    by (simp add: splitNameAndID_def a b) (simp add: n named_id_def)
qed

text \<open>
  A PCI function as \<open>lspci\<close> prints it: class, vendor and device with their ids, the revision and the
  programming interface unless they are 0, and whatever it prints for the subsystem.
\<close>

record lspci_function =
  lf_address :: string
  lf_class :: "string \<times> string"
  lf_vendor :: "string \<times> string"
  lf_device :: "string \<times> string"
  lf_rev :: string
  lf_progif :: string
  lf_subsystem :: "string list"

definition function_items :: "lspci_function \<Rightarrow> lspci_item list" where
  "function_items p =
     map (\<lambda>n. Quoted (named_id n)) [lf_class p, lf_vendor p, lf_device p]
     @ (if lf_rev p = [] then [] else [Token (''-r'' @ lf_rev p)])
     @ (if lf_progif p = [] then [] else [Token (''-p'' @ lf_progif p)])
     @ map Quoted (lf_subsystem p)"

definition function_line :: "lspci_function \<Rightarrow> string" where
  "function_line p = lf_address p @ '' '' @ Join (map item_text (function_items p)) '' ''"

definition lspci_text :: "lspci_function list \<Rightarrow> string" where
  "lspci_text ps = concat (map (\<lambda>p. function_line p @ [CHR 0x0A]) ps)"

definition function_ok :: "lspci_function \<Rightarrow> bool" where
  "function_ok p \<longleftrightarrow> word_ok (lf_address p) \<and> list_all named_id_ok [lf_class p, lf_vendor p, lf_device p]
     \<and> list_all plain_char (lf_rev p) \<and> list_all plain_char (lf_progif p)
     \<and> list_all (\<lambda>s. CHR 0x22 \<notin> set s \<and> CHR 0x0A \<notin> set s) (lf_subsystem p)"

definition pci_function :: "lspci_function \<Rightarrow> pciDevice" where
  "pci_function p =
     \<lparr>pd_Address = lf_address p, pd_ClassName = fst (lf_class p), pd_ClassID = snd (lf_class p),
      pd_VendorName = fst (lf_vendor p), pd_VendorID = snd (lf_vendor p),
      pd_DeviceName = fst (lf_device p), pd_DeviceID = snd (lf_device p), pd_Revision = lf_rev p,
      pd_CurLinkGTs = fzero, pd_MaxLinkGTs = fzero, pd_CurLinkX = 0, pd_MaxLinkX = 0,
      pd_SRIOVTotal = 0, pd_SRIOVActive = 0\<rparr>"

lemma word_prefix: "list_all plain_char s \<Longrightarrow> word_ok u \<Longrightarrow> word_ok (u @ s)"
  by (simp add: word_ok_def)

lemma function_items_ok:
  assumes "function_ok p"
  shows "list_all item_ok (function_items p)"
proof -
  have w: "word_ok ''-r''" "word_ok ''-p''"
    by (simp_all add: word_ok_def plain_char_def)
  have q: "item_ok (Quoted (named_id n))" if "named_id_ok n" for n
    using that word_no_space [of "snd n" "CHR 0x0A"] by (auto simp: named_id_ok_def named_id_def ascii_space_def)
  have s: "list_all item_ok (map Quoted (lf_subsystem p))"
    using assms by (auto simp: function_ok_def list_all_iff)
  show ?thesis
    using assms word_prefix [OF _ w(1), of "lf_rev p"] word_prefix [OF _ w(2), of "lf_progif p"] q s
    by (simp add: function_items_def function_ok_def)
qed

lemma function_fields:
  "concat (map quoted_part (function_items p)) = map named_id [lf_class p, lf_vendor p, lf_device p] @ lf_subsystem p"
  "concat (map token_part (function_items p)) =
     (if lf_rev p = [] then [] else [''-r'' @ lf_rev p]) @ (if lf_progif p = [] then [] else [''-p'' @ lf_progif p])"
proof -
  have "concat (map (quoted_part \<circ> Quoted) xs) = xs" "concat (map (token_part \<circ> Quoted) xs) = []" for xs
    by (induction xs) simp_all
  then show "concat (map quoted_part (function_items p)) = map named_id [lf_class p, lf_vendor p, lf_device p] @ lf_subsystem p"
    "concat (map token_part (function_items p)) =
     (if lf_rev p = [] then [] else [''-r'' @ lf_rev p]) @ (if lf_progif p = [] then [] else [''-p'' @ lf_progif p])"
    by (simp_all add: function_items_def)
qed

lemma function_revision: "revision_of (concat (map token_part (function_items p))) = lf_rev p"
  using TrimPrefix_append [of "''-r''" "lf_rev p"] HasPrefix_append [of "''-r''" "lf_rev p"]
  by (simp add: function_fields revision_of_def)

lemma function_line_ends:
  assumes "function_ok p"
  shows "ends_plain (function_line p)" and "CHR 0x0A \<notin> set (function_line p)"
proof -
  have ok: "word_ok (lf_address p)" "list_all item_ok (function_items p)"
    using assms function_items_ok by (simp_all add: function_ok_def)
  have ne: "function_items p \<noteq> []"
    by (simp add: function_items_def)
  have item: "item_text i \<noteq> [] \<and> plain_char (last (item_text i)) \<and> CHR 0x0A \<notin> set (item_text i)" if "item_ok i" for i
    using that word_no_space [of _ "CHR 0x0A"]
    by (cases i) (auto simp: word_ok_def list_all_iff plain_char_def ascii_space_def)
  have join: "Join (map item_text is) '' '' \<noteq> [] \<and> plain_char (last (Join (map item_text is) '' ''))
      \<and> CHR 0x0A \<notin> set (Join (map item_text is) '' '')" if "is \<noteq> []" "list_all item_ok is" for "is"
    using that by (induction "is" rule: induct_list012) (simp_all add: item)
  show "ends_plain (function_line p)" "CHR 0x0A \<notin> set (function_line p)"
    using ok(1) join [OF ne ok(2)] word_no_space [OF ok(1), of "CHR 0x0A"]
    by (auto simp: function_line_def ends_plain_def word_ok_def ascii_space_def list_all_iff)
qed

lemma lspci_line_read:
  assumes "function_ok p"
  shows "lspci_line (function_line p) = Some (pci_function p)"
proof -
  have ok: "CHR '' '' \<notin> set (lf_address p)" "list_all named_id_ok [lf_class p, lf_vendor p, lf_device p]"
    using assms word_no_space [of "lf_address p" "CHR '' ''"] by (simp_all add: function_ok_def ascii_space_def)
  have t: "TrimSpace (function_line p) = function_line p" "function_line p \<noteq> []"
    using function_line_ends(1) [OF assms] TrimSpace_plain by (simp_all add: ends_plain_def)
  have c: "Cut (function_line p) (CHR '' '') = (lf_address p, Join (map item_text (function_items p)) '' '', True)"
    using Cut_found [OF ok(1)] by (simp add: function_line_def)
  have s: "splitLspciFields (Join (map item_text (function_items p)) '' '')
      = (concat (map quoted_part (function_items p)), concat (map token_part (function_items p)))"
    using split_lspci_items [OF function_items_ok [OF assms], of "[]" "[]"] by (simp add: splitLspciFields_def)
  show ?thesis
    using ok(2) unfolding lspci_line_def Let_def t(1) c prod.case s function_revision
    by (simp add: t(2) function_fields(1) named_id_read pci_function_def split: prod.split)
qed

lemma lspci_lines:
  "list_all function_ok ps \<Longrightarrow> parseLspciMM (lspci_text ps) = map pci_function ps"
proof (induction ps)
  case (Cons p ps)
  then have "Split (lspci_text (p # ps)) (CHR 0x0A) = function_line p # Split (lspci_text ps) (CHR 0x0A)"
    using function_line_ends(2) [of p] Split_append_sep by (simp add: lspci_text_def)
  with Cons show ?case
    by (simp add: parseLspciMM_def map_filter_simps lspci_line_read)
qed (simp add: parseLspciMM_def lspci_text_def lspci_line_def map_filter_simps)

text \<open>What sysfs says of a function.\<close>

definition function_dir :: "config \<Rightarrow> lspci_function \<Rightarrow> string" where
  "function_dir c p = FilepathJoin [root c, ''sys/bus/pci/devices'', lf_address p]"

definition interesting :: "lspci_function \<Rightarrow> bool" where
  "interesting p \<longleftrightarrow> snd (lf_class p) \<in> set interestingPCIClasses"

definition link_reaches :: "world \<Rightarrow> config \<Rightarrow> lspci_function list \<Rightarrow> int \<Rightarrow> bool" where
  "link_reaches w c ps n \<longleftrightarrow>
     (\<exists>p\<in>set ps. interesting p \<and> fge (readLinkGTs w (FilepathJoin [function_dir c p, ''max_link_speed''])) (of_whole n))"

lemma kept_functions: "pci_kept w c (map pci_function ps) = map (pci_enrich w c \<circ> pci_function) (filter interesting ps)"
proof -
  have "interesting = (\<lambda>p. pd_ClassID (pci_function p) \<in> set interestingPCIClasses)"
    by (simp add: fun_eq_iff interesting_def pci_function_def)
  then show ?thesis
    by (simp add: pci_kept_def filter_map comp_def)
qed

lemma kept_reach: "speeds_reach (pci_kept w c (map pci_function ps)) n = link_reaches w c ps n"
  unfolding kept_functions speeds_reach_def link_reaches_def
  by (auto simp: pci_enrich_def Let_def pci_function_def function_dir_def)

lemma pci_cap_iff:
  "''gpu_accelerator'' \<in> set (pci_caps kept) \<longleftrightarrow> (\<exists>d\<in>set kept. pd_ClassID d \<in> {''0302'', ''1200'', ''0b40''})"
  "''sriov'' \<in> set (pci_caps kept) \<longleftrightarrow> (\<exists>d\<in>set kept. pd_SRIOVTotal d > 0)"
  by (simp_all add: pci_caps_def Let_def list_ex_iff)

text \<open>
  C36. What \<open>lspci -Dnnmm\<close> prints for any list of PCI functions, brackets in the names, optional revision and
  programming interface and subsystem included, is read back as those functions, and the collector's
  capabilities follow: the PCIe generation is that of the fastest link of an interesting function, an
  accelerator is claimed exactly for a 3D controller, processing accelerator or co-processor class,
  SR-IOV exactly when an interesting function has virtual functions; the total counts every function.
\<close>

theorem lspci_roundtrip:
  assumes "list_all function_ok ps" and "ps \<noteq> []" and "cf_Runner c = Some run"
    and "tool_output run (lookPath w c) ''lspci'' [''-Dnnmm''] = Inr (lspci_text ps)"
  shows "parseLspciMM (lspci_text ps) = map pci_function ps \<and>
    (\<exists>f. pci_collect c w sid = (Some f, None)
      \<and> raw_get f ''pci'' = Some (raw_json [(''total_functions'', jint (int (length ps))),
           (''devices'', enc_slice pci_json (map (pci_enrich w c \<circ> pci_function) (filter interesting ps)))])
      \<and> (''pcie_gen5'' \<in> set (sf_Capabilities f) \<longleftrightarrow> link_reaches w c ps 32)
      \<and> (''pcie_gen4'' \<in> set (sf_Capabilities f) \<longleftrightarrow> link_reaches w c ps 16 \<and> \<not> link_reaches w c ps 32)
      \<and> (''gpu_accelerator'' \<in> set (sf_Capabilities f) \<longleftrightarrow> (\<exists>p\<in>set ps. snd (lf_class p) \<in> {''0302'', ''1200'', ''0b40''}))
      \<and> (''sriov'' \<in> set (sf_Capabilities f) \<longleftrightarrow>
           (\<exists>p\<in>set ps. interesting p \<and> readIntFile w (FilepathJoin [function_dir c p, ''sriov_totalvfs'']) > 0)))"
proof -
  note read = lspci_lines [OF assms(1)]
  have accel: "(\<exists>d\<in>set (pci_kept w c (map pci_function ps)). pd_ClassID d \<in> {''0302'', ''1200'', ''0b40''}) \<longleftrightarrow>
      (\<exists>p\<in>set ps. snd (lf_class p) \<in> {''0302'', ''1200'', ''0b40''})"
  proof -
    have "{''0302'', ''1200'', ''0b40''} \<subseteq> set interestingPCIClasses"
      by (simp add: interestingPCIClasses_def)
    then show ?thesis
      unfolding kept_functions by (auto simp: pci_enrich_def Let_def pci_function_def interesting_def)
  qed
  have sriov: "(\<exists>d\<in>set (pci_kept w c (map pci_function ps)). pd_SRIOVTotal d > 0) \<longleftrightarrow>
      (\<exists>p\<in>set ps. interesting p \<and> readIntFile w (FilepathJoin [function_dir c p, ''sriov_totalvfs'']) > 0)"
    unfolding kept_functions by (auto simp: pci_enrich_def Let_def pci_function_def function_dir_def)
  obtain f where f: "pci_collect c w sid = (Some f, None)"
    "sf_Capabilities f = pci_caps (pci_kept w c (map pci_function ps))"
    "raw_get f ''pci'' = Some (raw_json [(''total_functions'', jint (int (length ps))),
        (''devices'', enc_slice pci_json (pci_kept w c (map pci_function ps)))])"
    using assms(2-4) by (simp add: pci_collect_def Let_def read raw_get_def set_raw_def update_conv')
  show ?thesis
    using f(1,3) unfolding kept_functions
    by (intro conjI exI [of _ f] read)
       (simp_all only: f(2) pci_generation pci_cap_iff kept_reach accel sriov)
qed

text \<open>A 3D controller, whose name has brackets of its own, and a bridge.\<close>

definition gpu_host_functions :: "lspci_function list" where
  "gpu_host_functions =
     [\<lparr>lf_address = ''0000:17:00.0'', lf_class = (''3D controller'', ''0302''), lf_vendor = (''NVIDIA Corporation'', ''10de''),
       lf_device = (''GA100 [A100 PCIe 40GB]'', ''20f1''), lf_rev = ''a1'', lf_progif = [],
       lf_subsystem = [''NVIDIA Corporation [10de]'', ''Device [145f]'']\<rparr>,
      \<lparr>lf_address = ''0000:00:01.0'', lf_class = (''PCI bridge'', ''0604''), lf_vendor = (''Intel'', ''8086''),
       lf_device = (''Root Port'', ''347a''), lf_rev = [], lf_progif = ''00'', lf_subsystem = [[], []]\<rparr>]"

theorem lspci_roundtrip_witness:
  "\<exists>f. pci_collect \<lparr>cf_Runner = Some (\<lambda>_ _. (lspci_text gpu_host_functions, None)), cf_LookPath = Some Inr, cf_SysRoot = []\<rparr>
      bare_world ''srv'' = (Some f, None)
    \<and> ''gpu_accelerator'' \<in> set (sf_Capabilities f) \<and> ''sriov'' \<notin> set (sf_Capabilities f)"
proof -
  let ?run = "\<lambda>_ _. (lspci_text gpu_host_functions, None)"
  let ?c = "\<lparr>cf_Runner = Some ?run, cf_LookPath = Some Inr, cf_SysRoot = []\<rparr> :: config"
  have ok: "list_all function_ok gpu_host_functions"
    by (simp add: gpu_host_functions_def function_ok_def named_id_ok_def ends_plain_def word_ok_def plain_char_def)
  have ne: "gpu_host_functions \<noteq> []"
    by (simp add: gpu_host_functions_def)
  have out: "tool_output ?run (lookPath bare_world ?c) ''lspci'' [''-Dnnmm''] = Inr (lspci_text gpu_host_functions)"
    by (simp add: tool_output_def requireCommand_def lookPath_def)
  have "\<exists>p\<in>set gpu_host_functions. snd (lf_class p) \<in> {''0302'', ''1200'', ''0b40''}"
    by (simp add: gpu_host_functions_def)
  moreover have "readIntFile bare_world path = 0" for path
    by (simp add: readIntFile_def from_file_def bare_world_def)
  ultimately show ?thesis
    using lspci_roundtrip [OF ok ne _ out, where sid = "''srv''"] by (auto simp only: config.simps less_irrefl)
qed

end
