(* ===== verification/Ipmi.thy ===== *)
theory Ipmi
  imports Host Float64
begin

text \<open>\<open>collectors/ipmi.go\<close>: power state and sensors of the BMC, from ipmitool.\<close>

record bmcSensors =
  bm_TempsC :: "(string, float64) gomap"
  bm_FansRPM :: "(string, int) gomap"
  bm_PowerWatts :: float64
  bm_SensorCount :: int
  bm_NotOK :: "string list"

definition sensors_json :: "bmcSensors \<Rightarrow> json" where
  "sensors_json s = JObj
     (unless_empty (bm_TempsC s = []) ''temps_c'' (raw_json (map (\<lambda>(k, v). (k, jfloat v)) (bm_TempsC s)))
      @ unless_empty (bm_FansRPM s = []) ''fans_rpm'' (raw_json (map (\<lambda>(k, v). (k, jint v)) (bm_FansRPM s)))
      @ unless_empty (is_fzero (bm_PowerWatts s)) ''power_watts'' (jfloat (bm_PowerWatts s))
      @ [(''sensor_count'', jint (bm_SensorCount s))]
      @ unless_empty (bm_NotOK s = []) ''not_ok'' (JArr (map jstr (bm_NotOK s))))"

definition parseFloatOrZero :: "string \<Rightarrow> float64" where
  "parseFloatOrZero s = (case ParseFloat (TrimSpace s) of None \<Rightarrow> fzero | Some v \<Rightarrow> v)"

definition parseChassisPowerStatus :: "string \<Rightarrow> string" where
  "parseChassisPowerStatus out =
     (let s = TrimSpace out
      in if \<not> HasPrefix s ''Chassis Power is '' then []
         else ToLower (TrimSpace (TrimPrefix s ''Chassis Power is '')))"

text \<open>The typed field a reading goes to.\<close>

definition sensor_reading :: "string \<Rightarrow> string \<Rightarrow> bmcSensors \<Rightarrow> bmcSensors" where
  "sensor_reading name reading s =
     (if HasSuffix reading ''degrees C'' then
        s\<lparr>bm_TempsC := AList.update name (parseFloatOrZero (TrimSpace (TrimSuffix reading ''degrees C''))) (bm_TempsC s)\<rparr>
      else if HasSuffix reading ''RPM'' then
        s\<lparr>bm_FansRPM := AList.update name (atoiOrZero (TrimSpace (TrimSuffix reading ''RPM''))) (bm_FansRPM s)\<rparr>
      else if HasSuffix reading ''Watts'' then
        s\<lparr>bm_PowerWatts := fmax (bm_PowerWatts s) (parseFloatOrZero (TrimSpace (TrimSuffix reading ''Watts'')))\<rparr>
      else s)"

definition sensor_line :: "bmcSensors \<Rightarrow> string \<Rightarrow> bmcSensors" where
  "sensor_line s line =
     (let parts = Split line (CHR ''|'')
      in if length parts < 5 then s
         else let name = TrimSpace (parts ! 0);
                  status = TrimSpace (parts ! 2);
                  reading = TrimSpace (parts ! 4)
           in if name = [] then s
              else sensor_reading name reading
                (s\<lparr>bm_SensorCount := bm_SensorCount s + 1,
                   bm_NotOK := (if status \<noteq> ''ok'' \<and> status \<noteq> ''ns'' then bm_NotOK s @ [name @ '': '' @ reading] else bm_NotOK s)\<rparr>))"

definition no_sensors :: bmcSensors where
  "no_sensors = \<lparr>bm_TempsC = [], bm_FansRPM = [], bm_PowerWatts = fzero, bm_SensorCount = 0, bm_NotOK = []\<rparr>"

definition parseSdrElist :: "string \<Rightarrow> bmcSensors" where
  "parseSdrElist out = foldl sensor_line no_sensors (Split out (CHR 0x0A))"

text \<open>The two sources: the power state, empty without one, and the sensors, if any were listed.\<close>

definition ipmi_power :: "CommandRunner \<Rightarrow> string" where
  "ipmi_power run =
     (case run ''ipmitool'' [''chassis'', ''power'', ''status''] of (out, None) \<Rightarrow> parseChassisPowerStatus out | _ \<Rightarrow> [])"

definition ipmi_sensors :: "CommandRunner \<Rightarrow> bmcSensors option" where
  "ipmi_sensors run =
     (case run ''ipmitool'' [''sdr'', ''elist''] of
        (out, None) \<Rightarrow> (let s = parseSdrElist out in if bm_SensorCount s > 0 then Some s else None)
      | _ \<Rightarrow> None)"

definition ipmi_collect :: "config \<Rightarrow> world \<Rightarrow> Collector" where
  "ipmi_collect c w sid =
     (let f = new_facts w sid ''ipmi''
      in case cf_Runner c of
           None \<Rightarrow> (Some f, Some ''ipmi collector: no CommandRunner configured'')
         | Some run \<Rightarrow>
             (case requireCommand (lookPath w c) ''ipmitool'' of
                Some e \<Rightarrow> (Some f, Some (''ipmi collector: '' @ e))
              | None \<Rightarrow>
                  let state = ipmi_power run;
                      sensors = ipmi_sensors run;
                      f1 = f\<lparr>sf_PowerState := state\<rparr>;
                      f2 = (case sensors of None \<Rightarrow> f1 | Some s \<Rightarrow> set_raw ''bmc_sensors'' (sensors_json s) f1)
                  in (Some f2,
                      if state = [] \<and> sensors = None
                      then Some ''ipmi collector: ipmitool present but no usable output (no local BMC?)'' else None)))"

interpretation ipmi: fact_collector ipmi_collect "[''ipmi'']"
  by unfold_locales (auto simp: ipmi_collect_def Let_def split: option.split)


section \<open>What the sensors report\<close>

text \<open>A line of the listing with a name: its name, status and reading.\<close>

definition sensor_of :: "string \<Rightarrow> (string \<times> string \<times> string) option" where
  "sensor_of line =
     (let parts = Split line (CHR ''|'')
      in if length parts < 5 \<or> TrimSpace (parts ! 0) = [] then None
         else Some (TrimSpace (parts ! 0), TrimSpace (parts ! 2), TrimSpace (parts ! 4)))"

lemma sensor_reading_keeps [simp]:
  "bm_SensorCount (sensor_reading n r s) = bm_SensorCount s" "bm_NotOK (sensor_reading n r s) = bm_NotOK s"
  by (simp_all add: sensor_reading_def)

lemma sensor_line_counts:
  "bm_SensorCount (sensor_line s line) = bm_SensorCount s + (if sensor_of line = None then 0 else 1)"
  "bm_NotOK (sensor_line s line) = bm_NotOK s @
     (case sensor_of line of Some (n, st, r) \<Rightarrow> if st \<noteq> ''ok'' \<and> st \<noteq> ''ns'' then [n @ '': '' @ r] else [] | None \<Rightarrow> [])"
  by (simp_all add: sensor_line_def sensor_of_def Let_def)

text \<open>Every named sensor is counted, and exactly those with another status than ok or ns are listed.\<close>

lemma sensors_not_ok:
  "bm_SensorCount (parseSdrElist out) = int (length (List.map_filter sensor_of (Split out (CHR 0x0A))))"
  "bm_NotOK (parseSdrElist out) = map (\<lambda>(n, st, r). n @ '': '' @ r)
     (filter (\<lambda>(n, st, r). st \<noteq> ''ok'' \<and> st \<noteq> ''ns'') (List.map_filter sensor_of (Split out (CHR 0x0A))))"
proof -
  have fold: "bm_SensorCount (foldl sensor_line s lines) = bm_SensorCount s + int (length (List.map_filter sensor_of lines))
    \<and> bm_NotOK (foldl sensor_line s lines) = bm_NotOK s @ map (\<lambda>(n, st, r). n @ '': '' @ r)
        (filter (\<lambda>(n, st, r). st \<noteq> ''ok'' \<and> st \<noteq> ''ns'') (List.map_filter sensor_of lines))" for s lines
    by (induction lines arbitrary: s) (auto simp: sensor_line_counts map_filter_simps split: option.split)
  show "bm_SensorCount (parseSdrElist out) = int (length (List.map_filter sensor_of (Split out (CHR 0x0A))))"
    and "bm_NotOK (parseSdrElist out) = map (\<lambda>(n, st, r). n @ '': '' @ r)
     (filter (\<lambda>(n, st, r). st \<noteq> ''ok'' \<and> st \<noteq> ''ns'') (List.map_filter sensor_of (Split out (CHR 0x0A))))"
    using fold [of no_sensors "Split out (CHR 0x0A)"] by (simp_all add: parseSdrElist_def no_sensors_def)
qed

text \<open>A reading that is no finite number is kept, and no JSON document can hold it.\<close>

lemma infinite_reading_unmarshalable:
  "bad_numbers (sensors_json (parseSdrElist ''Inlet Temp | 04h | ok | 7.1 | inf degrees C'')) \<noteq> []"
  by code_simp

end
