(* ===== verification/Pipeline.thy ===== *)
theory Pipeline
  imports Refresh Linux_Host Hugepages Iommu Tee Kernel_Facts Nvme Lldp Numa Rdma Net_Topology Nic_Offload Gpu
    Redfish Pci Ipmi
begin

text \<open>
  \<open>collectors/wave2.go\<close> and \<open>buildCollectors\<close> of \<open>cmd/rewsr-maxfields/main.go\<close>: which collectors
  run, in which order, and what follows for a build of the serving pipeline. All collectors of a
  build see one snapshot of the machine.
\<close>

text \<open>
  The constructors: a collector that runs commands gets the runner and \<open>exec.LookPath\<close>, one that only
  reads files gets nothing; every collector reads the real root.
\<close>

definition NewLinuxHostCollector :: "CommandRunner \<Rightarrow> world \<Rightarrow> config" where
  "NewLinuxHostCollector r w = \<lparr>cf_Runner = Some r, cf_LookPath = Some (w_LookPath w), cf_SysRoot = []\<rparr>"

definition NewPCICollector :: "CommandRunner \<Rightarrow> world \<Rightarrow> config" where
  "NewPCICollector r w = \<lparr>cf_Runner = Some r, cf_LookPath = Some (w_LookPath w), cf_SysRoot = []\<rparr>"

definition NewRDMACollector :: "CommandRunner \<Rightarrow> world \<Rightarrow> config" where
  "NewRDMACollector r w = \<lparr>cf_Runner = Some r, cf_LookPath = Some (w_LookPath w), cf_SysRoot = []\<rparr>"

definition NewNUMACollector :: "CommandRunner \<Rightarrow> world \<Rightarrow> config" where
  "NewNUMACollector r w = \<lparr>cf_Runner = Some r, cf_LookPath = Some (w_LookPath w), cf_SysRoot = []\<rparr>"

definition NewNICOffloadCollector :: "CommandRunner \<Rightarrow> world \<Rightarrow> config" where
  "NewNICOffloadCollector r w = \<lparr>cf_Runner = Some r, cf_LookPath = Some (w_LookPath w), cf_SysRoot = []\<rparr>"

definition NewNetTopologyCollector :: "CommandRunner \<Rightarrow> world \<Rightarrow> config" where
  "NewNetTopologyCollector r w = \<lparr>cf_Runner = Some r, cf_LookPath = Some (w_LookPath w), cf_SysRoot = []\<rparr>"

definition NewLLDPCollector :: "CommandRunner \<Rightarrow> world \<Rightarrow> config" where
  "NewLLDPCollector r w = \<lparr>cf_Runner = Some r, cf_LookPath = Some (w_LookPath w), cf_SysRoot = []\<rparr>"

definition NewKernelCollector :: "CommandRunner \<Rightarrow> world \<Rightarrow> config" where
  "NewKernelCollector r w = \<lparr>cf_Runner = Some r, cf_LookPath = Some (w_LookPath w), cf_SysRoot = []\<rparr>"

definition NewNVMeCollector :: "CommandRunner \<Rightarrow> world \<Rightarrow> config" where
  "NewNVMeCollector r w = \<lparr>cf_Runner = Some r, cf_LookPath = Some (w_LookPath w), cf_SysRoot = []\<rparr>"

definition NewIPMICollector :: "CommandRunner \<Rightarrow> world \<Rightarrow> config" where
  "NewIPMICollector r w = \<lparr>cf_Runner = Some r, cf_LookPath = Some (w_LookPath w), cf_SysRoot = []\<rparr>"

definition NewGPUCollector :: "CommandRunner \<Rightarrow> world \<Rightarrow> config" where
  "NewGPUCollector r w = \<lparr>cf_Runner = Some r, cf_LookPath = Some (w_LookPath w), cf_SysRoot = []\<rparr>"

definition NewHugepagesCollector :: config where
  "NewHugepagesCollector = \<lparr>cf_Runner = None, cf_LookPath = None, cf_SysRoot = []\<rparr>"

definition NewIOMMUCollector :: config where
  "NewIOMMUCollector = \<lparr>cf_Runner = None, cf_LookPath = None, cf_SysRoot = []\<rparr>"

definition NewTEECollector :: config where
  "NewTEECollector = \<lparr>cf_Runner = None, cf_LookPath = None, cf_SysRoot = []\<rparr>"

definition NewSMBIOSCollector :: config where
  "NewSMBIOSCollector = \<lparr>cf_Runner = None, cf_LookPath = None, cf_SysRoot = []\<rparr>"

definition Wave2Collectors :: "CommandRunner \<Rightarrow> world \<Rightarrow> Collector list" where
  "Wave2Collectors r w =
     [pci_collect (NewPCICollector r w) w, rdma_collect (NewRDMACollector r w) w, numa_collect (NewNUMACollector r w) w,
      hugepages_collect NewHugepagesCollector w, iommu_collect NewIOMMUCollector w, tee_collect NewTEECollector w,
      nic_offload_collect (NewNICOffloadCollector r w) w, net_topology_collect (NewNetTopologyCollector r w) w,
      lldp_collect (NewLLDPCollector r w) w, kernel_collect (NewKernelCollector r w) w, smbios_collect NewSMBIOSCollector w,
      nvme_collect (NewNVMeCollector r w) w, ipmi_collect (NewIPMICollector r w) w, gpu_collect (NewGPUCollector r w) w]"

text \<open>The environment, with unset variables empty, as \<open>os.Getenv\<close> gives them.\<close>

type_synonym environment = "string \<Rightarrow> string"

definition envOr :: "environment \<Rightarrow> string \<Rightarrow> string \<Rightarrow> string" where
  "envOr getenv key fallback = (if getenv key \<noteq> [] then getenv key else fallback)"

definition redfish_collector :: "environment \<Rightarrow> RedfishCollector" where
  "redfish_collector getenv =
     NewRedfishCollector (envOr getenv ''REWSR_MAXFIELDS_REDFISH_BASE_URL'' ''https://localhost:8443'')
       (getenv ''REWSR_MAXFIELDS_REDFISH_TOKEN'')"

definition buildCollectors :: "environment \<Rightarrow> driver \<Rightarrow> database \<Rightarrow> world \<Rightarrow> Collector list" where
  "buildCollectors getenv d db w =
     (let localRunner = NewLocalRunner w
      in [linux_host_collect (NewLinuxHostCollector localRunner w) w, redfish_collect (redfish_collector getenv) w,
          provisioning_collect (Some (d, db)) w] @ Wave2Collectors localRunner w)"

text \<open>The collectors of a scan: no BMC and no provisioning store.\<close>

definition scan_collectors :: "world \<Rightarrow> Collector list" where
  "scan_collectors w =
     (let r = NewLocalRunner w in linux_host_collect (NewLinuxHostCollector r w) w # Wave2Collectors r w)"


section \<open>Contributions\<close>

text \<open>What a collector that never answers nil reports.\<close>

definition reported :: "Collector \<Rightarrow> string \<Rightarrow> ServerFacts" where
  "reported c sid = (case fst (c sid) of Some f \<Rightarrow> f | None \<Rightarrow> zero_facts)"

definition answers :: "Collector \<Rightarrow> string list \<Rightarrow> bool" where
  "answers c labels \<longleftrightarrow> (\<forall>sid. fst (c sid) \<noteq> None \<and> sf_ServerID (reported c sid) = sid \<and> sf_Source (reported c sid) \<in> set labels)"

context fact_collector
begin

lemma answers_labels: "answers (collect cfg w) labels"
  unfolding answers_def
proof
  fix sid
  obtain f e where "collect cfg w sid = (Some f, e)" "sf_ServerID f = sid" "sf_Source f \<in> set labels"
    using reports [of cfg w sid] by blast
  then show "fst (collect cfg w sid) \<noteq> None \<and> sf_ServerID (reported (collect cfg w) sid) = sid
      \<and> sf_Source (reported (collect cfg w) sid) \<in> set labels"
    by (simp add: reported_def)
qed

end

context hardware_collector
begin

lemma reported_quiet:
  "sf_PowerState (reported (collect cfg w) sid) = []" "sf_Provisioning (reported (collect cfg w) sid) = []"
  "sf_FailureDomain (reported (collect cfg w) sid) = []"
  using reports [of cfg w sid] quiet [of cfg w sid] by (auto simp: reported_def)

end

lemma answersD: "answers c L \<Longrightarrow> fst (c sid) = Some (reported c sid) \<and> sf_Source (reported c sid) \<in> set L"
  unfolding answers_def by (cases "fst (c sid)") (auto simp: reported_def dest: spec [of _ sid])

lemma contributions_answering:
  "list_all2 answers cs Ls \<Longrightarrow> contributions sid cs = map (\<lambda>c. reported c sid) cs"
  by (induction cs Ls rule: list_all2_induct) (simp_all add: answersD)

lemma sources_answering:
  "list_all2 answers cs Ls \<Longrightarrow> map sf_Source (contributions sid cs) \<in> set (product_lists Ls)"
proof (induction cs Ls rule: list_all2_induct)
  case (Cons c cs L Ls)
  then show ?case
    using answersD [OF Cons(1), of sid] by auto
qed simp

lemmas collectors_answer =
  linux_host.answers_labels redfish.answers_labels provisioning.answers_labels pci.answers_labels rdma.answers_labels
  numa.answers_labels hugepages.answers_labels iommu.answers_labels tee.answers_labels nic_offload.answers_labels
  net_topology.answers_labels lldp.answers_labels kernel.answers_labels smbios.answers_labels nvme.answers_labels
  ipmi.answers_labels gpu.answers_labels

lemmas hardware_quiet =
  linux_host.reported_quiet pci.reported_quiet rdma.reported_quiet numa.reported_quiet hugepages.reported_quiet
  iommu.reported_quiet tee.reported_quiet nic_offload.reported_quiet net_topology.reported_quiet
  kernel.reported_quiet smbios.reported_quiet nvme.reported_quiet gpu.reported_quiet

definition wave2_labels :: "string list" where
  "wave2_labels =
     [''linux_pci'', ''linux_rdma'', ''linux_numa'', ''linux_hugepages'', ''linux_iommu'', ''linux_tee'', ''linux_nic_offload'',
      ''linux_net_topology'', ''linux_lldp'', ''linux_kernel'', ''linux_smbios'', ''linux_nvme'', ''ipmi'', ''linux_gpu'']"

definition serving_labels :: "string list list" where
  "serving_labels = [''linux_host''] # [''redfish'', ''redfish_demo''] # [''provisioning_store''] # map (\<lambda>l. [l]) wave2_labels"

lemma serving_answers: "list_all2 answers (buildCollectors getenv d db w) serving_labels"
  using collectors_answer by (simp add: buildCollectors_def Wave2Collectors_def serving_labels_def wave2_labels_def Let_def)

lemma serving_sources:
  "map sf_Source (contributions sid (buildCollectors getenv d db w)) \<in>
     (\<lambda>r. ''linux_host'' # r # ''provisioning_store'' # wave2_labels) ` {''redfish'', ''redfish_demo''}"
  using sources_answering [OF serving_answers, of sid getenv d db w]
  by (simp add: serving_labels_def wave2_labels_def)

lemma serving_build:
  "\<exists>f. BuildServerFacts now sid (buildCollectors getenv d db w) = (Some f, None)"
proof -
  have "contributions sid (buildCollectors getenv d db w) \<noteq> []"
    unfolding contributions_answering [OF serving_answers] by (simp add: buildCollectors_def Let_def)
  then show ?thesis
    by (simp add: BuildServerFacts_eq)
qed

lemma union_loop_fresh:
  "distinct vs \<Longrightarrow> [] \<notin> set vs \<Longrightarrow> set vs \<inter> set seen = {} \<Longrightarrow> union_loop seen out vs = out @ vs"
  by (induction seen out vs rule: union_loop.induct) auto

lemma unionStrings_fresh: "distinct vs \<Longrightarrow> [] \<notin> set vs \<Longrightarrow> unionStrings [] vs = vs"
  by (simp add: unionStrings_def union_loop_fresh)

lemma serving_labels_ok:
  assumes "r \<in> {''redfish'', ''redfish_demo''}"
  shows "distinct (''linux_host'' # r # ''provisioning_store'' # wave2_labels)"
    and "[] \<notin> set (''linux_host'' # r # ''provisioning_store'' # wave2_labels)"
    and "\<forall>l\<in>set (''linux_host'' # r # ''provisioning_store'' # wave2_labels). CHR ''+'' \<notin> set l"
proof -
  have "list_all (\<lambda>r. let ls = ''linux_host'' # r # ''provisioning_store'' # wave2_labels
      in distinct ls \<and> list_all (\<lambda>l. l \<noteq> [] \<and> list_all (\<lambda>c. c \<noteq> CHR ''+'') l) ls) [''redfish'', ''redfish_demo'']"
    by code_simp
  then have "let ls = ''linux_host'' # r # ''provisioning_store'' # wave2_labels
      in distinct ls \<and> list_all (\<lambda>l. l \<noteq> [] \<and> list_all (\<lambda>c. c \<noteq> CHR ''+'') l) ls"
    using assms unfolding list_all_iff by (auto simp only: list.set insert_iff empty_iff)
  then have ls: "distinct (''linux_host'' # r # ''provisioning_store'' # wave2_labels)"
    "\<forall>l\<in>set (''linux_host'' # r # ''provisioning_store'' # wave2_labels). l \<noteq> [] \<and> (\<forall>c\<in>set l. c \<noteq> CHR ''+'')"
    unfolding Let_def list_all_iff by blast+
  show "distinct (''linux_host'' # r # ''provisioning_store'' # wave2_labels)" by (rule ls(1))
  show "[] \<notin> set (''linux_host'' # r # ''provisioning_store'' # wave2_labels)"
    "\<forall>l\<in>set (''linux_host'' # r # ''provisioning_store'' # wave2_labels). CHR ''+'' \<notin> set l"
    using ls(2) by blast+
qed



section \<open>Who decides what\<close>

definition stored_provisioning :: "driver \<Rightarrow> database \<Rightarrow> string \<Rightarrow> string \<times> string" where
  "stored_provisioning d db sid = (case GetProvisioning d db sid of Inr p \<Rightarrow> p | Inl _ \<Rightarrow> ([], []))"

lemma first_set_Nils: "\<forall>x\<in>set xs. x = z \<Longrightarrow> first_set z (xs @ ys) = first_set z ys"
  by (induction xs) auto

lemma first_set_Cons: "first_set z (x # xs) = (if x = z then first_set z xs else x)"
  by simp

lemma provisioning_reported:
  "sf_Provisioning (reported (provisioning_collect (Some (d, db)) w) sid) = fst (stored_provisioning d db sid)"
  "sf_FailureDomain (reported (provisioning_collect (Some (d, db)) w) sid) = snd (stored_provisioning d db sid)"
  "sf_PowerState (reported (provisioning_collect (Some (d, db)) w) sid) = []"
  by (simp_all add: reported_def provisioning_collect_def stored_provisioning_def zero_facts_def Let_def
      split: sum.split prod.split)

lemma redfish_reported:
  "sf_PowerState (reported (redfish_collect c w) sid) =
     (case redfish_system c w sid of Inl _ \<Rightarrow> ''on'' | Inr sys \<Rightarrow> ToLower (rs_PowerState sys))"
  "sf_Provisioning (reported (redfish_collect c w) sid) = []" "sf_FailureDomain (reported (redfish_collect c w) sid) = []"
  by (simp_all add: reported_def redfish_collect_def demoRedfishFacts_def redfish_facts_def split: sum.split)

lemma lldp_reported:
  "sf_PowerState (reported (lldp_collect c w) sid) = []" "sf_Provisioning (reported (lldp_collect c w) sid) = []"
  by (simp_all add: reported_def lldp_collect_def Let_def split: option.split sum.split)

lemma ipmi_reported:
  "sf_Provisioning (reported (ipmi_collect c w) sid) = []" "sf_FailureDomain (reported (ipmi_collect c w) sid) = []"
  by (simp_all add: reported_def ipmi_collect_def Let_def split: option.split)

lemmas reported_simps = hardware_quiet provisioning_reported redfish_reported lldp_reported ipmi_reported

lemma serving_fields:
  assumes "BuildServerFacts now sid (buildCollectors getenv d db w) = (Some f, e)"
  shows "sf_Provisioning f = first_set [] (map (\<lambda>c. sf_Provisioning (reported c sid)) (buildCollectors getenv d db w))"
    "sf_FailureDomain f = first_set [] (map (\<lambda>c. sf_FailureDomain (reported c sid)) (buildCollectors getenv d db w))"
    "sf_PowerState f = first_set [] (map (\<lambda>c. sf_PowerState (reported c sid)) (buildCollectors getenv d db w))"
  using build_Some [OF assms]
  by (simp_all add: finish_build_keeps merged_fields build_start_zero contributions_answering [OF serving_answers] comp_def)

lemma serving_authority:
  assumes "BuildServerFacts now sid (buildCollectors getenv d db w) = (Some f, e)"
  shows "sf_Provisioning f = fst (stored_provisioning d db sid)
    \<and> sf_FailureDomain f =
        (if snd (stored_provisioning d db sid) \<noteq> [] then snd (stored_provisioning d db sid)
         else sf_FailureDomain (reported (lldp_collect (NewLLDPCollector (NewLocalRunner w) w) w) sid))
    \<and> sf_PowerState f =
        (case redfish_system (redfish_collector getenv) w sid of
           Inl _ \<Rightarrow> ''on''
         | Inr sys \<Rightarrow>
             if rs_PowerState sys \<noteq> [] then ToLower (rs_PowerState sys)
             else sf_PowerState (reported (ipmi_collect (NewIPMICollector (NewLocalRunner w) w) w) sid))"
proof -
  have low: "ToLower s = [] \<longleftrightarrow> s = []" for s
    by (simp add: ToLower_def)
  show ?thesis
    unfolding serving_fields [OF assms] buildCollectors_def Wave2Collectors_def Let_def
    by (simp add: reported_simps low split: sum.split)
qed

text \<open>
  C22. In the serving pipeline each administrative fact has one authority: the provisioning state is
  the stored record's, the failure domain is the record's and LLDP's hint counts only without one,
  and the power state is what Redfish reports. A BMC that could not be read therefore counts as
  powered on, and what IPMI reports is used only when a reachable Redfish endpoint gave no state.
\<close>

theorem serving_authorities:
  assumes "BuildServerFacts now sid (buildCollectors getenv d db w) = (Some f, e)"
  shows "sf_Provisioning f = fst (stored_provisioning d db sid)
    \<and> sf_FailureDomain f =
        (if snd (stored_provisioning d db sid) \<noteq> [] then snd (stored_provisioning d db sid)
         else sf_FailureDomain (reported (lldp_collect (NewLLDPCollector (NewLocalRunner w) w) w) sid))
    \<and> sf_PowerState f =
        (case redfish_system (redfish_collector getenv) w sid of
           Inl _ \<Rightarrow> ''on''
         | Inr sys \<Rightarrow>
             if rs_PowerState sys \<noteq> [] then ToLower (rs_PowerState sys)
             else sf_PowerState (reported (ipmi_collect (NewIPMICollector (NewLocalRunner w) w) w) sid))"
  by (rule serving_authority [OF assms])

theorem serving_authorities_witness:
  "\<exists>f. BuildServerFacts zero_time ''srv'' (buildCollectors (\<lambda>_. []) sound_driver created_db bare_world) = (Some f, None)
     \<and> sf_PowerState f = ''on'' \<and> sf_Provisioning f = []"
proof -
  obtain f where f: "BuildServerFacts zero_time ''srv'' (buildCollectors (\<lambda>_. []) sound_driver created_db bare_world) = (Some f, None)"
    using serving_build by blast
  have "\<exists>e. redfish_system c bare_world sid = Inl e" for c sid
    by (simp add: redfish_system_def bare_world_def Let_def)
  moreover have "stored_provisioning sound_driver created_db ''srv'' = ([], [])"
    by (simp add: stored_provisioning_def created_db_def NewSQLiteProvisioningStore_def NewSQLiteStore_def empty_db_def
        GetProvisioning_def prov_table_def)
  ultimately show ?thesis
    using serving_authorities [OF f] f by (metis fst_conv sum.simps(5))
qed

end
