(* ===== verification/Views.thy ===== *)
theory Views
  imports Facts_Json
begin

text \<open>
  \<open>api/views.go\<close>: the public and the hardware view of merged facts, and their JSON form.
\<close>


section \<open>View types\<close>

record PublicNetwork =
  pn_PublicIPv4 :: bool
  pn_PrivateNetworks :: "string list"
  pn_BandwidthGbps :: int
  pn_Features :: "string list"

record PublicCapabilities =
  pc_LocalNVMe :: bool
  pc_SRIOV :: bool
  pc_RDMA :: bool
  pc_SecureBoot :: bool

record PublicLifecycle =
  pl_Provisioning :: string
  pl_Health :: string
  pl_RescueMode :: bool

record PublicServer =
  ps_ServerID :: string
  ps_State :: string
  ps_MachineType :: string
  ps_Region :: string
  ps_Network :: PublicNetwork
  ps_Capabilities :: PublicCapabilities
  ps_Lifecycle :: PublicLifecycle

record HardwareCPU =
  hc_Model :: string
  hc_Sockets :: int
  hc_Cores :: int

record HardwareNIC =
  hn_Name :: string
  hn_SpeedGbps :: int
  hn_Features :: "string list"

record HardwareNUMA =
  hu_Available :: bool
  hu_TopologyExposed :: bool

text \<open>The interfaces of the hardware view are \<open>None\<close> for a nil slice.\<close>

record HardwareServer =
  hs_ServerID :: string
  hs_CPU :: HardwareCPU
  hs_MemoryGB :: int
  hs_NICs :: "HardwareNIC list option"
  hs_NUMA :: HardwareNUMA


section \<open>Parts of the views\<close>

definition networkFeatureCapabilities :: "string list" where
  "networkFeatureCapabilities = [''sriov'', ''rdma'', ''high_bandwidth_networking'']"

fun hasCapability :: "string list \<Rightarrow> string \<Rightarrow> bool" where
  "hasCapability [] name = False"
| "hasCapability (c # cs) name = (if c = name then True else hasCapability cs name)"

fun hasNetworkMode :: "string list \<Rightarrow> string \<Rightarrow> bool" where
  "hasNetworkMode [] mode = False"
| "hasNetworkMode (m # ms) mode = (if m = mode then True else hasNetworkMode ms mode)"

definition privateNetworks :: "string list \<Rightarrow> string list" where
  "privateNetworks modes =
     foldl (\<lambda>out m. if m \<noteq> ''public_ipv4'' then out @ [m] else out) [] modes"

definition totalBandwidthGbps :: "NICFacts list \<Rightarrow> int" where
  "totalBandwidthGbps nics = foldl (\<lambda>total n. wrap64 (total + nic_SpeedGbps n)) 0 nics"

definition deriveState :: "ServerFacts \<Rightarrow> string" where
  "deriveState f =
     (if EqualFold (sf_Provisioning f) ''provisioning'' then ''provisioning''
      else if EqualFold (sf_Health f) ''healthy'' then ''active''
      else if EqualFold (sf_Health f) ''degraded'' then ''degraded''
      else ''unknown'')"

text \<open>The map \<open>rank\<close>; a missing key reads as 0.\<close>

definition disk_rank :: "string \<Rightarrow> int" where
  "disk_rank t = count_of [(''hdd'', 1), (''ssd'', 2), (''nvme'', 3)] t"

definition primaryDiskType :: "DiskFacts list \<Rightarrow> string" where
  "primaryDiskType disks =
     foldl (\<lambda>best d. if disk_rank (disk_Type d) > disk_rank best then disk_Type d else best) [] disks"

definition deriveMachineType :: "ServerFacts \<Rightarrow> string" where
  "deriveMachineType f =
     (if cpu_Cores (sf_CPU f) = 0 \<and> sf_MemoryGB f = 0 then ''unknown''
      else
        let t = primaryDiskType (sf_Disks f);
            diskSuffix = (if t = ''nvme'' then ''-nvme'' else if t = ''ssd'' then ''-ssd''
                          else if t = ''hdd'' then ''-hdd'' else [])
        in Itoa (cpu_Cores (sf_CPU f)) @ ''c-'' @ Itoa (sf_MemoryGB f) @ ''gb'' @ diskSuffix)"

definition deriveNUMA :: "ServerFacts \<Rightarrow> HardwareNUMA" where
  "deriveNUMA f =
     \<lparr>hu_Available = cpu_Sockets (sf_CPU f) > 1,
      hu_TopologyExposed = cpu_Sockets (sf_CPU f) > 0 \<and> cpu_Cores (sf_CPU f) > 0 \<and> cpu_Threads (sf_CPU f) > 0\<rparr>"


section \<open>The views\<close>

definition zero_public :: PublicServer where
  "zero_public =
     \<lparr>ps_ServerID = [], ps_State = [], ps_MachineType = [], ps_Region = [],
      ps_Network = \<lparr>pn_PublicIPv4 = False, pn_PrivateNetworks = [], pn_BandwidthGbps = 0, pn_Features = []\<rparr>,
      ps_Capabilities = \<lparr>pc_LocalNVMe = False, pc_SRIOV = False, pc_RDMA = False, pc_SecureBoot = False\<rparr>,
      ps_Lifecycle = \<lparr>pl_Provisioning = [], pl_Health = [], pl_RescueMode = False\<rparr>\<rparr>"

definition PublicView :: "ServerFacts option \<Rightarrow> PublicServer" where
  "PublicView fo =
     (case fo of
        None \<Rightarrow> zero_public
      | Some f \<Rightarrow>
          \<lparr>ps_ServerID = sf_ServerID f,
           ps_State = deriveState f,
           ps_MachineType = deriveMachineType f,
           ps_Region = sf_FailureDomain f,
           ps_Network =
             \<lparr>pn_PublicIPv4 = hasNetworkMode (sf_NetworkModes f) ''public_ipv4'',
              pn_PrivateNetworks = privateNetworks (sf_NetworkModes f),
              pn_BandwidthGbps = totalBandwidthGbps (sf_NICs f),
              pn_Features =
                foldl (\<lambda>fs c. if c \<in> set networkFeatureCapabilities then fs @ [c] else fs) [] (sf_Capabilities f)\<rparr>,
           ps_Capabilities =
             \<lparr>pc_LocalNVMe = hasCapability (sf_Capabilities f) ''local_nvme'',
              pc_SRIOV = hasCapability (sf_Capabilities f) ''sriov'',
              pc_RDMA = hasCapability (sf_Capabilities f) ''rdma'',
              pc_SecureBoot = hasCapability (sf_Capabilities f) ''secure_boot''\<rparr>,
           ps_Lifecycle =
             \<lparr>pl_Provisioning = sf_Provisioning f,
              pl_Health = sf_Health f,
              pl_RescueMode = EqualFold (sf_Provisioning f) ''rescue''\<rparr>\<rparr>)"

definition hardware_nic :: "NICFacts \<Rightarrow> HardwareNIC" where
  "hardware_nic n = \<lparr>hn_Name = nic_Name n, hn_SpeedGbps = nic_SpeedGbps n, hn_Features = nic_Features n\<rparr>"

definition HardwareView :: "ServerFacts option \<Rightarrow> HardwareServer" where
  "HardwareView fo =
     (case fo of
        None \<Rightarrow>
          \<lparr>hs_ServerID = [], hs_CPU = \<lparr>hc_Model = [], hc_Sockets = 0, hc_Cores = 0\<rparr>, hs_MemoryGB = 0,
           hs_NICs = None, hs_NUMA = \<lparr>hu_Available = False, hu_TopologyExposed = False\<rparr>\<rparr>
      | Some f \<Rightarrow>
          \<lparr>hs_ServerID = sf_ServerID f,
           hs_CPU = \<lparr>hc_Model = cpu_Model (sf_CPU f), hc_Sockets = cpu_Sockets (sf_CPU f), hc_Cores = cpu_Cores (sf_CPU f)\<rparr>,
           hs_MemoryGB = sf_MemoryGB f,
           hs_NICs = Some (map hardware_nic (sf_NICs f)),
           hs_NUMA = deriveNUMA f\<rparr>)"


section \<open>Their JSON form\<close>

definition public_json :: "PublicServer \<Rightarrow> json" where
  "public_json p =
     JObj
       [(''server_id'', jstr (ps_ServerID p)), (''state'', jstr (ps_State p)),
        (''machine_type'', jstr (ps_MachineType p)), (''region'', jstr (ps_Region p)),
        (''network'',
          let n = ps_Network p
          in JObj [(''public_ipv4'', JBool (pn_PublicIPv4 n)),
                   (''private_networks'', enc_slice jstr (pn_PrivateNetworks n)),
                   (''bandwidth_gbps'', jint (pn_BandwidthGbps n)),
                   (''features'', enc_slice jstr (pn_Features n))]),
        (''capabilities'',
          let c = ps_Capabilities p
          in JObj [(''local_nvme'', JBool (pc_LocalNVMe c)), (''sriov'', JBool (pc_SRIOV c)),
                   (''rdma'', JBool (pc_RDMA c)), (''secure_boot'', JBool (pc_SecureBoot c))]),
        (''lifecycle'',
          let l = ps_Lifecycle p
          in JObj [(''provisioning'', jstr (pl_Provisioning l)), (''health'', jstr (pl_Health l)),
                   (''rescue_mode'', JBool (pl_RescueMode l))])]"

definition hardware_nic_json :: "HardwareNIC \<Rightarrow> json" where
  "hardware_nic_json n =
     JObj [(''name'', jstr (hn_Name n)), (''speed_gbps'', jint (hn_SpeedGbps n)),
           (''features'', enc_slice jstr (hn_Features n))]"

definition hardware_json :: "HardwareServer \<Rightarrow> json" where
  "hardware_json h =
     JObj
       [(''server_id'', jstr (hs_ServerID h)),
        (''cpu'',
          let c = hs_CPU h
          in JObj [(''model'', jstr (hc_Model c)), (''sockets'', jint (hc_Sockets c)), (''cores'', jint (hc_Cores c))]),
        (''memory_gb'', jint (hs_MemoryGB h)),
        (''nics'', (case hs_NICs h of None \<Rightarrow> JNull | Some ns \<Rightarrow> JArr (map hardware_nic_json ns))),
        (''numa'',
          let u = hs_NUMA h
          in JObj [(''available'', JBool (hu_Available u)), (''topology_exposed'', JBool (hu_TopologyExposed u))])]"


section \<open>Lemmas on the parts\<close>

lemma hasCapability_iff [simp]: "hasCapability cs name \<longleftrightarrow> name \<in> set cs"
  by (induction cs) auto

lemma hasNetworkMode_iff [simp]: "hasNetworkMode ms mode \<longleftrightarrow> mode \<in> set ms"
  by (induction ms) auto

text \<open>A loop that appends the elements with a property is a filter.\<close>

lemma foldl_append_filter: "foldl (\<lambda>out x. if P x then out @ [x] else out) out xs = out @ filter P xs"
  by (induction xs arbitrary: out) auto

lemma privateNetworks_filter: "privateNetworks modes = filter (\<lambda>m. m \<noteq> ''public_ipv4'') modes"
  by (simp add: privateNetworks_def foldl_append_filter)

lemma public_features:
  "pn_Features (ps_Network (PublicView (Some f))) =
     filter (\<lambda>c. c \<in> set networkFeatureCapabilities) (sf_Capabilities f)"
  by (simp only: PublicView_def option.case PublicServer.simps PublicNetwork.simps foldl_append_filter append_Nil)

lemma totalBandwidth_sum: "totalBandwidthGbps nics = wrap64 (\<Sum>n\<leftarrow>nics. nic_SpeedGbps n)"
  unfolding totalBandwidthGbps_def by (subst foldl_wrap64_sum) (simp_all add: in_int64_def)

lemma disk_rank_values: "disk_rank t =
    (if t = ''hdd'' then 1 else if t = ''ssd'' then 2 else if t = ''nvme'' then 3 else 0)"
  by (simp add: disk_rank_def count_of_def)

text \<open>The loop of \<open>primaryDiskType\<close> finds the largest rank.\<close>

lemma disk_rank_fold:
  "disk_rank (foldl (\<lambda>best d. if disk_rank (disk_Type d) > disk_rank best then disk_Type d else best) b ds) =
     foldl max (disk_rank b) (map (\<lambda>d. disk_rank (disk_Type d)) ds)"
proof (induction ds arbitrary: b)
  case (Cons d ds)
  have "disk_rank (if disk_rank (disk_Type d) > disk_rank b then disk_Type d else b)
      = max (disk_rank b) (disk_rank (disk_Type d))"
    by simp
  then show ?case
    by (simp only: foldl_Cons Cons.IH list.map)
qed simp

lemma foldl_max_upper: "(a :: int) \<le> foldl max a xs \<and> (\<forall>x\<in>set xs. x \<le> foldl max a xs)"
proof (induction xs arbitrary: a)
  case (Cons x xs)
  from Cons.IH [of "max a x"] show ?case
    by (auto intro: order_trans [of _ "max a x"])
qed simp

lemma primary_disk_best: "d \<in> set ds \<Longrightarrow> disk_rank (disk_Type d) \<le> disk_rank (primaryDiskType ds)"
  unfolding primaryDiskType_def disk_rank_fold using foldl_max_upper by force

lemma primary_disk_member:
  "foldl (\<lambda>best d. if disk_rank (disk_Type d) > disk_rank best then disk_Type d else best) b ds = b
   \<or> foldl (\<lambda>best d. if disk_rank (disk_Type d) > disk_rank best then disk_Type d else best) b ds
       \<in> {t \<in> disk_Type ` set ds. disk_rank t > disk_rank b}"
proof (induction ds arbitrary: b)
  case (Cons d ds)
  show ?case
  proof (cases "disk_rank (disk_Type d) > disk_rank b")
    case True
    with Cons.IH [of "disk_Type d"] show ?thesis by auto
  next
    case False
    with Cons.IH [of b] show ?thesis by auto
  qed
qed simp


section \<open>What the views leave out\<close>

text \<open>
  The facts with everything erased that the documentation of \<open>PublicServer\<close> calls internal:
  \<open>Raw\<close>, the source and the instant, the CPU's names, the disks' names and sizes, and of the
  interfaces everything but the speed.
\<close>

definition public_part :: "ServerFacts \<Rightarrow> ServerFacts" where
  "public_part f =
     f\<lparr>sf_ObservedAt := zero_time, sf_Source := [], sf_PowerState := [],
       sf_CPU := zero_cpu\<lparr>cpu_Cores := cpu_Cores (sf_CPU f)\<rparr>,
       sf_Disks := map (\<lambda>d. \<lparr>disk_Name = [], disk_Type = disk_Type d, disk_SizeGB = 0, disk_Rotational = False\<rparr>) (sf_Disks f),
       sf_NICs := map (\<lambda>n. \<lparr>nic_Name = [], nic_MAC = [], nic_SpeedGbps = nic_SpeedGbps n, nic_Driver = [], nic_Features = []\<rparr>) (sf_NICs f),
       sf_Raw := None\<rparr>"

definition hardware_part :: "ServerFacts \<Rightarrow> ServerFacts" where
  "hardware_part f =
     zero_facts\<lparr>sf_ServerID := sf_ServerID f, sf_CPU := (sf_CPU f)\<lparr>cpu_Vendor := []\<rparr>, sf_MemoryGB := sf_MemoryGB f,
       sf_NICs := map (\<lambda>n. n\<lparr>nic_MAC := [], nic_Driver := []\<rparr>) (sf_NICs f)\<rparr>"

lemma primaryDiskType_erased:
  "primaryDiskType (map (\<lambda>d. \<lparr>disk_Name = [], disk_Type = disk_Type d, disk_SizeGB = 0, disk_Rotational = False\<rparr>) ds)
     = primaryDiskType ds"
  by (simp add: primaryDiskType_def foldl_map cong: if_cong)

lemma public_view_part: "PublicView (Some f) = PublicView (Some (public_part f))"
  by (simp add: PublicView_def public_part_def deriveState_def deriveMachineType_def primaryDiskType_erased
      totalBandwidth_sum comp_def)

lemma hardware_view_part: "HardwareView (Some f) = HardwareView (Some (hardware_part f))"
  by (simp add: HardwareView_def hardware_part_def deriveNUMA_def hardware_nic_def zero_facts_def)

text \<open>
  C25. The public view is a contract boundary: facts that differ only in \<open>Raw\<close>, in names,
  addresses, drivers and driver features of interfaces, in the names and sizes of disks, in the
  CPU's names, or in the source, the power state and the instant have the same public view.
  Facts that agree on the id, the CPU's model and counts, the memory and the name, speed and
  features of the interfaces have the same hardware view: it reads no address, driver name,
  \<open>Raw\<close> entry, failure domain, network mode or disk.
\<close>

theorem views_hide_internals:
  "(public_part f = public_part g \<longrightarrow> PublicView (Some f) = PublicView (Some g))
   \<and> (hardware_part f = hardware_part g \<longrightarrow> HardwareView (Some f) = HardwareView (Some g))"
  using public_view_part [of f] public_view_part [of g] hardware_view_part [of f] hardware_view_part [of g]
  by simp

text \<open>A server of the fleet and one that differs in internal detail only.\<close>

definition view_sample :: "string \<Rightarrow> string \<Rightarrow> (string, json) gomap option \<Rightarrow> ServerFacts" where
  "view_sample mac driver rawmap = zero_facts\<lparr>sf_ServerID := ''srv'', sf_Health := ''healthy'', sf_MemoryGB := 32,
     sf_CPU := zero_cpu\<lparr>cpu_Cores := 8\<rparr>,
     sf_Disks := [\<lparr>disk_Name = ''sda'', disk_Type = ''hdd'', disk_SizeGB = 4000, disk_Rotational = True\<rparr>,
                  \<lparr>disk_Name = ''nvme0n1'', disk_Type = ''nvme'', disk_SizeGB = 960, disk_Rotational = False\<rparr>],
     sf_NICs := [\<lparr>nic_Name = ''eth0'', nic_MAC = mac, nic_SpeedGbps = 25, nic_Driver = driver, nic_Features = []\<rparr>,
                 \<lparr>nic_Name = ''eth1'', nic_MAC = mac, nic_SpeedGbps = 100, nic_Driver = driver, nic_Features = [''rdma'']\<rparr>],
     sf_Capabilities := [''kvm'', ''rdma'', ''sriov''],
     sf_NetworkModes := [''vlan-12'', ''public_ipv4''], sf_Raw := rawmap\<rparr>"

theorem views_hide_internals_witness:
  "PublicView (Some (view_sample ''aa:bb'' ''mlx5_core'' (Some [(''switch'', jstr ''tor-7'')])))
     = PublicView (Some (view_sample ''cc:dd'' ''ice'' None))
   \<and> HardwareView (Some (view_sample ''aa:bb'' ''mlx5_core'' (Some [(''switch'', jstr ''tor-7'')])))
     = HardwareView (Some ((view_sample ''cc:dd'' ''ice'' None)\<lparr>sf_FailureDomain := ''rack-3''\<rparr>))"
  using views_hide_internals [of "view_sample ''aa:bb'' ''mlx5_core'' (Some [(''switch'', jstr ''tor-7'')])"
      "view_sample ''cc:dd'' ''ice'' None"]
    views_hide_internals [of "view_sample ''aa:bb'' ''mlx5_core'' (Some [(''switch'', jstr ''tor-7'')])"
      "(view_sample ''cc:dd'' ''ice'' None)\<lparr>sf_FailureDomain := ''rack-3''\<rparr>"]
  by (simp add: public_part_def hardware_part_def view_sample_def)

text \<open>
  What the public view shows: its features are the capabilities of the allowlist and no
  others, its bandwidth is the 64-bit wrapped sum of the interface speeds, private networks are
  the modes other than \<open>public_ipv4\<close>, the capability flags are memberships, and the state is
  active exactly for a healthy server that is not being provisioned.
\<close>

lemma public_view_contents:
  "set (pn_Features (ps_Network (PublicView (Some f))))
     = set (sf_Capabilities f) \<inter> {''sriov'', ''rdma'', ''high_bandwidth_networking''}
   \<and> pn_BandwidthGbps (ps_Network (PublicView (Some f))) = wrap64 (\<Sum>n\<leftarrow>sf_NICs f. nic_SpeedGbps n)
   \<and> pn_PrivateNetworks (ps_Network (PublicView (Some f))) = filter (\<lambda>m. m \<noteq> ''public_ipv4'') (sf_NetworkModes f)
   \<and> (pn_PublicIPv4 (ps_Network (PublicView (Some f))) \<longleftrightarrow> ''public_ipv4'' \<in> set (sf_NetworkModes f))
   \<and> (pc_SecureBoot (ps_Capabilities (PublicView (Some f))) \<longleftrightarrow> ''secure_boot'' \<in> set (sf_Capabilities f))
   \<and> (pc_LocalNVMe (ps_Capabilities (PublicView (Some f))) \<longleftrightarrow> ''local_nvme'' \<in> set (sf_Capabilities f))
   \<and> (ps_State (PublicView (Some f)) = ''active'' \<longleftrightarrow>
        \<not> EqualFold (sf_Provisioning f) ''provisioning'' \<and> EqualFold (sf_Health f) ''healthy'')"
proof -
  have "set (pn_Features (ps_Network (PublicView (Some f))))
      = set (sf_Capabilities f) \<inter> {''sriov'', ''rdma'', ''high_bandwidth_networking''}"
    unfolding public_features by (simp only: set_filter networkFeatureCapabilities_def) auto
  then show ?thesis
    by (simp add: PublicView_def totalBandwidth_sum privateNetworks_filter deriveState_def)
qed

text \<open>
  The machine type names the fastest disk tier: no disk has a higher rank than the one
  \<open>primaryDiskType\<close> picks, and what it picks is the type of one of the disks or, when no disk
  is of a known tier, empty.
\<close>

lemma primary_disk_is_fastest:
  "(\<forall>d\<in>set (sf_Disks f). disk_rank (disk_Type d) \<le> disk_rank (primaryDiskType (sf_Disks f)))
   \<and> (primaryDiskType (sf_Disks f) = [] \<or>
        primaryDiskType (sf_Disks f) \<in> disk_Type ` set (sf_Disks f) \<inter> {''hdd'', ''ssd'', ''nvme''})"
proof -
  have "primaryDiskType (sf_Disks f) = [] \<or>
      primaryDiskType (sf_Disks f) \<in> disk_Type ` set (sf_Disks f) \<inter> {''hdd'', ''ssd'', ''nvme''}"
    using primary_disk_member [of "[]" "sf_Disks f"]
    unfolding primaryDiskType_def [symmetric] by (auto simp: disk_rank_values split: if_splits)
  then show ?thesis
    using primary_disk_best by blast
qed

end
