(* ===== verification/Vocabulary.thy ===== *)
theory Vocabulary
  imports Pipeline Views
begin

text \<open>
  What the collectors of the pipeline may say. Capabilities and network modes decide where a server is
  placed and what callers are shown; the collectors take them from a fixed vocabulary, never from
  what a tool, a file or a BMC says, and some words only come together with others. Below \<open>Raw\<close>
  each collector writes keys of its own.
\<close>


section \<open>The vocabulary\<close>

text \<open>What the collectors report, and what \<open>InferCapabilities\<close> adds.\<close>

definition capability_words :: "string list" where
  "capability_words =
     [''pcie_gen4'', ''pcie_gen5'', ''gpu_accelerator'', ''sriov'', ''rdma'', ''infiniband'', ''roce'', ''rdma_active'',
      ''multi_numa'', ''hugepages'', ''hugepages_1g'', ''iommu'', ''iommu_passthrough'', ''sev'', ''sev_es'', ''sev_snp'',
      ''tdx'', ''sgx'', ''tee_capable'', ''ptp_hardware_clock'', ''vfio'', ''gpu'', ''nvidia_gpu'', ''gpu_cuda'',
      ''bluefield_dpu'', ''doca'', ''gpudirect_rdma'', ''local_nvme'', ''high_bandwidth_networking'', ''power_control'']"

definition mode_words :: "string list" where
  "mode_words = [''rdma'', ''bonded'', ''lacp'', ''vlan_tagged'', ''bridged'']"

text \<open>A word with the word it never comes without.\<close>

definition implied_words :: "(string \<times> string) list" where
  "implied_words =
     [(''infiniband'', ''rdma''), (''roce'', ''rdma''), (''rdma_active'', ''rdma''), (''iommu_passthrough'', ''iommu''),
      (''sev'', ''tee_capable''), (''sev_es'', ''tee_capable''), (''sev_snp'', ''tee_capable''), (''tdx'', ''tee_capable''),
      (''sgx'', ''tee_capable''), (''gpu'', ''nvidia_gpu''), (''nvidia_gpu'', ''gpu'')]"

definition keeps_together :: "(string \<times> string) list \<Rightarrow> string list \<Rightarrow> bool" where
  "keeps_together R xs \<longleftrightarrow> list_all (\<lambda>(x, y). x \<in> set xs \<longrightarrow> y \<in> set xs) R"

definition speaks :: "string list \<Rightarrow> string list \<Rightarrow> bool" where
  "speaks caps modes \<longleftrightarrow>
     list_all (\<lambda>x. x \<in> set capability_words) caps \<and> list_all (\<lambda>m. m \<in> set mode_words) modes
     \<and> keeps_together implied_words caps \<and> keeps_together [(''lacp'', ''bonded'')] modes
     \<and> (''rdma'' \<in> set modes \<longrightarrow> ''rdma'' \<in> set caps)"

text \<open>
  The collectors decide on each word by itself: every list one of them can report is checked, with
  its decisions as the truth values.
\<close>

lemma spoken_lists:
  "\<forall>a b c d. speaks ((if a then [''pcie_gen5''] else if b then [''pcie_gen4''] else []) @ (if c then [''gpu_accelerator''] else [])
      @ (if d then [''sriov''] else [])) []"
  "\<forall>a b c. speaks ([''rdma''] @ (if a then [''infiniband''] else []) @ (if b then [''roce''] else [])
      @ (if c then [''rdma_active''] else [])) [''rdma'']"
  "\<forall>a b c d e. let caps = cap_if (cap_if (cap_if (cap_if (cap_if [] ''sev'' a) ''sev_es'' b) ''sev_snp'' c) ''tdx'' d) ''sgx'' e
      in speaks (if caps \<noteq> [] then caps @ [''tee_capable''] else caps) []"
  "\<forall>a b c d. speaks [] ((if a then ''bonded'' # (if b then [''lacp''] else []) else [])
      @ (if c then [''vlan_tagged''] else []) @ (if d then [''bridged''] else []))"
  "\<forall>a b c d e. speaks (gpu_caps a b c d e) []"
  by code_simp+

lemma speaks_lists [simp]:
  "speaks (pci_caps kept) []" "speaks (rdma_caps devices) [''rdma'']" "speaks (tee_caps flags params paths) []"
  "speaks [] (topology_modes bonds vlans bridges)" "speaks (gpu_caps a b c d e) []"
  unfolding pci_caps_def rdma_caps_def tee_caps_def topology_modes_def Let_def
  by (rule spoken_lists [unfolded Let_def, rule_format])+

lemma speaks_choices [simp]:
  "speaks [] []" "speaks [''multi_numa''] []" "speaks [''ptp_hardware_clock''] []" "speaks [''vfio''] []" "speaks [''iommu''] []"
  "speaks [''iommu'', ''iommu_passthrough''] []"
  by code_simp+

lemma size_words:
  "x \<in> set (foldl (size_caps tot) caps sizes) \<Longrightarrow> x \<in> set caps \<or> x = ''hugepages'' \<or> x = ''hugepages_1g''"
proof (induction sizes arbitrary: caps)
  case (Cons s sizes)
  from Cons.IH [of "size_caps tot caps s"] Cons.prems show ?case
    by (auto simp: size_caps_def Let_def split: if_splits)
qed simp

lemma speaks_pages: "set caps \<subseteq> {''hugepages'', ''hugepages_1g''} \<Longrightarrow> speaks caps []"
proof -
  have "list_all (\<lambda>x. x \<in> set capability_words) [''hugepages'', ''hugepages_1g'']"
    "list_all (\<lambda>(x, y). x \<notin> set [''hugepages'', ''hugepages_1g'']) implied_words"
    by code_simp+
  then show "set caps \<subseteq> {''hugepages'', ''hugepages_1g''} \<Longrightarrow> speaks caps []"
    unfolding speaks_def keeps_together_def list_all_iff by fastforce
qed

section \<open>The collectors\<close>

definition well_spoken :: "ServerFacts \<Rightarrow> bool" where
  "well_spoken f \<longleftrightarrow> speaks (sf_Capabilities f) (sf_NetworkModes f)"

locale vocabulary_collector = fact_collector collect labels
  for collect :: "'cfg \<Rightarrow> world \<Rightarrow> Collector" and labels :: "string list" +
  fixes keys :: "string list"
  assumes spoken: "collect cfg w sid = (Some f, e) \<Longrightarrow> well_spoken f"
    and keyed: "collect cfg w sid = (Some f, e) \<Longrightarrow> raw_get f k = Some v \<Longrightarrow> k \<in> set keys"
begin

lemma reported_spoken: "well_spoken (reported (collect cfg w) sid)"
  using reports [of cfg w sid] spoken [of cfg w sid] by (auto simp: reported_def)

lemma reported_keys: "raw_get (reported (collect cfg w) sid) k = Some v \<Longrightarrow> k \<in> set keys"
  using reports [of cfg w sid] keyed [of cfg w sid] by (auto simp: reported_def)

end

definition redfish_keys :: "string list" where
  "redfish_keys =
     [''vendor'', ''model'', ''serial_number'', ''redfish_health'', ''redfish_state'', ''demo_mode'', ''demo_reason'']"

lemma raw_get_updates [simp]:
  "raw_get (f\<lparr>sf_Capabilities := cs\<rparr>) k = raw_get f k" "raw_get (f\<lparr>sf_NetworkModes := ms\<rparr>) k = raw_get f k"
  "raw_get (f\<lparr>sf_FailureDomain := fd\<rparr>) k = raw_get f k" "raw_get (f\<lparr>sf_PowerState := ps\<rparr>) k = raw_get f k"
  "raw_get (f\<lparr>sf_CPU := c\<rparr>) k = raw_get f k" "raw_get (f\<lparr>sf_Disks := ds\<rparr>) k = raw_get f k"
  "raw_get (f\<lparr>sf_NICs := ns\<rparr>) k = raw_get f k"
  by (simp_all add: raw_get_def)

lemma host_silent:
  assumes "linux_host_collect c w sid = (Some f, e)"
  shows "sf_Capabilities f = [] \<and> sf_NetworkModes f = [] \<and> raw_get f k = None"
proof (cases "cf_Runner c")
  case None
  with assms show ?thesis
    by (auto simp: linux_host_collect_def zero_facts_def raw_get_def)
next
  case (Some run)
  have "sf_Capabilities (fst (collectCPU w run look g)) = sf_Capabilities g" "sf_NetworkModes (fst (collectCPU w run look g)) = sf_NetworkModes g"
    "sf_Capabilities (fst (collectDisks w run look g)) = sf_Capabilities g" "sf_NetworkModes (fst (collectDisks w run look g)) = sf_NetworkModes g"
    "sf_Capabilities (fst (collectNICs w run look g)) = sf_Capabilities g" "sf_NetworkModes (fst (collectNICs w run look g)) = sf_NetworkModes g"
    "raw_get (fst (collectCPU w run look g)) k = raw_get g k" "raw_get (fst (collectDisks w run look g)) k = raw_get g k"
    "raw_get (fst (collectNICs w run look g)) k = raw_get g k"
    for look g
    by (simp_all add: collectCPU_def collectDisks_def collectNICs_def Let_def split: sum.splits)
  with linux_host_collect_eq [OF Some, of w sid] assms show ?thesis
    by (auto simp: Let_def)
qed

interpretation linux_host_words: vocabulary_collector linux_host_collect "[''linux_host'']" "[]"
  by unfold_locales (simp_all add: well_spoken_def host_silent)

interpretation redfish_words: vocabulary_collector redfish_collect "[''redfish'', ''redfish_demo'']" redfish_keys
  by unfold_locales
    (auto simp: well_spoken_def redfish_collect_def redfish_facts_def demoRedfishFacts_def redfish_keys_def raw_get_def split: sum.splits if_splits)

interpretation provisioning_words: vocabulary_collector provisioning_collect "[''provisioning_store'']" "[]"
  by unfold_locales
    (auto simp: well_spoken_def provisioning_collect_def zero_facts_def raw_get_def Let_def split: option.splits sum.splits)

interpretation pci_words: vocabulary_collector pci_collect "[''linux_pci'']" "[''pci'']"
  by unfold_locales
    (auto simp: well_spoken_def pci_collect_def Let_def split: option.splits sum.splits if_splits)

interpretation rdma_words: vocabulary_collector rdma_collect "[''linux_rdma'']" "[''rdma'']"
  by unfold_locales
    (auto simp: well_spoken_def rdma_collect_def Let_def split: option.splits sum.splits if_splits)

interpretation numa_words: vocabulary_collector numa_collect "[''linux_numa'']" "[''numa'']"
  by unfold_locales (auto simp: well_spoken_def numa_collect_def Let_def split: option.splits if_splits)

interpretation hugepages_words: vocabulary_collector hugepages_collect "[''linux_hugepages'']" "[''hugepages'']"
  by unfold_locales
    (auto simp: well_spoken_def hugepages_collect_def Let_def intro!: speaks_pages dest!: size_words split: if_splits)

interpretation iommu_words: vocabulary_collector iommu_collect "[''linux_iommu'']" "[''iommu'']"
  by unfold_locales (auto simp: well_spoken_def iommu_collect_def Let_def split: prod.splits if_splits)

interpretation tee_words: vocabulary_collector tee_collect "[''linux_tee'']" "[''tee'']"
  by unfold_locales (auto simp: well_spoken_def tee_collect_def Let_def split: if_splits)

interpretation nic_offload_words: vocabulary_collector nic_offload_collect "[''linux_nic_offload'']" "[''nic_offload'']"
  by unfold_locales
    (auto simp: well_spoken_def nic_offload_collect_def Let_def split: option.splits sum.splits prod.splits if_splits)

interpretation net_topology_words: vocabulary_collector net_topology_collect "[''linux_net_topology'']" "[''net_topology'']"
  by unfold_locales
    (auto simp: well_spoken_def net_topology_collect_def Let_def split: option.splits sum.splits if_splits)

interpretation lldp_words: vocabulary_collector lldp_collect "[''linux_lldp'']" "[''lldp_neighbors'']"
  by unfold_locales
    (auto simp: well_spoken_def lldp_collect_def Let_def split: option.splits sum.splits if_splits)

interpretation kernel_words: vocabulary_collector kernel_collect "[''linux_kernel'']" "[''kernel'']"
  by unfold_locales (auto simp: well_spoken_def kernel_collect_def Let_def split: if_splits)

interpretation smbios_words: vocabulary_collector smbios_collect "[''linux_smbios'']" "[''dmi'']"
  by unfold_locales
    (auto simp: well_spoken_def smbios_collect_def Let_def split: option.splits if_splits)

interpretation nvme_words: vocabulary_collector nvme_collect "[''linux_nvme'']" "[''nvme'']"
  by unfold_locales
    (auto simp: well_spoken_def nvme_collect_def Let_def split: option.splits sum.splits if_splits)

interpretation ipmi_words: vocabulary_collector ipmi_collect "[''ipmi'']" "[''bmc_sensors'']"
  by unfold_locales (auto simp: well_spoken_def ipmi_collect_def Let_def split: option.splits if_splits)

interpretation gpu_words: vocabulary_collector gpu_collect "[''linux_gpu'']" "[''gpu'']"
  by unfold_locales
    (auto simp: well_spoken_def gpu_collect_def Let_def split: prod.splits if_splits)

lemmas reported_words =
  linux_host_words.reported_spoken redfish_words.reported_spoken provisioning_words.reported_spoken
  pci_words.reported_spoken rdma_words.reported_spoken numa_words.reported_spoken hugepages_words.reported_spoken
  iommu_words.reported_spoken tee_words.reported_spoken nic_offload_words.reported_spoken
  net_topology_words.reported_spoken lldp_words.reported_spoken kernel_words.reported_spoken
  smbios_words.reported_spoken nvme_words.reported_spoken ipmi_words.reported_spoken gpu_words.reported_spoken

lemma serving_contributions_spoken: "g \<in> set (contributions sid (buildCollectors getenv d db w)) \<Longrightarrow> well_spoken g"
  unfolding contributions_answering [OF serving_answers]
  by (auto simp: buildCollectors_def Wave2Collectors_def Let_def reported_words)


section \<open>A build\<close>

lemma keeps_together_Un:
  assumes "\<forall>g\<in>G. keeps_together R (sel g)" and "set xs = (\<Union>g\<in>G. set (sel g)) - {[]} \<union> D"
    and "\<forall>(x, y)\<in>set R. x \<notin> D \<and> y \<noteq> []"
  shows "keeps_together R xs"
  using assms(1,3) unfolding keeps_together_def list_all_iff assms(2) by fastforce

lemma derived_known: "derived_caps f \<subseteq> {''local_nvme'', ''high_bandwidth_networking'', ''sriov'', ''rdma'', ''power_control''}"
  by (auto simp: derived_caps_def only_if_def)

text \<open>A build keeps to the vocabulary of its collectors.\<close>

lemma build_spoken:
  assumes "BuildServerFacts now sid cs = (Some f, e)" and "\<forall>g\<in>set (contributions sid cs). well_spoken g"
  shows "well_spoken f"
proof -
  let ?gs = "set (contributions sid cs)"
  have caps: "set (sf_Capabilities f) = (\<Union>g\<in>?gs. set (sf_Capabilities g)) - {[]} \<union> derived_caps f"
    and modes: "set (sf_NetworkModes f) = (\<Union>g\<in>?gs. set (sf_NetworkModes g)) - {[]} \<union> {}"
    using build_lists [OF assms(1)] by simp_all
  have words: "list_all (\<lambda>x. x \<in> set capability_words) [''local_nvme'', ''high_bandwidth_networking'', ''sriov'', ''rdma'', ''power_control'']"
    "list_all (\<lambda>(x, y). x \<notin> set [''local_nvme'', ''high_bandwidth_networking'', ''sriov'', ''rdma'', ''power_control''] \<and> y \<noteq> []) implied_words"
    by code_simp+
  have "keeps_together implied_words (sf_Capabilities f)"
  proof (rule keeps_together_Un [OF _ caps])
    show "\<forall>(x, y)\<in>set implied_words. x \<notin> derived_caps f \<and> y \<noteq> []"
      using words(2) derived_known [of f] unfolding list_all_iff by fastforce
  qed (use assms(2) in \<open>simp add: well_spoken_def speaks_def\<close>)
  moreover have "keeps_together [(''lacp'', ''bonded'')] (sf_NetworkModes f)"
    by (rule keeps_together_Un [OF _ modes]) (use assms(2) in \<open>simp_all add: well_spoken_def speaks_def\<close>)
  moreover have "list_all (\<lambda>x. x \<in> set capability_words) (sf_Capabilities f)"
    using assms(2) words(1) derived_known [of f] unfolding well_spoken_def speaks_def list_all_iff caps by fastforce
  moreover have "list_all (\<lambda>m. m \<in> set mode_words) (sf_NetworkModes f)"
    using assms(2) unfolding well_spoken_def speaks_def list_all_iff modes by blast
  moreover have "''rdma'' \<in> set (sf_NetworkModes f) \<longrightarrow> ''rdma'' \<in> set (sf_Capabilities f)"
    using assms(2) unfolding well_spoken_def speaks_def caps modes by blast
  ultimately show ?thesis
    by (simp add: well_spoken_def speaks_def)
qed

lemma view_flags_off:
  assumes "well_spoken f"
  shows "\<not> pn_PublicIPv4 (ps_Network (PublicView (Some f)))" "\<not> pc_SecureBoot (ps_Capabilities (PublicView (Some f)))"
proof -
  have "''public_ipv4'' \<notin> set mode_words" "''secure_boot'' \<notin> set capability_words"
    by code_simp+
  then have "''public_ipv4'' \<notin> set (sf_NetworkModes f)" "''secure_boot'' \<notin> set (sf_Capabilities f)"
    using assms unfolding well_spoken_def speaks_def list_all_iff by blast+
  then show "\<not> pn_PublicIPv4 (ps_Network (PublicView (Some f)))" "\<not> pc_SecureBoot (ps_Capabilities (PublicView (Some f)))"
    by (simp_all add: PublicView_def hasNetworkMode_iff hasCapability_iff)
qed

text \<open>
  C23. Capabilities and network modes are never free text: whatever a machine's tools, files, BMC and
  provisioning record say, a build of the serving pipeline claims only the thirty capabilities and
  five modes listed here. Words that belong together come together (InfiniBand, RoCE and active
  ports with RDMA, passthrough with an IOMMU, each confidential-computing feature with
  \<open>tee_capable\<close>, LACP with bonding, the RDMA mode with the RDMA capability). As no collector ever
  says \<open>public_ipv4\<close> or \<open>secure_boot\<close>, the public view of a build never shows either.
\<close>

theorem serving_vocabulary:
  assumes "BuildServerFacts now sid (buildCollectors getenv d db w) = (Some f, e)"
  shows "set (sf_Capabilities f) \<subseteq> set capability_words \<and> set (sf_NetworkModes f) \<subseteq> set mode_words
    \<and> (\<forall>(x, y)\<in>set implied_words. x \<in> set (sf_Capabilities f) \<longrightarrow> y \<in> set (sf_Capabilities f))
    \<and> (''lacp'' \<in> set (sf_NetworkModes f) \<longrightarrow> ''bonded'' \<in> set (sf_NetworkModes f))
    \<and> (''rdma'' \<in> set (sf_NetworkModes f) \<longrightarrow> ''rdma'' \<in> set (sf_Capabilities f))
    \<and> \<not> pn_PublicIPv4 (ps_Network (PublicView (Some f))) \<and> \<not> pc_SecureBoot (ps_Capabilities (PublicView (Some f)))"
proof -
  have f: "well_spoken f"
    using build_spoken [OF assms] serving_contributions_spoken by blast
  then show ?thesis
    using view_flags_off [OF f] by (auto simp: well_spoken_def speaks_def keeps_together_def list_all_iff)
qed

theorem serving_vocabulary_witness:
  "\<exists>f. BuildServerFacts zero_time ''srv'' (buildCollectors (\<lambda>_. []) sound_driver created_db bare_world) = (Some f, None)
     \<and> set (sf_Capabilities f) \<subseteq> set capability_words"
  using serving_build [of zero_time "''srv''" "\<lambda>_. []" sound_driver created_db bare_world] serving_vocabulary by blast


section \<open>Who owns a key\<close>

text \<open>The keys of the collectors of \<open>buildCollectors\<close>, in their order.\<close>

definition serving_keys :: "string list list" where
  "serving_keys =
     [[], redfish_keys, [], [''pci''], [''rdma''], [''numa''], [''hugepages''], [''iommu''], [''tee''], [''nic_offload''],
      [''net_topology''], [''lldp_neighbors''], [''kernel''], [''dmi''], [''nvme''], [''bmc_sensors''], [''gpu'']]"

definition keeps_to :: "Collector \<Rightarrow> string list \<Rightarrow> bool" where
  "keeps_to c ks \<longleftrightarrow> (\<forall>sid k v. raw_get (reported c sid) k = Some v \<longrightarrow> k \<in> set ks)"

context vocabulary_collector
begin

lemma keeps_keys: "keeps_to (collect cfg w) keys"
  using reported_keys by (simp add: keeps_to_def)

end

lemmas collectors_keep =
  linux_host_words.keeps_keys redfish_words.keeps_keys provisioning_words.keeps_keys pci_words.keeps_keys rdma_words.keeps_keys
  numa_words.keeps_keys hugepages_words.keeps_keys iommu_words.keeps_keys tee_words.keeps_keys nic_offload_words.keeps_keys
  net_topology_words.keeps_keys lldp_words.keeps_keys kernel_words.keeps_keys smbios_words.keeps_keys nvme_words.keeps_keys
  ipmi_words.keeps_keys gpu_words.keeps_keys

lemma serving_keeps: "list_all2 keeps_to (buildCollectors getenv d db w) serving_keys"
  by (simp add: buildCollectors_def Wave2Collectors_def serving_keys_def Let_def collectors_keep)

lemma serving_keys_distinct: "distinct (concat serving_keys)"
  by code_simp

lemma nobodys_key:
  "list_all2 keeps_to cs kss \<Longrightarrow> k \<notin> set (concat kss) \<Longrightarrow> first_set None (map (\<lambda>c. raw_get (reported c sid) k) cs) = None"
proof (induction cs kss rule: list_all2_induct)
  case (Cons c cs ks kss)
  then show ?case
    by (cases "raw_get (reported c sid) k") (auto simp: keeps_to_def)
qed simp

lemma owned_key:
  "list_all2 keeps_to cs kss \<Longrightarrow> distinct (concat kss) \<Longrightarrow> (c, ks) \<in> set (zip cs kss) \<Longrightarrow> k \<in> set ks \<Longrightarrow>
     first_set None (map (\<lambda>c. raw_get (reported c sid) k) cs) = raw_get (reported c sid) k"
proof (induction cs kss rule: list_all2_induct)
  case (Cons c' cs ks' kss)
  from Cons.prems(2) consider "c = c'" "ks = ks'" | "(c, ks) \<in> set (zip cs kss)"
    by auto
  then show ?case
  proof cases
    case 1
    with Cons.prems(1,3) have "k \<notin> set (concat kss)"
      by auto
    with 1 nobodys_key [OF Cons.hyps(2), of k sid] show ?thesis
      by simp
  next
    case 2
    then have "ks \<in> set kss"
      by (rule set_zip_rightD)
    with Cons.prems(1,3) have "k \<notin> set ks'"
      by auto
    then have "raw_get (reported c' sid) k = None"
      using Cons.hyps(1) by (cases "raw_get (reported c' sid) k") (auto simp: keeps_to_def)
    with 2 Cons.IH Cons.prems(1,3) show ?thesis
      by simp
  qed
qed simp

lemma build_raw:
  assumes "BuildServerFacts now sid (buildCollectors getenv d db w) = (Some f, e)"
  shows "raw_get f k = first_set None (map (\<lambda>c. raw_get (reported c sid) k) (buildCollectors getenv d db w))"
proof -
  have "raw_get f k = raw_get (foldl mergeInto (build_start sid) (contributions sid (buildCollectors getenv d db w))) k"
    using build_Some [OF assms] by (simp add: raw_get_def finish_build_keeps)
  then show ?thesis
    by (simp add: raw.foldl_from_zero build_start_zero contributions_answering [OF serving_answers] comp_def)
qed

lemma build_raw_owner:
  assumes "BuildServerFacts now sid (buildCollectors getenv d db w) = (Some f, e)"
    and "(c, ks) \<in> set (zip (buildCollectors getenv d db w) serving_keys)" and "k \<in> set ks"
  shows "raw_get f k = raw_get (reported c sid) k"
  unfolding build_raw [OF assms(1)] by (rule owned_key [OF serving_keeps serving_keys_distinct assms(2,3)])

text \<open>
  C24. Collectors never fight over a key of \<open>Raw\<close>: in the serving pipeline every key belongs to one of
  the seventeen collectors, and after a build it holds what this collector reported, nothing when it
  did not report it, whatever the others say and in whatever order they ran; no other key exists.
\<close>

theorem raw_ownership:
  assumes "BuildServerFacts now sid (buildCollectors getenv d db w) = (Some f, e)"
  shows "(\<forall>(c, ks)\<in>set (zip (buildCollectors getenv d db w) serving_keys). \<forall>k\<in>set ks. raw_get f k = raw_get (reported c sid) k)
    \<and> length (buildCollectors getenv d db w) = length serving_keys
    \<and> (\<forall>k. raw_get f k \<noteq> None \<longrightarrow> k \<in> set (concat serving_keys))"
proof (intro conjI ballI allI impI)
  fix p
  assume m: "p \<in> set (zip (buildCollectors getenv d db w) serving_keys)"
  obtain c ks where p: "p = (c, ks)" by (cases p)
  show "case p of (c, ks) \<Rightarrow> \<forall>k\<in>set ks. raw_get f k = raw_get (reported c sid) k"
    unfolding p prod.case by (intro ballI build_raw_owner [OF assms m [unfolded p]])
next
  show "length (buildCollectors getenv d db w) = length serving_keys"
    using serving_keeps by (rule list_all2_lengthD)
next
  fix k
  assume "raw_get f k \<noteq> None"
  then show "k \<in> set (concat serving_keys)"
    using nobodys_key [OF serving_keeps] build_raw [OF assms] by metis
qed

theorem raw_ownership_witness:
  "\<exists>f. BuildServerFacts zero_time ''srv'' (buildCollectors (\<lambda>_. []) sound_driver created_db bare_world) = (Some f, None)
     \<and> (\<forall>k. raw_get f k \<noteq> None \<longrightarrow> k \<in> set (concat serving_keys))"
  using serving_build [of zero_time "''srv''" "\<lambda>_. []" sound_driver created_db bare_world] raw_ownership by blast

end
