(* ===== verification/Utf8.thy ===== *)
theory Utf8
  imports Facts_Json
begin

text \<open>
  Well-formed UTF-8 through the string functions the collectors use: what is cut out of well-formed
  text at white space or at ASCII separators is well formed, and so is every string JSON decodes.
\<close>

named_theorems utf8_intros \<open>operations whose results are well-formed UTF-8\<close>


section \<open>Where a text can be cut\<close>

text \<open>Only the first byte of an encoding is not a continuation byte.\<close>

lemma utf8_len_cont:
  assumes "0 < i" and "i < utf8_len s"
  shows "cont (s ! i)"
proof -
  have byte: "byte_in 0xA0 0xBF c \<Longrightarrow> cont c" "byte_in 0x80 0x9F c \<Longrightarrow> cont c" "byte_in 0x90 0xBF c \<Longrightarrow> cont c"
    "byte_in 0x80 0x8F c \<Longrightarrow> cont c" for c
    by (auto simp: cont_def byte_in_def)
  have "utf8_len s \<le> 4"
    by (cases s) (auto simp: utf8_len.simps(2) split: list.split)
  obtain a r where s: "s = a # r"
    using assms by (cases s) auto
  have one: "cont b" if "r = b # t" "1 < utf8_len (a # r)" for b t
    using that byte by (auto simp: utf8_len.simps(2) split: list.splits if_splits)
  have two: "cont c" if "r = b # c # t" "2 < utf8_len (a # r)" for b c t
    using that byte by (auto simp: utf8_len.simps(2) split: list.splits if_splits)
  have three: "cont d" if "r = b # c # d # t" "3 < utf8_len (a # r)" for b c d t
    using that byte by (auto simp: utf8_len.simps(2) split: list.splits if_splits)
  have len: "i \<le> length r"
    using assms utf8_len_le [of s] by (simp add: s)
  have "i = 1 \<or> i = 2 \<or> i = 3"
    using assms \<open>utf8_len s \<le> 4\<close> by linarith
  then show ?thesis
  proof (elim disjE)
    assume i: "i = 1"
    with len obtain b t where "r = b # t" by (cases r) auto
    with one i assms(2) show ?thesis by (simp add: s)
  next
    assume i: "i = 2"
    with len obtain b c t where "r = b # c # t" by (auto simp: numeral_2_eq_2 Suc_le_length_iff)
    with two i assms(2) show ?thesis by (simp add: s)
  next
    assume i: "i = 3"
    with len obtain b c d t where "r = b # c # d # t" by (auto simp: numeral_3_eq_3 Suc_le_length_iff)
    with three i assms(2) show ?thesis by (simp add: s numeral_3_eq_3)
  qed
qed

lemma valid_utf8_step: "utf8_len s = n \<Longrightarrow> n \<noteq> 0 \<Longrightarrow> valid_utf8 s = valid_utf8 (drop n s)"
  by (cases "s = []") (simp_all add: valid_utf8.simps [of s])

lemma valid_utf8_cut:
  assumes "\<not> cont c"
  shows "valid_utf8 (s @ c # t) \<longleftrightarrow> valid_utf8 s \<and> valid_utf8 (c # t)"
proof (induction s rule: valid_utf8.induct)
  case (1 s)
  show ?case
  proof (cases "s = []")
    case False
    define n where "n = utf8_len (s @ c # t)"
    have short: "n \<le> length s"
    proof (rule ccontr)
      assume "\<not> n \<le> length s"
      then have "cont ((s @ c # t) ! length s)"
        using False by (intro utf8_len_cont) (simp_all add: n_def)
      with assms show False by simp
    qed
    show ?thesis
    proof (cases "n = 0")
      case True
      then have "\<not> valid_utf8 (s @ c # t)"
        using False by (simp add: valid_utf8.simps [of "s @ c # t"] n_def)
      moreover have "\<not> (valid_utf8 s \<and> valid_utf8 (c # t))"
        using valid_utf8_append calculation by blast
      ultimately show ?thesis by blast
    next
      case n: False
      have "utf8_len (take n (s @ c # t) @ drop n s) = n"
        using n by (intro utf8_len_take) (simp_all add: n_def)
      then have len: "utf8_len s = n"
        using short by simp
      have "valid_utf8 (s @ c # t) = valid_utf8 (drop n s @ c # t)"
        using valid_utf8_step [OF n_def [symmetric] n] short by simp
      also have "\<dots> \<longleftrightarrow> valid_utf8 (drop n s) \<and> valid_utf8 (c # t)"
        using 1 False len n by simp
      also have "valid_utf8 (drop n s) = valid_utf8 s"
        using valid_utf8_step [OF len n] by simp
      finally show ?thesis .
    qed
  qed simp
qed

definition ascii :: "char \<Rightarrow> bool" where
  "ascii c \<longleftrightarrow> byte_in 0 0x7F c"

lemma ascii_not_cont [simp]: "ascii c \<Longrightarrow> \<not> cont c"
  by (simp add: ascii_def cont_def byte_in_def)

lemma valid_utf8_ascii: "ascii c \<Longrightarrow> valid_utf8 (c # s) = valid_utf8 s"
  using valid_utf8_step [of "c # s" 1] by (simp add: ascii_def utf8_len_ascii)

lemma valid_utf8_at: "ascii c \<Longrightarrow> valid_utf8 (s @ c # t) \<longleftrightarrow> valid_utf8 s \<and> valid_utf8 t"
  using valid_utf8_cut [of c s t] by (simp add: valid_utf8_ascii)

lemma valid_utf8_plain: "list_all ascii s \<Longrightarrow> valid_utf8 s"
  by (induction s) (simp_all add: valid_utf8_ascii)

lemma valid_utf8_after: "list_all ascii p \<Longrightarrow> valid_utf8 (p @ s) = valid_utf8 s"
  by (induction p) (simp_all add: valid_utf8_ascii)


section \<open>Separators\<close>

lemma Split_valid: "ascii c \<Longrightarrow> valid_utf8 s \<Longrightarrow> p \<in> set (Split s c) \<Longrightarrow> valid_utf8 p"
proof (induction "length s" arbitrary: s rule: less_induct)
  case less
  show ?case
  proof (cases "c \<in> set s")
    case True
    then obtain u v where s: "s = u @ c # v" "c \<notin> set u"
      by (meson split_list_first)
    then have "valid_utf8 u" "valid_utf8 v"
      using less.prems by (simp_all add: valid_utf8_at)
    with less.hyps [of v] less.prems s show ?thesis
      by (auto simp: Split_append_sep)
  next
    case False
    with less.prems show ?thesis by (simp add: Split_no_sep)
  qed
qed

lemma Cut_valid:
  assumes "Cut s c = (u, v, ok)" and "ascii c" and "valid_utf8 s"
  shows "valid_utf8 u \<and> valid_utf8 v"
proof (cases "c \<in> set s")
  case True
  then obtain a b where s: "s = a @ c # b" "c \<notin> set a"
    by (meson split_list_first)
  with assms show ?thesis
    by (simp add: Cut_found valid_utf8_at)
next
  case False
  with assms show ?thesis by (simp add: Cut_missing)
qed

lemma take_index_valid:
  assumes "IndexByte s c = Some i" and "ascii c" and "valid_utf8 s"
  shows "valid_utf8 (take i s)"
proof -
  have "i < length s \<and> s ! i = c"
    using assms(1) by (induction s arbitrary: i) (auto split: if_splits)
  then have "s = take i s @ c # drop (Suc i) s"
    by (metis id_take_nth_drop)
  with assms(2,3) show ?thesis
    by (metis valid_utf8_at)
qed

lemma TrimRightByte_valid: "ascii c \<Longrightarrow> valid_utf8 s \<Longrightarrow> valid_utf8 (TrimRightByte s c)"
proof (induction s rule: rev_induct)
  case (snoc x s)
  then show ?case
    using valid_utf8_at [of c s "[]"] by (auto simp: TrimRightByte_def)
qed (simp add: TrimRightByte_def)

lemma FilepathBase_valid: "valid_utf8 s \<Longrightarrow> valid_utf8 (FilepathBase s)"
proof -
  assume s: "valid_utf8 s"
  have slash: "ascii (CHR ''/'')"
    by code_simp
  have "last (Split q (CHR ''/'')) \<in> set (Split q (CHR ''/''))" for q
    by (rule last_in_set) simp
  then have "valid_utf8 (last (Split (TrimRightByte s (CHR ''/'')) (CHR ''/'')))"
    using Split_valid [OF slash TrimRightByte_valid [OF slash s]] by blast
  moreover have "valid_utf8 ''.''" "valid_utf8 ''/''"
    by code_simp+
  ultimately show "valid_utf8 (FilepathBase s)"
    by (simp add: FilepathBase_def Let_def)
qed


section \<open>White space\<close>

text \<open>A white space character starts with no continuation byte and is one whole encoding.\<close>

definition whole_space :: "string \<Rightarrow> bool" where
  "whole_space w \<longleftrightarrow> w \<noteq> [] \<and> \<not> cont (hd w) \<and> utf8_len w = length w"

lemma wide_spaces_whole: "list_all whole_space wide_spaces"
  by code_simp

lemma ascii_space_ascii: "ascii_space c \<Longrightarrow> ascii c"
  by (auto simp: ascii_space_def ascii_def byte_in_def)

lemma lead_space_cases:
  assumes "lead_space ws s \<noteq> 0"
  obtains c t where "s = c # t" "ascii_space c" "lead_space ws s = 1"
  | w t where "w \<in> set ws" "s = w @ t" "lead_space ws s = length w"
proof (cases s)
  case (Cons c t)
  show thesis
  proof (cases "ascii_space c")
    case False
    with assms Cons obtain w where w: "find (HasPrefix s) ws = Some w" "lead_space ws s = length w"
      by (auto split: option.splits)
    then have "w \<in> set ws" "HasPrefix s w"
      by (auto simp: find_Some_iff)
    with w that(2) show thesis
      by (auto simp: HasPrefix_iff)
  qed (use Cons that(1) in simp)
qed (use assms in simp)

lemma trim_lead_valid: "valid_utf8 s \<Longrightarrow> valid_utf8 (trim_lead wide_spaces s)"
proof (induction s rule: measure_induct_rule [where f = length])
  case (less s)
  show ?case
  proof (cases "s = [] \<or> lead_space wide_spaces s = 0")
    case True
    then have "trim_lead wide_spaces s = s"
      by (subst trim_lead.simps) (simp del: lead_space.simps)
    with less.prems show ?thesis by simp
  next
    case False
    then have step: "trim_lead wide_spaces s = trim_lead wide_spaces (drop (lead_space wide_spaces s) s)"
      by (subst trim_lead.simps) (simp del: lead_space.simps)
    have "lead_space wide_spaces s \<noteq> 0"
      using False by blast
    then have "valid_utf8 (drop (lead_space wide_spaces s) s)"
    proof (cases rule: lead_space_cases)
      case (1 c t)
      with less.prems show ?thesis
        using valid_utf8_ascii [of c t] ascii_space_ascii [of c] by (simp del: lead_space.simps)
    next
      case (2 w t)
      have w: "whole_space w"
        using wide_spaces_whole 2(1) by (simp add: list_all_iff)
      then have "utf8_len (take (length w) w @ t) = length w"
        by (intro utf8_len_take) (simp_all add: whole_space_def)
      with 2 w less.prems show ?thesis
        using valid_utf8_step [of s "length w"] by (simp add: whole_space_def del: lead_space.simps)
    qed
    with step less.IH [of "drop (lead_space wide_spaces s) s"] False show ?thesis
      by (simp del: lead_space.simps)
  qed
qed

lemma trim_tail_valid: "valid_utf8 (rev s) \<Longrightarrow> valid_utf8 (rev (trim_lead (map rev wide_spaces) s))"
proof (induction s rule: measure_induct_rule [where f = length])
  case (less s)
  let ?ws = "map rev wide_spaces"
  show ?case
  proof (cases "s = [] \<or> lead_space ?ws s = 0")
    case True
    then have "trim_lead ?ws s = s"
      by (subst trim_lead.simps) (simp del: lead_space.simps)
    with less.prems show ?thesis by simp
  next
    case False
    then have step: "trim_lead ?ws s = trim_lead ?ws (drop (lead_space ?ws s) s)"
      by (subst trim_lead.simps) (simp del: lead_space.simps)
    have "lead_space ?ws s \<noteq> 0"
      using False by blast
    then have "valid_utf8 (rev (drop (lead_space ?ws s) s))"
    proof (cases rule: lead_space_cases)
      case (1 c t)
      then show ?thesis
        using less.prems valid_utf8_at [of c "rev t" "[]"] ascii_space_ascii [of c] by (simp del: lead_space.simps)
    next
      case (2 w t)
      obtain v where v: "w = rev v" "v \<in> set wide_spaces"
        using 2(1) by auto
      then obtain c u where "v = c # u" "\<not> cont c"
        using wide_spaces_whole by (cases v) (auto simp: list_all_iff whole_space_def)
      with 2 v less.prems valid_utf8_cut [of c "rev t" u] show ?thesis
        by (simp del: lead_space.simps)
    qed
    with step less.IH [of "drop (lead_space ?ws s) s"] False show ?thesis
      by (simp del: lead_space.simps)
  qed
qed

lemma TrimSpace_valid [utf8_intros]: "valid_utf8 s \<Longrightarrow> valid_utf8 (TrimSpace s)"
  using trim_tail_valid [of "rev (trim_lead wide_spaces s)"] trim_lead_valid [of s] by (simp add: TrimSpace_def)


section \<open>Letter case\<close>

lemma lower_char_cases: "lower_char c = c \<or> ascii c \<and> ascii (lower_char c)"
proof (cases "c \<in> set upper_letters")
  case True
  have "list_all (\<lambda>c. ascii c \<and> ascii (lower_char c)) upper_letters"
    by code_simp
  with True show ?thesis by (simp add: list_all_iff)
next
  case False
  then have "map_of (zip upper_letters lower_letters) c = None"
    by (auto simp: map_of_eq_None_iff dest: set_zip_leftD)
  then show ?thesis by (simp add: lower_char_def)
qed

lemma ToLower_valid [utf8_intros]: "valid_utf8 s \<Longrightarrow> valid_utf8 (ToLower s)"
proof (induction s rule: valid_utf8.induct)
  case (1 s)
  show ?case
  proof (cases s)
    case (Cons c t)
    show ?thesis
    proof (cases "ascii c")
      case True
      then have len: "utf8_len s = 1"
        by (simp add: Cons ascii_def utf8_len_ascii)
      have "valid_utf8 t"
        using 1(2) True by (simp add: Cons valid_utf8_ascii)
      then have "valid_utf8 (ToLower t)"
        using 1(1) len by (simp add: Cons)
      then show ?thesis
        using True lower_char_cases [of c] by (auto simp: Cons ToLower_def valid_utf8_ascii)
    next
      case False
      define n where "n = utf8_len s"
      have n: "n \<noteq> 0"
        using 1(2) valid_utf8.simps [of s] by (cases "n = 0") (simp_all add: n_def Cons)
      have wide: "\<not> ascii x \<and> lower_char x = x" if "x \<in> set (take n s)" for x
      proof -
        obtain i where i: "i < n" "x = s ! i"
          using \<open>x \<in> set (take n s)\<close> by (auto simp: in_set_conv_nth)
        have "\<not> ascii x"
          using i False utf8_len_cont [of i s] ascii_not_cont [of x] by (cases "i = 0") (auto simp: Cons n_def)
        then show ?thesis
          using lower_char_cases [of x] by auto
      qed
      then have same: "map lower_char (take n s) = take n s"
        by (simp add: map_idI)
      have "map lower_char s = take n s @ map lower_char (drop n s)"
        using same by (metis append_take_drop_id map_append)
      moreover have "utf8_len (take n s @ map lower_char (drop n s)) = n"
        using n by (intro utf8_len_take) (simp_all add: n_def)
      moreover have "valid_utf8 (map lower_char (drop n s))"
        using 1 n by (simp add: Cons n_def ToLower_def valid_utf8.simps [of "c # t"])
      moreover have "length (take n s) = n"
        using utf8_len_le [of s] by (simp add: n_def)
      ultimately show ?thesis
        using valid_utf8_step [of "map lower_char s" n] n by (simp add: ToLower_def)
    qed
  qed (simp add: ToLower_def)
qed


section \<open>Strings of a JSON document\<close>

lemma byte_of_val: "0 \<le> n \<Longrightarrow> n < 256 \<Longrightarrow> (of_char (byte_of n) :: int) = n"
  by (simp add: byte_of_def)

lemma byte_in_of: "0 \<le> n \<Longrightarrow> n < 256 \<Longrightarrow> byte_in lo hi (byte_of n) \<longleftrightarrow> lo \<le> n \<and> n \<le> hi"
  by (simp add: byte_in_def byte_of_val)

lemma whole_valid: "utf8_len s = length s \<Longrightarrow> valid_utf8 s"
  by (cases "s = []") (simp_all add: valid_utf8.simps [of s])

lemma encode2_valid:
  assumes "0xC2 \<le> a" and "a \<le> 0xDF" and "0x80 \<le> b" and "b \<le> 0xBF"
  shows "valid_utf8 [byte_of a, byte_of b]"
  using assms by (intro whole_valid) (simp add: utf8_len.simps(2) byte_in_of cont_def)

lemma encode3_valid:
  assumes "0xE0 \<le> a" and "a \<le> 0xEF" and "0x80 \<le> b" and "b \<le> 0xBF" and "0x80 \<le> c" and "c \<le> 0xBF"
    and "a = 0xE0 \<Longrightarrow> 0xA0 \<le> b" and "a = 0xED \<Longrightarrow> b \<le> 0x9F"
  shows "valid_utf8 [byte_of a, byte_of b, byte_of c]"
proof -
  have "a = 0xE0 \<or> a = 0xED \<or> 0xE1 \<le> a \<and> a \<le> 0xEC \<or> 0xEE \<le> a"
    using assms by linarith
  with assms show ?thesis
    by (intro whole_valid) (elim disjE; simp add: utf8_len.simps(2) byte_in_of cont_def)
qed

lemma encode4_valid:
  assumes "0xF0 \<le> a" and "a \<le> 0xF4" and "0x80 \<le> b" and "b \<le> 0xBF" and "0x80 \<le> c" and "c \<le> 0xBF"
    and "0x80 \<le> d" and "d \<le> 0xBF" and "a = 0xF0 \<Longrightarrow> 0x90 \<le> b" and "a = 0xF4 \<Longrightarrow> b \<le> 0x8F"
  shows "valid_utf8 [byte_of a, byte_of b, byte_of c, byte_of d]"
proof -
  have "a = 0xF0 \<or> a = 0xF4 \<or> 0xF1 \<le> a \<and> a \<le> 0xF3"
    using assms by linarith
  with assms show ?thesis
    by (intro whole_valid) (elim disjE; simp add: utf8_len.simps(2) byte_in_of cont_def)
qed

lemma rune_error_valid: "valid_utf8 rune_error"
  by code_simp

lemma utf8_encode_valid:
  assumes "0 \<le> r" and "r < 0x110000"
  shows "valid_utf8 (utf8_encode r)"
proof -
  have tails: "0x80 \<le> 0x80 + k mod 64" "0x80 + k mod 64 \<le> 0xBF" for k :: int
    using pos_mod_bound [of 64 k] pos_mod_sign [of 64 k] by auto
  consider "r < 0x80" | "0x80 \<le> r" "r < 0x800" | "0xD800 \<le> r" "r < 0xE000"
    | "0x800 \<le> r" "r < 0x10000" "\<not> (0xD800 \<le> r \<and> r < 0xE000)" | "0x10000 \<le> r"
    by linarith
  then show ?thesis
  proof cases
    case 1
    then show ?thesis
      using assms by (simp add: utf8_encode_def valid_utf8_ascii ascii_def byte_in_of)
  next
    case 2
    then show ?thesis
      using tails [of r] by (simp add: utf8_encode_def encode2_valid)
  next
    case 3
    then show ?thesis
      by (simp add: utf8_encode_def rune_error_valid)
  next
    case 4
    define a where "a = r div 64"
    have a: "r div 4096 = a div 64" "a = a div 64 * 64 + a mod 64"
      by (simp add: a_def zdiv_zmult2_eq [symmetric], rule div_mult_mod_eq [symmetric])
    have "32 \<le> a" "a < 1024"
      using 4(1,2) by (simp_all add: a_def)
    moreover have "a < 864 \<or> 896 \<le> a"
    proof (cases "r < 0xD800")
      case True
      then have "a < 864" by (simp add: a_def)
      then show ?thesis ..
    next
      case False
      with 4(3) have "896 \<le> a" by (simp add: a_def)
      then show ?thesis ..
    qed
    moreover have "0 \<le> a mod 64" "a mod 64 < 64"
      by simp_all
    ultimately have low: "0xE0 + r div 4096 = 0xE0 \<Longrightarrow> 0xA0 \<le> 0x80 + r div 64 mod 64"
      and surr: "0xE0 + r div 4096 = 0xED \<Longrightarrow> 0x80 + r div 64 mod 64 \<le> 0x9F"
      and top: "0xE0 \<le> 0xE0 + r div 4096" "0xE0 + r div 4096 \<le> 0xEF"
      unfolding a(1) a_def [symmetric] using a(2) by linarith+
    have "valid_utf8 [byte_of (0xE0 + r div 4096), byte_of (0x80 + r div 64 mod 64), byte_of (0x80 + r mod 64)]"
      by (rule encode3_valid [OF top tails tails low surr])
    moreover have "\<not> r < 0x80" "\<not> r < 0x800"
      using 4 by simp_all
    ultimately show ?thesis
      unfolding utf8_encode_def using 4(2,3) by (simp only: if_False if_True)
  next
    case 5
    define a where "a = r div 4096"
    have a: "r div 262144 = a div 64" "a = a div 64 * 64 + a mod 64"
      by (simp add: a_def zdiv_zmult2_eq [symmetric], rule div_mult_mod_eq [symmetric])
    have "16 \<le> a" "a < 272"
      using 5 assms by (simp_all add: a_def)
    moreover have "0 \<le> a mod 64" "a mod 64 < 64"
      by simp_all
    ultimately have low: "0xF0 + r div 262144 = 0xF0 \<Longrightarrow> 0x90 \<le> 0x80 + r div 4096 mod 64"
      and high: "0xF0 + r div 262144 = 0xF4 \<Longrightarrow> 0x80 + r div 4096 mod 64 \<le> 0x8F"
      and top: "0xF0 \<le> 0xF0 + r div 262144" "0xF0 + r div 262144 \<le> 0xF4"
      unfolding a(1) a_def [symmetric] using a(2) by linarith+
    have "valid_utf8 [byte_of (0xF0 + r div 262144), byte_of (0x80 + r div 4096 mod 64),
         byte_of (0x80 + r div 64 mod 64), byte_of (0x80 + r mod 64)]"
      by (rule encode4_valid [OF top tails tails tails low high])
    with 5 show ?thesis by (simp add: utf8_encode_def)
  qed
qed

lemma hex_val_range: "hex_val c = Some n \<Longrightarrow> 0 \<le> n \<and> n < 16"
proof -
  have "IndexByte s d = Some i \<Longrightarrow> i < length s" for s d i
    by (induction s arbitrary: i) (auto split: if_splits)
  moreover have "length hex_digits = 16"
    by (simp add: hex_digits_def)
  ultimately have "IndexByte hex_digits d = Some i \<Longrightarrow> i < 16" for d i
    by metis
  then show "hex_val c = Some n \<Longrightarrow> 0 \<le> n \<and> n < 16"
    by (auto simp: hex_val_def)
qed

lemma hex4_range:
  assumes "hex4 s = Some n"
  shows "0 \<le> n \<and> n < 0x10000"
proof -
  obtain a b c d w x y z t where "s = a # b # c # d # t"
    and h: "hex_val a = Some w" "hex_val b = Some x" "hex_val c = Some y" "hex_val d = Some z"
    and n: "n = ((w * 16 + x) * 16 + y) * 16 + z"
    using assms by (auto simp: hex4_def split: list.splits option.splits)
  then show ?thesis
    using h [THEN hex_val_range] by auto
qed

lemma u_unescape_valid:
  assumes "u_unescape s = Some (bs, n)"
  shows "valid_utf8 bs"
proof -
  obtain hi where hi: "hex4 s = Some hi"
    using assms by (auto simp: u_unescape_def split: option.splits)
  have whole: "valid_utf8 (utf8_encode hi)"
    using hex4_range [OF hi] by (intro utf8_encode_valid) auto
  show ?thesis
  proof (cases "0xD800 \<le> hi \<and> hi < 0xDC00 \<and> take 2 (drop 4 s) = [CHR 0x5C, CHR ''u'']")
    case True
    show ?thesis
    proof (cases "hex4 (drop 6 s)")
      case (Some lo)
      have "valid_utf8 (utf8_encode ((hi - 0xD800) * 1024 + (lo - 0xDC00) + 0x10000))" if "0xDC00 \<le> lo \<and> lo < 0xE000"
        using True that by (intro utf8_encode_valid) auto
      with assms hi True Some show ?thesis
        using rune_error_valid by (auto simp: u_unescape_def split: if_splits)
    qed (use assms hi True rune_error_valid in \<open>auto simp: u_unescape_def\<close>)
  next
    case False
    then have "u_unescape s = Some (utf8_encode hi, 4)"
      unfolding u_unescape_def hi by (simp only: option.case if_False)
    with assms whole show ?thesis by simp
  qed
qed

lemma simple_escape_ascii: "simple_escape e = Some b \<Longrightarrow> ascii b"
  by (auto simp: simple_escape_def ascii_def byte_in_def split: if_splits)

lemma whole_append_valid: "utf8_len s = n \<Longrightarrow> n \<noteq> 0 \<Longrightarrow> valid_utf8 t \<Longrightarrow> valid_utf8 (take n s @ t)"
  using valid_utf8_step [of "take n s @ t" n] utf8_len_take [of s n t] utf8_len_le [of s] by simp

lemma unquote_valid: "unquote r = Some s \<Longrightarrow> valid_utf8 s"
proof (induction r arbitrary: s rule: unquote.induct)
  case (2 c r)
  consider (unicode) t where "c = CHR 0x5C" "r = CHR ''u'' # t"
    | (escape) e t where "c = CHR 0x5C" "r = e # t" "e \<noteq> CHR ''u''"
    | (broken) "c \<noteq> CHR 0x5C" "utf8_len (c # r) = 0"
    | (whole) "c \<noteq> CHR 0x5C" "utf8_len (c # r) \<noteq> 0"
    using "2.prems" by (cases r) (auto simp: unquote.simps(2) split: if_splits)
  then show ?case
  proof cases
    case (unicode t)
    then obtain bs n v where "u_unescape t = Some (bs, n)" "unquote (drop n t) = Some v" "s = bs @ v"
      using "2.prems" by (auto simp: unquote.simps(2) split: option.splits)
    with "2.IH"(1) unicode show ?thesis
      using u_unescape_valid valid_utf8_append by metis
  next
    case (escape e t)
    then obtain b v where "simple_escape e = Some b" "unquote t = Some v" "s = b # v"
      using "2.prems" by (auto simp: unquote.simps(2) split: option.splits)
    with "2.IH"(2) escape show ?thesis
      using simple_escape_ascii by (metis valid_utf8_ascii)
  next
    case broken
    then obtain v where v: "unquote r = Some v" "s = rune_error @ v" "\<not> (c = CHR 0x22 \<or> byte_in 0 0x1F c)"
      using "2.prems" by (auto simp: unquote.simps(2) split: if_splits)
    then have "valid_utf8 v"
      using "2.IH"(3) broken by metis
    with v(2) show ?thesis
      using rune_error_valid valid_utf8_append by simp
  next
    case whole
    define n where "n = utf8_len (c # r)"
    obtain v where v: "unquote (drop n (c # r)) = Some v" "s = take n (c # r) @ v" "\<not> (c = CHR 0x22 \<or> byte_in 0 0x1F c)"
      using "2.prems" whole by (auto simp: unquote.simps(2) n_def [symmetric] Let_def simp del: take_Cons' drop_Cons' split: if_splits)
    then have "valid_utf8 v"
      using "2.IH"(4) whole n_def by metis
    with v(2) whole show ?thesis
      using whole_append_valid [of "c # r" n v] by (simp add: n_def)
  qed
qed simp

lemma dec_string_valid: "dec_string v = Some s \<Longrightarrow> valid_utf8 s"
  using unquote_valid by (auto simp: dec_string_def split: json.splits)

text \<open>A field of a struct is what its decoder makes of some member, or its zero value.\<close>

lemma foldl_holds:
  assumes "foldl step acc xs = Some x" and "\<And>a. acc = Some a \<Longrightarrow> P a"
    and "\<And>acc y b. step acc y = Some b \<Longrightarrow> (\<And>a. acc = Some a \<Longrightarrow> P a) \<Longrightarrow> P b"
  shows "P x"
  using assms(1,2)
proof (induction xs arbitrary: acc)
  case (Cons y ys)
  show ?case
    by (rule Cons.IH [of "step acc y"]) (use Cons.prems assms(3) in auto)
qed simp

lemma field_holds:
  assumes "field name dec z kvs = Some x" and "P z" and "\<And>v y. dec v = Some y \<Longrightarrow> P y"
  shows "P x"
proof (rule foldl_holds [OF assms(1) [unfolded field_def]])
  show "P b" if "field_step dec name acc y = Some b" and "\<And>a. acc = Some a \<Longrightarrow> P a" for acc y b
    using that assms(3) by (auto simp: field_step_def split: prod.splits if_splits option.splits)
qed (use assms(2) in simp)

lemma field_string_valid: "field name dec_string [] kvs = Some s \<Longrightarrow> valid_utf8 s"
  by (erule field_holds) (simp_all add: dec_string_valid)

lemma dec_slice_holds:
  assumes "dec_slice dec v = Some xs" and "\<And>v y. dec v = Some y \<Longrightarrow> P y"
  shows "list_all P xs"
proof -
  have "dec_all dec vs = Some xs \<Longrightarrow> list_all P xs" for vs
    by (induction vs arbitrary: xs) (auto split: option.splits intro: assms(2))
  with assms(1) show ?thesis
    by (auto simp: dec_slice_def split: option.splits)
qed

lemma dec_entries_keys:
  "dec_entries dec kvs m = Some r \<Longrightarrow> list_all (\<lambda>kv. valid_utf8 (fst kv)) m \<Longrightarrow> list_all (\<lambda>kv. valid_utf8 (fst kv)) r"
proof (induction kvs arbitrary: m)
  case (Cons kv kvs)
  then obtain k v s x where kv: "kv = (k, v)" "unquote k = Some s" "dec v = Some x" "dec_entries dec kvs (AList.update s x m) = Some r"
    by (cases kv) (auto split: option.splits)
  have "fst ` set (AList.update s x m) = insert s (fst ` set m)"
    by (simp add: dom_update [unfolded dom_map_of_conv_image_fst])
  then have "list_all (\<lambda>kv. valid_utf8 (fst kv)) (AList.update s x m)"
    using Cons.prems(2) unquote_valid [OF kv(2)] unfolding list_all_iff by (metis image_eqI imageE insertE)
  then show ?case
    by (rule Cons.IH [OF kv(4)])
qed simp

end
