(* ===== verification/Soundness.thy ===== *)
theory Soundness
  imports Vocabulary Utf8
begin

text \<open>
  What the collectors report is well formed whatever the machine shows them: every string is UTF-8,
  every number fits, every document under \<open>Raw\<close> can be written. The contract is a locale that extends
  the one all collectors share.
\<close>


section \<open>Well-formed facts, step by step\<close>

lemma new_facts_ok: "valid_time (w_now w) \<Longrightarrow> valid_utf8 sid \<Longrightarrow> valid_utf8 l \<Longrightarrow> facts_ok (new_facts w sid l)"
  by (simp add: new_facts_def facts_ok_def zero_defs cpu_ok_def in_int64_def raw_ok_def)

lemma zero_facts_ok: "valid_utf8 sid \<Longrightarrow> valid_utf8 l \<Longrightarrow> facts_ok (zero_facts\<lparr>sf_ServerID := sid, sf_Source := l\<rparr>)"
  by (simp add: facts_ok_def zero_defs cpu_ok_def in_int64_def valid_zero_time)

lemma raw_ok_update: "raw_ok m \<Longrightarrow> valid_utf8 k \<Longrightarrow> json_ok v \<Longrightarrow> raw_ok (AList.update k v m)"
proof (induction m)
  case (Cons kv m)
  have keys: "fst ` set (AList.update k v m) = insert k (fst ` set m)"
    using dom_update [of k v m] by simp
  from Cons show ?case
    by (auto simp: raw_ok_def keys)
qed (simp add: raw_ok_def)

lemma set_raw_ok: "facts_ok f \<Longrightarrow> valid_utf8 k \<Longrightarrow> json_ok v \<Longrightarrow> facts_ok (set_raw k v f)"
  using raw_ok_update [of "[]" k v] by (auto simp: facts_ok_def set_raw_def raw_ok_update raw_ok_Nil split: option.splits)

lemma field_updates_ok:
  "facts_ok f \<Longrightarrow> list_all valid_utf8 cs \<Longrightarrow> facts_ok (f\<lparr>sf_Capabilities := cs\<rparr>)"
  "facts_ok f \<Longrightarrow> list_all valid_utf8 cs \<Longrightarrow> facts_ok (f\<lparr>sf_NetworkModes := cs\<rparr>)"
  "facts_ok f \<Longrightarrow> valid_utf8 s \<Longrightarrow> facts_ok (f\<lparr>sf_PowerState := s\<rparr>)"
  "facts_ok f \<Longrightarrow> valid_utf8 s \<Longrightarrow> facts_ok (f\<lparr>sf_FailureDomain := s\<rparr>)"
  "facts_ok f \<Longrightarrow> cpu_ok c \<Longrightarrow> facts_ok (f\<lparr>sf_CPU := c\<rparr>)"
  "facts_ok f \<Longrightarrow> list_all disk_ok ds \<Longrightarrow> facts_ok (f\<lparr>sf_Disks := ds\<rparr>)"
  "facts_ok f \<Longrightarrow> list_all nic_ok ns \<Longrightarrow> facts_ok (f\<lparr>sf_NICs := ns\<rparr>)"
  by (simp_all add: facts_ok_def)

lemmas facts_ok_steps = new_facts_ok zero_facts_ok set_raw_ok field_updates_ok

text \<open>A map is written with its keys quoted; optional members are written or not.\<close>

lemma json_ok_map: "list_all (\<lambda>kv. json_ok (snd kv)) m \<Longrightarrow> json_ok (raw_json m)"
  by (auto simp: raw_json_def list_all_iff str_ok_quote)

lemma list_all_unless_empty [simp]: "list_all P (unless_empty b k v) \<longleftrightarrow> b \<or> P (k, v)"
  by (simp add: unless_empty_def)

lemma json_ok_all: "(\<And>x. json_ok (enc x)) \<Longrightarrow> list_all json_ok (map enc xs)"
  by (simp add: list_all_iff)

lemma entries_ok: "(\<And>v. json_ok (enc v)) \<Longrightarrow> list_all (\<lambda>kv. json_ok (snd kv)) (map (\<lambda>(k, v). (k, enc v)) m)"
  by (auto simp: list_all_iff)

lemma json_ok_named: "(\<And>v. json_ok (enc v)) \<Longrightarrow> json_ok (raw_json (map (\<lambda>(k, v). (k, enc v)) m))"
  by (rule json_ok_map) (rule entries_ok)


section \<open>The contract\<close>

text \<open>What a collector relies on beside a clock that shows a date; its facts are then well formed.\<close>

locale sound_collector = fact_collector collect labels
  for collect :: "'cfg \<Rightarrow> world \<Rightarrow> Collector" and labels :: "string list" +
  fixes relies :: "'cfg \<Rightarrow> world \<Rightarrow> bool"
  assumes sound: "relies cfg w \<Longrightarrow> valid_time (w_now w) \<Longrightarrow> valid_utf8 sid \<Longrightarrow> collect cfg w sid = (Some f, e) \<Longrightarrow> facts_ok f"
begin

lemma reported_ok:
  assumes "relies cfg w" and "valid_time (w_now w)" and "valid_utf8 sid"
  shows "facts_ok (reported (collect cfg w) sid)"
proof -
  obtain f e where f: "collect cfg w sid = (Some f, e)"
    using reports [of cfg w sid] by blast
  with sound [OF assms f] show ?thesis
    by (simp add: reported_def)
qed

end


section \<open>Collectors whose strings are their own\<close>

text \<open>
  Most collectors put what they read below \<open>Raw\<close>, where every string can be written, and claim
  capabilities from a fixed vocabulary.
\<close>

abbreviation always :: "config \<Rightarrow> world \<Rightarrow> bool" where
  "always cfg w \<equiv> True"

lemma labels_valid:
  "list_all valid_utf8 (''linux_host'' # ''provisioning_store'' # ''redfish'' # ''redfish_demo'' # wave2_labels)"
  by code_simp

lemmas label_facts = labels_valid [unfolded wave2_labels_def list.pred_inject]

lemma words_valid:
  "list_all valid_utf8
     [''pci'', ''pcie_gen4'', ''pcie_gen5'', ''gpu_accelerator'', ''sriov'', ''rdma'', ''infiniband'', ''roce'', ''rdma_active'',
      ''numa'', ''multi_numa'', ''hugepages'', ''hugepages_1g'', ''iommu'', ''iommu_passthrough'', ''tee'', ''sev'', ''sev_es'',
      ''sev_snp'', ''tdx'', ''sgx'', ''tee_capable'', ''nic_offload'', ''ptp_hardware_clock'', ''net_topology'', ''bonded'',
      ''lacp'', ''vlan_tagged'', ''bridged'', ''lldp_neighbors'', ''kernel'', ''vfio'', ''dmi'', ''nvme'', ''bmc_sensors'',
      ''gpu'', ''nvidia_gpu'', ''gpu_cuda'', ''bluefield_dpu'', ''doca'', ''gpudirect_rdma'', ''on'', ''hdd'', ''ssd'']"
  by code_simp

lemmas word_facts = words_valid [unfolded list.pred_inject]

lemma names_plain:
  "list_all str_ok
     [''address'', ''class_name'', ''class_id'', ''vendor_name'', ''vendor_id'', ''device_name'', ''device_id'', ''revision'',
      ''current_link_gts'', ''max_link_gts'', ''current_link_width'', ''max_link_width'', ''sriov_total_vfs'', ''sriov_num_vfs'',
      ''device'', ''port'', ''state'', ''physical_state'', ''netdev'', ''link_layer'', ''transport'', ''firmware_version'',
      ''id'', ''cpus'', ''size_mb'', ''free_mb'', ''nodes'', ''distances'', ''size_kb'', ''nr'', ''free'',
      ''driver'', ''rings_max'', ''rings_current'', ''channels_max'', ''channels_current'', ''timestamp_caps'', ''phc_index'',
      ''name'', ''mii_status'', ''speed_mbps'', ''mode'', ''hash_policy'', ''lacp_active'', ''lacp_rate'', ''slaves'',
      ''local_port'', ''chassis_name'', ''chassis_descr'', ''mgmt_ip'', ''port_id'', ''port_descr'',
      ''device_path'', ''model'', ''firmware'', ''serial'', ''size_gb'', ''kind'', ''driver_version'', ''memory_total'',
      ''temps_c'', ''fans_rpm'', ''power_watts'', ''sensor_count'', ''not_ok'']"
  by code_simp

lemmas name_facts = names_plain [unfolded list.pred_inject]

lemma component_json_ok [simp]:
  "json_ok (rdma_json d)" "json_ok (node_json n)" "json_ok (topology_json t)" "json_ok (size_json s)" "json_ok (offload_json o')"
  "json_ok (slave_json sl)" "json_ok (bond_json b)" "json_ok (neighbor_json nb)" "json_ok (nvme_json nv)" "json_ok (gpu_json g)"
  "json_ok (smi_json sm)"
proof -
  show slave: "json_ok (slave_json s)" for s
    using name_facts by (simp add: slave_json_def)
  show node: "json_ok (node_json n)" for n
    using name_facts by (simp add: node_json_def)
  show "json_ok (topology_json t)"
    using name_facts node by (simp add: topology_json_def json_ok_slice json_ok_all)
  show "json_ok (bond_json b)"
    using name_facts slave by (simp add: bond_json_def json_ok_all)
  show "json_ok (offload_json o')"
    using name_facts by (simp add: offload_json_def json_ok_named json_ok_all)
qed (use name_facts in \<open>simp_all add: rdma_json_def size_json_def neighbor_json_def nvme_json_def gpu_json_def smi_json_def\<close>)

lemma spoken_valid:
  assumes "speaks caps modes"
  shows "list_all valid_utf8 caps" "list_all valid_utf8 modes"
proof -
  have "list_all valid_utf8 capability_words" "list_all valid_utf8 mode_words"
    by code_simp+
  with assms show "list_all valid_utf8 caps" "list_all valid_utf8 modes"
    unfolding speaks_def list_all_iff by blast+
qed

lemmas list_caps_valid =
  speaks_lists(1-3,5) [THEN spoken_valid(1)] speaks_lists(4) [THEN spoken_valid(2)]

lemma size_caps_valid: "list_all valid_utf8 cs \<Longrightarrow> list_all valid_utf8 (foldl (size_caps tot) cs sizes)"
  using word_facts by (induction sizes arbitrary: cs) (simp_all add: size_caps_def Let_def)

lemma dedupe_valid: "list_all P xs \<Longrightarrow> list_all P (dedupeStrings xs)"
  using add_unseen_set [of "[]" "[]" xs] by (auto simp: dedupeStrings_def list_all_iff)

interpretation rdma_sound: sound_collector rdma_collect "[''linux_rdma'']" always
  by unfold_locales
    (auto simp: rdma_collect_def Let_def label_facts word_facts list_caps_valid json_ok_all
      intro!: facts_ok_steps split: option.splits sum.splits if_splits)

interpretation numa_sound: sound_collector numa_collect "[''linux_numa'']" always
  by unfold_locales
    (auto simp: numa_collect_def Let_def label_facts word_facts intro!: facts_ok_steps split: option.splits)

interpretation hugepages_sound: sound_collector hugepages_collect "[''linux_hugepages'']" always
  by unfold_locales
    (auto simp: hugepages_collect_def Let_def label_facts word_facts size_caps_valid entries_ok json_ok_all
      intro!: facts_ok_steps dedupe_valid json_ok_map split: if_splits)

interpretation iommu_sound: sound_collector iommu_collect "[''linux_iommu'']" always
  by unfold_locales
    (auto simp: iommu_collect_def Let_def label_facts word_facts json_ok_all
      intro!: facts_ok_steps json_ok_map split: prod.splits if_splits)

interpretation tee_sound: sound_collector tee_collect "[''linux_tee'']" always
  by unfold_locales
    (auto simp: tee_collect_def Let_def label_facts word_facts list_caps_valid json_ok_all json_ok_named json_ok_slice
      intro!: facts_ok_steps json_ok_map split: if_splits)

interpretation nic_offload_sound: sound_collector nic_offload_collect "[''linux_nic_offload'']" always
  by unfold_locales
    (auto simp: nic_offload_collect_def Let_def label_facts word_facts json_ok_named
      intro!: facts_ok_steps split: option.splits sum.splits prod.splits if_splits)

interpretation net_topology_sound: sound_collector net_topology_collect "[''linux_net_topology'']" always
  by unfold_locales
    (auto simp: net_topology_collect_def Let_def label_facts word_facts list_caps_valid json_ok_all
      intro!: facts_ok_steps json_ok_map split: option.splits sum.splits if_splits)

interpretation kernel_sound: sound_collector kernel_collect "[''linux_kernel'']" always
  by unfold_locales
    (auto simp: kernel_collect_def opt_entry_def Let_def label_facts word_facts json_ok_all json_ok_named
      intro!: facts_ok_steps json_ok_map split: option.splits if_splits)

interpretation smbios_sound: sound_collector smbios_collect "[''linux_smbios'']" always
  by unfold_locales
    (auto simp: smbios_collect_def Let_def label_facts word_facts entries_ok
      intro!: facts_ok_steps json_ok_map split: option.splits if_splits)

interpretation nvme_sound: sound_collector nvme_collect "[''linux_nvme'']" always
  by unfold_locales
    (auto simp: nvme_collect_def Let_def label_facts word_facts json_ok_all
      intro!: facts_ok_steps split: option.splits sum.splits if_splits)

interpretation gpu_sound: sound_collector gpu_collect "[''linux_gpu'']" always
  by unfold_locales
    (auto simp: gpu_collect_def Let_def label_facts word_facts list_caps_valid json_ok_all
      intro!: facts_ok_steps json_ok_map split: prod.splits if_splits)


section \<open>Link speeds and sensor readings\<close>

text \<open>
  The numbers \<open>encoding/json\<close> can write. Infinities and NaN are none, and \<open>strconv.ParseFloat\<close> reads
  them from words like \<open>inf\<close>, so here the collectors rely on the machine.
\<close>

definition encodable :: "float64 \<Rightarrow> bool" where
  "encodable v \<longleftrightarrow> json_ok (jfloat v)"

lemma not_encodable: "\<not> encodable (Infinite neg)" "\<not> encodable NaN"
proof -
  have "\<not> json_number ''-Inf''" "\<not> json_number ''+Inf''" "\<not> json_number ''NaN''"
    by code_simp+
  then show "\<not> encodable (Infinite neg)" "\<not> encodable NaN"
    by (simp_all add: encodable_def jfloat_def)
qed

lemma encodable_zero: "encodable fzero"
  by code_simp

definition sound_links :: "world \<Rightarrow> bool" where
  "sound_links w \<longleftrightarrow> (\<forall>path. encodable (readLinkGTs w path))"

lemma pci_json_ok: "encodable (pd_CurLinkGTs d) \<Longrightarrow> encodable (pd_MaxLinkGTs d) \<Longrightarrow> json_ok (pci_json d)"
  using name_facts by (simp add: pci_json_def encodable_def)

interpretation pci_sound: sound_collector pci_collect "[''linux_pci'']" "\<lambda>_. sound_links"
proof unfold_locales
  fix cfg w sid f e
  assume w: "sound_links w" "valid_time (w_now w)" "valid_utf8 sid" and f: "pci_collect cfg w sid = (Some f, e)"
  have "json_ok (enc_slice pci_json (pci_kept w cfg found))" for found
    using w(1) by (intro json_ok_slice) (auto simp: pci_kept_def pci_enrich_def sound_links_def Let_def intro!: pci_json_ok)
  with w(2,3) f show "facts_ok f"
    by (auto simp: pci_collect_def Let_def label_facts word_facts list_caps_valid
        intro!: facts_ok_steps json_ok_map split: option.splits sum.splits if_splits)
qed

definition text_runner :: "CommandRunner \<Rightarrow> bool" where
  "text_runner run \<longleftrightarrow> (\<forall>name args out. run name args = (out, None) \<longrightarrow> valid_utf8 out)"

definition sound_sensors :: "CommandRunner \<Rightarrow> bool" where
  "sound_sensors run \<longleftrightarrow>
     (\<forall>s. ipmi_sensors run = Some s \<longrightarrow> list_all (\<lambda>kv. encodable (snd kv)) (bm_TempsC s) \<and> encodable (bm_PowerWatts s))"

lemma ipmi_power_valid:
  assumes "text_runner run"
  shows "valid_utf8 (ipmi_power run)"
proof -
  have prefix: "list_all ascii ''Chassis Power is ''"
    by code_simp
  have "valid_utf8 (parseChassisPowerStatus out)" if "valid_utf8 out" for out
  proof (cases "HasPrefix (TrimSpace out) ''Chassis Power is ''")
    case True
    then obtain t where t: "TrimSpace out = ''Chassis Power is '' @ t"
      by (auto simp: HasPrefix_iff)
    have "valid_utf8 t"
      using TrimSpace_valid [OF that] valid_utf8_after [OF prefix, of t] by (simp only: t)
    moreover have "parseChassisPowerStatus out = ToLower (TrimSpace t)"
      unfolding parseChassisPowerStatus_def t Let_def HasPrefix_append TrimPrefix_append by simp
    ultimately show ?thesis
      by (simp add: utf8_intros)
  qed (simp add: parseChassisPowerStatus_def Let_def)
  with assms show ?thesis
    by (auto simp: ipmi_power_def text_runner_def split: prod.splits option.splits)
qed

lemma sensors_json_ok:
  assumes "list_all (\<lambda>kv. encodable (snd kv)) (bm_TempsC s)" and "encodable (bm_PowerWatts s)"
  shows "json_ok (sensors_json s)"
proof -
  have "list_all (\<lambda>kv. json_ok (snd kv)) (map (\<lambda>(k, v). (k, jfloat v)) (bm_TempsC s))"
    using assms(1) by (auto simp: list_all_iff encodable_def)
  then have "json_ok (raw_json (map (\<lambda>(k, v). (k, jfloat v)) (bm_TempsC s)))"
    by (rule json_ok_map)
  with assms(2) show ?thesis
    using name_facts by (simp add: sensors_json_def encodable_def json_ok_named json_ok_all)
qed

interpretation ipmi_sound: sound_collector ipmi_collect "[''ipmi'']"
  "\<lambda>c w. \<forall>run. cf_Runner c = Some run \<longrightarrow> text_runner run \<and> sound_sensors run"
  by unfold_locales
    (auto simp: ipmi_collect_def Let_def label_facts word_facts sound_sensors_def ipmi_power_valid sensors_json_ok
      intro!: facts_ok_steps split: option.splits)


section \<open>The host collector\<close>

text \<open>Names come from JSON documents; the driver from a link, features from the text ethtool prints.\<close>

definition text_links :: "world \<Rightarrow> bool" where
  "text_links w \<longleftrightarrow> (\<forall>path target. w_Readlink w path = Some target \<longrightarrow> valid_utf8 target)"

lemma tool_json_holds:
  assumes "tool_json w run look name args dec = Inr x" and "\<And>v y. dec v = Some y \<Longrightarrow> P y"
  shows "P x"
  using assms(1) by (auto simp: tool_json_def unmarshal_def bind_eq_Some_conv split: sum.splits option.splits intro: assms(2))

lemma lscpu_entry_valid: "dec_lscpu_entry v = Some e \<Longrightarrow> valid_utf8 (snd e)"
  by (auto simp: dec_lscpu_entry_def field_string_valid split: bind_splits)

lemma lscpu_valid: "dec_lscpu v = Some entries \<Longrightarrow> list_all (\<lambda>e. valid_utf8 (snd e)) entries"
proof -
  have "dec_slice dec_lscpu_entry u = Some es \<Longrightarrow> list_all (\<lambda>e. valid_utf8 (snd e)) es" for u es
    by (erule dec_slice_holds) (rule lscpu_entry_valid)
  then show "dec_lscpu v = Some entries \<Longrightarrow> ?thesis"
    by (auto simp: dec_lscpu_def split: bind_splits elim!: field_holds [where P = "list_all (\<lambda>e. valid_utf8 (snd e))"])
qed

lemma updates_hold:
  "list_all (\<lambda>e. P (snd e)) es \<Longrightarrow> (\<And>x. map_of m k = Some x \<Longrightarrow> P x) \<Longrightarrow>
     map_of (foldl (\<lambda>m (a, b). AList.update (g a) b m) m es) k = Some v \<Longrightarrow> P v"
proof (induction es arbitrary: m)
  case (Cons e es)
  obtain a b where e: "e = (a, b)" by fastforce
  have "P x" if "map_of (AList.update (g a) b m) k = Some x" for x
    using that Cons.prems(1,2) by (auto simp: e update_conv' split: if_splits)
  with Cons.IH [of "AList.update (g a) b m"] Cons.prems show ?case
    by (simp add: e)
qed simp

lemma lscpu_at_valid:
  assumes "list_all (\<lambda>e. valid_utf8 (snd e)) entries"
  shows "valid_utf8 (at (lscpu_fields entries) k)"
proof -
  have "valid_utf8 v" if "map_of (lscpu_fields entries) k = Some v" for v
    using updates_hold [where P = valid_utf8, OF assms _ that [unfolded lscpu_fields_def]] by simp
  then show ?thesis
    by (simp add: at_def split: option.split)
qed

lemma fill_cpu_ok:
  assumes "list_all (\<lambda>e. valid_utf8 (snd e)) entries" and "cpu_ok c"
  shows "cpu_ok (fill_cpu (lscpu_fields entries) c)"
  using assms lscpu_at_valid [OF assms(1)] atoiOrZero_range by (simp add: fill_cpu_def cpu_ok_def Let_def wrap64_range)

lemma disk_json_valid: "dec_lsblk_device v = Some d \<Longrightarrow> valid_utf8 (ld_Name d) \<and> in_int64 (ld_Size d)"
proof -
  have flex: "flexInt u = Some n \<Longrightarrow> in_int64 n" for u n
    using Atoi_range by (auto simp: flexInt_def in_int64_def Let_def split: if_splits prod.splits) (metis fst_conv)+
  have "in_int64 n" if "own_field name flexInt 0 kvs = Some n" for name kvs n
  proof (rule foldl_holds [OF that [unfolded own_field_def]])
    show "in_int64 b" if "(case y of (k, v) \<Rightarrow> if key_is name k then (case acc of None \<Rightarrow> None | Some _ \<Rightarrow> flexInt v) else acc) = Some b"
      and "\<And>a. acc = Some a \<Longrightarrow> in_int64 a" for acc y b
      using that flex by (auto split: prod.splits if_splits option.splits)
  qed (simp add: in_int64_def)
  then show "dec_lsblk_device v = Some d \<Longrightarrow> ?thesis"
    by (auto simp: dec_lsblk_device_def field_string_valid split: bind_splits)
qed

lemma quot_range:
  assumes "in_int64 a" and "0 < b"
  shows "in_int64 (quot a b)"
proof -
  have "\<bar>a\<bar> div b \<le> \<bar>a\<bar>" "0 \<le> \<bar>a\<bar> div b"
    using assms(2) zdiv_mono2 [of "\<bar>a\<bar>" 1 b] by (simp_all add: pos_imp_zdiv_nonneg_iff)
  with assms show ?thesis
    by (auto simp: quot_def in_int64_def)
qed

lemma add_disk_ok:
  assumes "list_all disk_ok ds" and "valid_utf8 (ld_Name d) \<and> in_int64 (ld_Size d)"
  shows "list_all disk_ok (add_disk ds d)"
proof -
  have "valid_utf8 (diskType (ld_Name d) (ld_Rota d))"
    using word_facts by (simp add: diskType_def)
  with assms show ?thesis
    by (simp add: add_disk_def disk_ok_def quot_range)
qed

lemma disks_ok: "list_all (\<lambda>d. valid_utf8 (ld_Name d) \<and> in_int64 (ld_Size d)) devs \<Longrightarrow> list_all disk_ok (foldl add_disk [] devs)"
proof -
  have "list_all disk_ok ds \<Longrightarrow> list_all (\<lambda>d. valid_utf8 (ld_Name d) \<and> in_int64 (ld_Size d)) devs \<Longrightarrow> list_all disk_ok (foldl add_disk ds devs)" for ds
    by (induction devs arbitrary: ds) (simp_all add: add_disk_ok)
  then show "list_all (\<lambda>d. valid_utf8 (ld_Name d) \<and> in_int64 (ld_Size d)) devs \<Longrightarrow> ?thesis"
    by simp
qed

lemma lsblk_valid: "dec_lsblk v = Some devs \<Longrightarrow> list_all disk_ok (foldl add_disk [] devs)"
proof -
  have "dec_slice dec_lsblk_device u = Some ds \<Longrightarrow> list_all (\<lambda>d. valid_utf8 (ld_Name d) \<and> in_int64 (ld_Size d)) ds" for u ds
    by (erule dec_slice_holds) (rule disk_json_valid)
  then show "dec_lsblk v = Some devs \<Longrightarrow> ?thesis"
    by (auto simp: dec_lsblk_def split: bind_splits intro!: disks_ok
        elim!: field_holds [where P = "list_all (\<lambda>d. valid_utf8 (ld_Name d) \<and> in_int64 (ld_Size d))"])
qed

lemma link_valid: "dec_ip_link v = Some l \<Longrightarrow> valid_utf8 (il_IfName l) \<and> valid_utf8 (il_Address l)"
  by (auto simp: dec_ip_link_def field_string_valid split: bind_splits)

lemma drop_cr_valid:
  assumes "valid_utf8 l"
  shows "valid_utf8 (drop_cr l)"
proof (cases "l \<noteq> [] \<and> last l = CHR 0x0D")
  case True
  then have l: "l = butlast l @ CHR 0x0D # []"
    by (metis append_butlast_last_id)
  have "ascii (CHR 0x0D)"
    by code_simp
  then have "valid_utf8 (butlast l)"
    using assms l valid_utf8_at by metis
  with True show ?thesis by (simp add: drop_cr_def)
next
  case False
  with assms show ?thesis by (auto simp: drop_cr_def)
qed

lemma scan_lines_valid:
  assumes "valid_utf8 s" and "l \<in> set (scan_lines s)"
  shows "valid_utf8 l"
proof -
  obtain p where p: "l = drop_cr p" "p \<in> set (Split s (CHR 0x0A))"
    using assms(2) by (auto simp: scan_lines_def Let_def split: if_splits dest!: set_takeWhileD in_set_butlastD)
  have "ascii (CHR 0x0A)"
    by code_simp
  with p assms(1) show ?thesis
    using Split_valid drop_cr_valid by metis
qed

lemma feature_valid:
  assumes "feature_of text = Some x" and "valid_utf8 text"
  shows "valid_utf8 x"
proof -
  obtain name state ok where cut: "Cut (TrimSpace text) (CHR '':'') = (name, state, ok)"
    by (metis prod_cases3)
  have "ascii (CHR '':'')"
    by code_simp
  then have "valid_utf8 name"
    using Cut_valid [OF cut] assms(2) TrimSpace_valid by simp
  moreover have "x = TrimSpace name"
    using assms(1) by (auto simp: feature_of_def cut Let_def split: if_splits)
  ultimately show ?thesis
    by (simp add: TrimSpace_valid)
qed

lemma features_valid:
  assumes "text_runner run" and "readEthtoolFeatures run iface = Some fs"
  shows "list_all valid_utf8 fs"
proof -
  obtain out where out: "run ''ethtool'' [''-k'', iface] = (out, None)" "fs = List.map_filter feature_of (scan_lines out)"
    using assms(2) by (auto simp: readEthtoolFeatures_def split: prod.splits option.splits)
  then have "valid_utf8 out"
    using assms(1) by (simp add: text_runner_def)
  then show ?thesis
    using scan_lines_valid feature_valid by (fastforce simp: out(2) list_all_iff map_filter_def)
qed

lemma speed_range: "in_int64 (readSpeedGbps w iface)"
proof (cases "w_ReadFile w (FilepathJoin [''/sys/class/net'', iface, ''speed''])")
  case (Some data)
  obtain n ok where n: "Atoi (TrimSpace data) = (n, ok)"
    by fastforce
  have range: "in_int64 n"
    using Atoi_range [of "TrimSpace data"] by (simp add: n)
  have "in_int64 (n div 1000)" if "\<not> n \<le> 0"
    using quot_range [OF range, of 1000] that by (simp add: quot_def)
  then show ?thesis
    by (simp add: readSpeedGbps_def Some n) (simp add: in_int64_def)
qed (simp add: readSpeedGbps_def in_int64_def)

lemma nic_of_ok:
  assumes "text_links w" and "text_runner run" and "valid_utf8 (il_IfName l) \<and> valid_utf8 (il_Address l)"
  shows "nic_ok (nic_of w run b l)"
proof -
  have "valid_utf8 (readDriver w iface)" for iface
    using assms(1) FilepathBase_valid by (auto simp: readDriver_def text_links_def split: option.split)
  moreover have "list_all valid_utf8 (case readEthtoolFeatures run iface of None \<Rightarrow> [] | Some fs \<Rightarrow> fs)" for iface
    using features_valid [OF assms(2)] by (simp split: option.split)
  ultimately show ?thesis
    using assms(3) speed_range word_facts by (simp add: nic_of_def nic_ok_def Let_def)
qed

lemma host_steps_ok:
  assumes "facts_ok f" and "text_links w" and "text_runner run"
  shows "facts_ok (fst (collectCPU w run look f))" "facts_ok (fst (collectDisks w run look f))" "facts_ok (fst (collectNICs w run look f))"
proof -
  have "cpu_ok (sf_CPU f)"
    using assms(1) by (simp add: facts_ok_def)
  then show "facts_ok (fst (collectCPU w run look f))"
    using assms(1) by (auto simp: collectCPU_def intro!: facts_ok_steps fill_cpu_ok split: sum.split
        elim!: tool_json_holds [where P = "list_all (\<lambda>e. valid_utf8 (snd e))"] dest: lscpu_valid)
  show "facts_ok (fst (collectDisks w run look f))"
    using assms(1) by (auto simp: collectDisks_def intro!: facts_ok_steps split: sum.split
        elim!: tool_json_holds [where P = "\<lambda>ds. list_all disk_ok (foldl add_disk [] ds)"] dest: lsblk_valid)
  have "list_all (\<lambda>l. valid_utf8 (il_IfName l) \<and> valid_utf8 (il_Address l)) links"
    if "tool_json w run look ''ip'' [''-j'', ''link''] (dec_slice dec_ip_link) = Inr links" for links
    using that by (rule tool_json_holds) (erule dec_slice_holds, rule link_valid)
  then show "facts_ok (fst (collectNICs w run look f))"
    using assms by (auto simp: collectNICs_def Let_def list_all_iff intro!: facts_ok_steps nic_of_ok split: sum.split)
qed

interpretation linux_host_sound: sound_collector linux_host_collect "[''linux_host'']"
  "\<lambda>c w. text_links w \<and> (\<forall>run. cf_Runner c = Some run \<longrightarrow> text_runner run)"
proof unfold_locales
  fix cfg w sid f e
  assume w: "text_links w \<and> (\<forall>run. cf_Runner cfg = Some run \<longrightarrow> text_runner run)" "valid_time (w_now w)" "valid_utf8 sid"
    and f: "linux_host_collect cfg w sid = (Some f, e)"
  show "facts_ok f"
  proof (cases "cf_Runner cfg")
    case None
    with w f label_facts show ?thesis
      by (auto simp: linux_host_collect_def intro: facts_ok_steps)
  next
    case (Some run)
    have new: "facts_ok (new_facts w sid ''linux_host'')"
      using w(2,3) label_facts by (simp add: new_facts_ok)
    have "f = fst (collectNICs w run (lookPath w cfg) (fst (collectDisks w run (lookPath w cfg)
        (fst (collectCPU w run (lookPath w cfg) (new_facts w sid ''linux_host''))))))"
      using f by (auto simp: linux_host_collect_def Some Let_def split: prod.splits)
    then show ?thesis
      using host_steps_ok new w(1) Some by simp
  qed
qed


section \<open>The collectors that fill administrative fields\<close>

lemma range_map_keys: "x \<in> set (range_map w m) \<Longrightarrow> fst x \<in> fst ` set m"
  by (auto simp: range_map_def map_filter_def dest: map_of_SomeD intro: rev_image_eqI)

lemma any_map_keys: "any_map v = Some m \<Longrightarrow> x \<in> set m \<Longrightarrow> valid_utf8 (fst x)"
  using dec_entries_keys [of Some _ "[]" m] by (auto simp: any_map_def list_all_iff split: json.splits)

lemma add_port_ids_chassis [simp]: "ln_ChassisName (add_port_ids entry n) = ln_ChassisName n"
  by (simp add: add_port_ids_def Let_def split: option.split)

lemma add_chassis_valid:
  assumes "valid_utf8 (ln_ChassisName n)"
  shows "valid_utf8 (ln_ChassisName (add_chassis w entry n))"
proof (cases "sub_map (map_of entry ''chassis'')")
  case (Some wrap)
  then obtain v where v: "any_map v = Some wrap"
    by (auto simp: sub_map_def split: option.splits)
  have "valid_utf8 name" if "range_map w wrap = (name, cv) # rest" for name cv rest
    using range_map_keys [of "(name, cv)" w wrap] any_map_keys [OF v] that by auto
  with assms Some show ?thesis
    by (auto simp: add_chassis_def split: list.split option.split)
qed (use assms in \<open>simp add: add_chassis_def\<close>)

lemma neighbors_valid:
  assumes "parseLldpctlJSON w out = Inr ns"
  shows "list_all (\<lambda>n. valid_utf8 (ln_ChassisName n)) ns"
proof -
  have "valid_utf8 (ln_ChassisName n)" if "neighbor_of w kv = Some n" for kv n
    using that by (auto simp: neighbor_of_def add_chassis_valid split: option.splits)
  with assms show ?thesis
    by (auto simp: parseLldpctlJSON_def list_all_iff map_filter_def split: sum.splits option.splits)
qed

lemma chassis_domain_valid:
  assumes "list_all (\<lambda>n. valid_utf8 (ln_ChassisName n)) ns"
  shows "valid_utf8 (chassis_domain ns)"
proof -
  have "valid_utf8 c \<Longrightarrow> list_all (\<lambda>n. valid_utf8 (ln_ChassisName n)) ns \<Longrightarrow> valid_utf8 (fst (single_chassis c ns))" for c
    by (induction c ns rule: single_chassis.induct) auto
  moreover have "valid_utf8 ''switch:''"
    by code_simp
  ultimately have "valid_utf8 (''switch:'' @ fst (single_chassis [] ns))"
    using assms by (intro valid_utf8_append) simp_all
  then show ?thesis
    unfolding chassis_domain_def by (cases "single_chassis [] ns") (simp only: prod.case fst_conv valid_utf8_Nil simp_thms split: if_split)
qed

interpretation lldp_sound: sound_collector lldp_collect "[''linux_lldp'']" always
  by unfold_locales
    (auto simp: lldp_collect_def Let_def label_facts word_facts json_ok_all
      intro!: facts_ok_steps chassis_domain_valid neighbors_valid split: option.splits sum.splits if_splits)

lemma system_power_valid: "dec_system v = Some sys \<Longrightarrow> valid_utf8 (rs_PowerState sys)"
  by (auto simp: dec_system_def field_string_valid split: bind_splits)

lemma redfish_raw_ok:
  "raw_ok [(''vendor'', jstr a), (''model'', jstr b), (''serial_number'', jstr c), (''redfish_health'', jstr d), (''redfish_state'', jstr e)]"
  "raw_ok [(''vendor'', jstr a), (''model'', jstr b), (''serial_number'', jstr c), (''demo_mode'', JBool True), (''demo_reason'', jstr d)]"
proof -
  have "list_all valid_utf8 [''vendor'', ''model'', ''serial_number'', ''redfish_health'', ''redfish_state'', ''demo_mode'', ''demo_reason'']"
    by code_simp
  then show "raw_ok [(''vendor'', jstr a), (''model'', jstr b), (''serial_number'', jstr c), (''redfish_health'', jstr d), (''redfish_state'', jstr e)]"
    "raw_ok [(''vendor'', jstr a), (''model'', jstr b), (''serial_number'', jstr c), (''demo_mode'', JBool True), (''demo_reason'', jstr d)]"
    by (simp_all add: raw_ok_def)
qed

lemma raw_replaced_ok: "facts_ok f \<Longrightarrow> raw_ok m \<Longrightarrow> facts_ok (f\<lparr>sf_Raw := Some m\<rparr>)"
  by (simp add: facts_ok_def)

interpretation redfish_sound: sound_collector redfish_collect "[''redfish'', ''redfish_demo'']" "\<lambda>_ _. True"
proof unfold_locales
  fix c w sid f e
  assume w: "valid_time (w_now w)" "valid_utf8 sid" and f: "redfish_collect c w sid = (Some f, e)"
  show "facts_ok f"
  proof (cases "redfish_system c w sid")
    case (Inl m)
    have "facts_ok (demoRedfishFacts w sid)"
      unfolding demoRedfishFacts_def using w label_facts word_facts redfish_raw_ok
      by (intro raw_replaced_ok facts_ok_steps) simp_all
    with f Inl show ?thesis by (simp add: redfish_collect_def)
  next
    case (Inr sys)
    then obtain v where "dec_system v = Some sys"
      by (auto simp: redfish_system_def Let_def bind_eq_Some_conv split: option.splits http_result.splits if_splits)
    then have "facts_ok (redfish_facts w sid sys)"
      unfolding redfish_facts_def using w label_facts redfish_raw_ok system_power_valid
      by (intro raw_replaced_ok facts_ok_steps ToLower_valid) simp_all
    with f Inr show ?thesis by (simp add: redfish_collect_def)
  qed
qed

definition text_records :: "driver \<Rightarrow> database \<Rightarrow> bool" where
  "text_records d db \<longleftrightarrow> (\<forall>sid state fd. GetProvisioning d db sid = Inr (state, fd) \<longrightarrow> valid_utf8 state \<and> valid_utf8 fd)"

interpretation provisioning_sound: sound_collector provisioning_collect "[''provisioning_store'']"
  "\<lambda>store _. case store of None \<Rightarrow> True | Some (d, db) \<Rightarrow> text_records d db"
proof unfold_locales
  fix store w sid f e
  assume w: "case store of None \<Rightarrow> True | Some (d, db) \<Rightarrow> text_records d db" "valid_time (w_now w)" "valid_utf8 sid"
    and f: "provisioning_collect store w sid = (Some f, e)"
  note failed = zero_facts_ok [OF w(3), of "''provisioning_store''"]
  have read: "facts_ok (zero_facts\<lparr>sf_ServerID := sid, sf_Source := ''provisioning_store'', sf_ObservedAt := w_now w,
      sf_Provisioning := state, sf_FailureDomain := fd\<rparr>)" if "valid_utf8 state" "valid_utf8 fd" for state fd
    using failed label_facts w(2) that by (simp add: facts_ok_def)
  show "facts_ok f"
    using f w(1) failed label_facts read
    by (auto simp: provisioning_collect_def text_records_def Let_def split: option.splits sum.splits prod.splits)
qed


section \<open>A sound machine\<close>

text \<open>
  The clock shows a date of the years 0 to 9999, commands print UTF-8, the targets of links are UTF-8, and link
  speeds and sensor readings are numbers JSON can hold.
\<close>

definition sound_machine :: "world \<Rightarrow> bool" where
  "sound_machine w \<longleftrightarrow>
     valid_time (w_now w) \<and> text_runner (NewLocalRunner w) \<and> text_links w \<and> sound_links w \<and> sound_sensors (NewLocalRunner w)"

lemma wave2_reports_ok:
  assumes "sound_machine w" and "valid_utf8 sid" and "c \<in> set (Wave2Collectors (NewLocalRunner w) w)"
  shows "facts_ok (reported c sid)"
proof -
  note m = assms(1) [unfolded sound_machine_def]
  have ipmi: "facts_ok (reported (ipmi_collect (NewIPMICollector (NewLocalRunner w) w) w) sid)"
    using m assms(2) by (intro ipmi_sound.reported_ok) (simp_all add: NewIPMICollector_def)
  have "facts_ok (reported (pci_collect cfg w) sid)" "facts_ok (reported (rdma_collect cfg w) sid)"
    "facts_ok (reported (numa_collect cfg w) sid)" "facts_ok (reported (hugepages_collect cfg w) sid)"
    "facts_ok (reported (iommu_collect cfg w) sid)" "facts_ok (reported (tee_collect cfg w) sid)"
    "facts_ok (reported (nic_offload_collect cfg w) sid)" "facts_ok (reported (net_topology_collect cfg w) sid)"
    "facts_ok (reported (lldp_collect cfg w) sid)" "facts_ok (reported (kernel_collect cfg w) sid)"
    "facts_ok (reported (smbios_collect cfg w) sid)" "facts_ok (reported (nvme_collect cfg w) sid)"
    "facts_ok (reported (gpu_collect cfg w) sid)" for cfg
    using m assms(2)
    by (simp_all add: pci_sound.reported_ok rdma_sound.reported_ok numa_sound.reported_ok hugepages_sound.reported_ok
        iommu_sound.reported_ok tee_sound.reported_ok nic_offload_sound.reported_ok net_topology_sound.reported_ok
        lldp_sound.reported_ok kernel_sound.reported_ok smbios_sound.reported_ok nvme_sound.reported_ok gpu_sound.reported_ok)
  with assms(3) ipmi show ?thesis
    by (auto simp: Wave2Collectors_def)
qed

lemma host_reports_ok:
  assumes "sound_machine w" and "valid_utf8 sid"
  shows "facts_ok (reported (linux_host_collect (NewLinuxHostCollector (NewLocalRunner w) w) w) sid)"
  using assms by (intro linux_host_sound.reported_ok) (simp_all add: sound_machine_def NewLinuxHostCollector_def)

lemma sound_contributions:
  assumes "sound_machine w" and "valid_utf8 sid" and "text_records d db"
  shows "\<forall>g\<in>set (contributions sid (buildCollectors getenv d db w)). facts_ok g"
proof -
  have "valid_time (w_now w)"
    using assms(1) by (simp add: sound_machine_def)
  then have "facts_ok (reported (redfish_collect c w) sid)" "facts_ok (reported (provisioning_collect (Some (d, db)) w) sid)" for c
    using assms(2,3) by (simp_all add: redfish_sound.reported_ok provisioning_sound.reported_ok)
  then have "\<forall>c\<in>set (buildCollectors getenv d db w). facts_ok (reported c sid)"
    using wave2_reports_ok [OF assms(1,2)] host_reports_ok [OF assms(1,2)] by (auto simp: buildCollectors_def Let_def)
  then show ?thesis
    unfolding contributions_answering [OF serving_answers] by auto
qed

text \<open>
  C20. No machine breaks the pipeline: as long as the clock, the text commands print and the numbers read
  are sound in the sense above, and the provisioning records are UTF-8, every collector reports
  well-formed facts, whatever tools and files are missing or garbled; so the build for any server
  succeeds, and a working driver saves it: the server's history gains exactly the facts built.
\<close>

theorem sound_machine_is_recorded:
  assumes "sound_machine w" and "server_id_ok sid" and "valid_time now" and "text_records d db"
    and "sql_good db" and "faultless d'"
  shows "(\<forall>g\<in>set (contributions sid (buildCollectors getenv d db w)). facts_ok g)
    \<and> (\<exists>f. BuildServerFacts now sid (buildCollectors getenv d db w) = (Some f, None) \<and> facts_ok f
        \<and> snd (SaveFacts d' t db (Some f)) = None
        \<and> history (fst (SaveFacts d' t db (Some f))) sid = history db sid @ [normal_raw f])"
proof -
  have sid: "valid_utf8 sid"
    using assms(2) by (simp add: server_id_ok_def)
  note sound = sound_contributions [OF assms(1) sid assms(4), of getenv]
  obtain f where f: "BuildServerFacts now sid (buildCollectors getenv d db w) = (Some f, None)"
    using serving_build by blast
  have "facts_ok f"
    using build_ok [OF f sid assms(3) sound] by blast
  with built_facts_storable [OF f assms(2,3) sound assms(5,6), of t] sound f show ?thesis
    by blast
qed

lemma bare_machine_sound: "sound_machine bare_world"
proof -
  have "valid_time zero_time"
    by (rule valid_zero_time)
  moreover have "text_runner (NewLocalRunner bare_world)" "sound_sensors (NewLocalRunner bare_world)"
    by (simp_all add: text_runner_def sound_sensors_def ipmi_sensors_def NewLocalRunner_def LocalRunner_Run_def bare_world_def)
  moreover have "text_links bare_world" "sound_links bare_world"
    using encodable_zero by (simp_all add: text_links_def sound_links_def readLinkGTs_def from_file_def bare_world_def)
  ultimately show ?thesis
    by (simp add: sound_machine_def bare_world_def)
qed

theorem sound_machine_is_recorded_witness:
  "\<exists>f. BuildServerFacts (day 7) ''b'' (buildCollectors (\<lambda>_. []) sound_driver created_db bare_world) = (Some f, None)
     \<and> history (saved f created_db) ''b'' = [normal_raw f]"
proof -
  have b: "server_id_ok ''b''" "valid_time (day 7)"
    using sound_batch_Cons(1) [OF sound_batch_Cons(4) [OF picky_batch]] by (simp_all add: day_def valid_time_def days_in_def)
  have "text_records sound_driver created_db"
    by (simp add: text_records_def created_db_def NewSQLiteProvisioningStore_def NewSQLiteStore_def empty_db_def
        GetProvisioning_def prov_table_def)
  from sound_machine_is_recorded [OF bare_machine_sound b this _ sound_driver, of "\<lambda>_. []" zero_time] created_db_good show ?thesis
    by (auto simp: saved_def history_def)
qed

end
