(* ===== verification/Handlers.thy ===== *)
theory Handlers
  imports Views Refresh
begin

text \<open>
  \<open>api/handlers.go\<close>: the routes of the facts API and the responses of its handlers. A handler
  gets the store as the function \<open>GetLatestFacts\<close>; it has no collector to call and no way to
  write.
\<close>


section \<open>Requests and responses\<close>

text \<open>The segments of a cleaned URL path, unescaped, as \<open>http.ServeMux\<close> matches them.\<close>

record request =
  rq_method :: string
  rq_path :: "string list"

record response =
  rs_status :: int
  rs_content_type :: string
  rs_body :: string

definition StatusOK :: int where "StatusOK = 200"
definition StatusBadRequest :: int where "StatusBadRequest = 400"
definition StatusNotFound :: int where "StatusNotFound = 404"
definition StatusMethodNotAllowed :: int where "StatusMethodNotAllowed = 405"

text \<open>\<open>Encode\<close> writes the document and a newline.\<close>

definition writeJSON :: "int \<Rightarrow> json \<Rightarrow> response" where
  "writeJSON status v =
     \<lparr>rs_status = status, rs_content_type = ''application/json'', rs_body = print_json v @ [CHR 0x0A]\<rparr>"

definition writeError :: "int \<Rightarrow> string \<Rightarrow> response" where
  "writeError status msg = writeJSON status (JObj [(''error'', jstr msg)])"

text \<open>\<open>time.RFC3339\<close> in UTC: no fraction of a second.\<close>

definition format_seconds :: "gotime \<Rightarrow> string" where
  "format_seconds t =
     pad 4 (t_year t) @ ''-'' @ pad 2 (t_month t) @ ''-'' @ pad 2 (t_day t) @ ''T''
     @ pad 2 (t_hour t) @ '':'' @ pad 2 (t_min t) @ '':'' @ pad 2 (t_sec t) @ ''Z''"

definition handleHealthz :: "gotime \<Rightarrow> response" where
  "handleHealthz now =
     writeJSON StatusOK
       (JObj [(''healthy'', JBool True), (''service'', jstr ''rewsr-maxfields''), (''timestamp'', jstr (format_seconds now))])"

definition handleGetServer :: "(string \<Rightarrow> string + ServerFacts) \<Rightarrow> string \<Rightarrow> response" where
  "handleGetServer latest sid =
     (if sid = [] then writeError StatusBadRequest ''server id required''
      else case latest sid of
        Inl _ \<Rightarrow> writeError StatusNotFound (''no facts on record for server '' @ sid)
      | Inr f \<Rightarrow> writeJSON StatusOK (public_json (PublicView (Some f))))"

definition handleGetServerHardware :: "(string \<Rightarrow> string + ServerFacts) \<Rightarrow> string \<Rightarrow> response" where
  "handleGetServerHardware latest sid =
     (if sid = [] then writeError StatusBadRequest ''server id required''
      else case latest sid of
        Inl _ \<Rightarrow> writeError StatusNotFound (''no facts on record for server '' @ sid)
      | Inr f \<Rightarrow> writeJSON StatusOK (hardware_json (HardwareView (Some f))))"


section \<open>Routes\<close>

text \<open>
  The mux: a wildcard matches one non-empty segment; a pattern for GET also matches HEAD; a path
  that only matches with another method is answered with 405, any other with 404.
\<close>

datatype handler = Healthz | GetServer string | GetServerHardware string

definition match_path :: "string list \<Rightarrow> handler option" where
  "match_path p =
     (case p of
        [a] \<Rightarrow> if a = ''healthz'' then Some Healthz else None
      | [a, sid] \<Rightarrow> if a = ''servers'' \<and> sid \<noteq> [] then Some (GetServer sid) else None
      | [a, sid, b] \<Rightarrow>
          if a = ''servers'' \<and> sid \<noteq> [] \<and> b = ''hardware'' then Some (GetServerHardware sid) else None
      | _ \<Rightarrow> None)"

definition mux_error :: "int \<Rightarrow> string \<Rightarrow> response" where
  "mux_error status msg =
     \<lparr>rs_status = status, rs_content_type = ''text/plain; charset=utf-8'', rs_body = msg @ [CHR 0x0A]\<rparr>"

definition Routes :: "(string \<Rightarrow> string + ServerFacts) \<Rightarrow> gotime \<Rightarrow> request \<Rightarrow> response" where
  "Routes latest now r =
     (case match_path (rq_path r) of
        None \<Rightarrow> mux_error StatusNotFound ''404 page not found''
      | Some h \<Rightarrow>
          if rq_method r = ''GET'' \<or> rq_method r = ''HEAD'' then
            (case h of
               Healthz \<Rightarrow> handleHealthz now
             | GetServer sid \<Rightarrow> handleGetServer latest sid
             | GetServerHardware sid \<Rightarrow> handleGetServerHardware latest sid)
          else mux_error StatusMethodNotAllowed ''Method Not Allowed'')"

definition get_server :: "string \<Rightarrow> request" where
  "get_server sid = \<lparr>rq_method = ''GET'', rq_path = [''servers'', sid]\<rparr>"

definition get_hardware :: "string \<Rightarrow> request" where
  "get_hardware sid = \<lparr>rq_method = ''GET'', rq_path = [''servers'', sid, ''hardware'']\<rparr>"


section \<open>Lemmas\<close>

lemma status_simps [simp]:
  "rs_status (writeJSON s v) = s" "rs_status (writeError s m) = s" "rs_status (mux_error s m) = s"
  by (simp_all add: writeJSON_def writeError_def mux_error_def)

lemmas statuses = StatusOK_def StatusBadRequest_def StatusNotFound_def StatusMethodNotAllowed_def

lemma match_path_ids:
  "match_path p = Some (GetServer sid) \<longleftrightarrow> p = [''servers'', sid] \<and> sid \<noteq> []"
  "match_path p = Some (GetServerHardware sid) \<longleftrightarrow> p = [''servers'', sid, ''hardware''] \<and> sid \<noteq> []"
  by (auto simp: match_path_def split: list.splits if_splits)

lemma Routes_get_server: "sid \<noteq> [] \<Longrightarrow> Routes latest now (get_server sid) = handleGetServer latest sid"
  by (simp add: Routes_def get_server_def match_path_def)

lemma Routes_get_hardware: "sid \<noteq> [] \<Longrightarrow> Routes latest now (get_hardware sid) = handleGetServerHardware latest sid"
  by (simp add: Routes_def get_hardware_def match_path_def)

text \<open>The views do not see the normalisation of \<open>Raw\<close> in the store.\<close>

lemma views_normal_raw [simp]:
  "PublicView (Some (normal_raw f)) = PublicView (Some f)"
  "HardwareView (Some (normal_raw f)) = HardwareView (Some f)"
proof -
  have "public_part (normal_raw f) = public_part f" "hardware_part (normal_raw f) = hardware_part f"
    by (simp_all add: public_part_def hardware_part_def normal_raw_def)
  then show "PublicView (Some (normal_raw f)) = PublicView (Some f)"
    "HardwareView (Some (normal_raw f)) = HardwareView (Some f)"
    using public_view_part hardware_view_part by (metis, metis)
qed

text \<open>What any store that honours its contract is served as.\<close>

context facts_store
begin

lemma served_after_save:
  assumes "good db" and "storable f" and "before db (sf_ServerID f) (stamp now f)"
  shows "Routes (latest (fst (save now db (Some f)))) t (get_server (sf_ServerID f))
      = writeJSON StatusOK (public_json (PublicView (Some f)))
    \<and> Routes (latest (fst (save now db (Some f)))) t (get_hardware (sf_ServerID f))
      = writeJSON StatusOK (hardware_json (HardwareView (Some f)))"
  using assms save_latest [OF assms]
  by (simp add: Routes_get_server Routes_get_hardware handleGetServer_def handleGetServerHardware_def storable_def)

lemma others_served_as_before:
  assumes "good db" and "storable f" and "sid \<noteq> sf_ServerID f" and "sid \<noteq> []"
  shows "Routes (latest (fst (save now db (Some f)))) t (get_server sid) = Routes (latest db) t (get_server sid)"
  using assms save_other [OF assms(1-3)] by (simp add: Routes_get_server handleGetServer_def)

end


section \<open>Properties of the API\<close>


definition one_server :: "string \<Rightarrow> string + ServerFacts" where
  "one_server sid = (if sid = ''srv'' then Inr (view_sample [] [] None) else Inl ''none'')"


text \<open>
  C19. What is saved is what is served: after facts with a newer instant than all others of their
  server are saved, the API answers with the views of exactly these facts, and every other
  server is answered as before.
\<close>

theorem saved_facts_are_served:
  assumes "sql_good db" and "storable f" and "all_before db (sf_ServerID f) (stamp now f)"
    and "db' = fst (SaveFacts sound_driver now db (Some f))"
  shows "Routes (GetLatestFacts sound_driver db') t (get_server (sf_ServerID f))
      = writeJSON StatusOK (public_json (PublicView (Some f)))
    \<and> Routes (GetLatestFacts sound_driver db') t (get_hardware (sf_ServerID f))
      = writeJSON StatusOK (hardware_json (HardwareView (Some f)))
    \<and> (\<forall>sid. sid \<noteq> sf_ServerID f \<and> sid \<noteq> [] \<longrightarrow>
        Routes (GetLatestFacts sound_driver db') t (get_server sid) = Routes (GetLatestFacts sound_driver db) t (get_server sid))"
  unfolding assms(4) using sqlite.served_after_save [OF assms(1-3)] sqlite.others_served_as_before [OF assms(1,2)]
  by blast

theorem saved_facts_are_served_witness:
  "Routes (GetLatestFacts sound_driver (saved (sample_facts ''a'' 3 128) created_db)) (day 4) (get_server ''a'')
     = writeJSON StatusOK (public_json (PublicView (Some (sample_facts ''a'' 3 128))))"
proof -
  have st: "storable (sample_facts ''a'' 3 128)"
    by (simp add: sample_storable in_int64_def)
  have "sql_good created_db" "all_before created_db t u" for t u
    using created_db_good by (simp_all add: all_before_def)
  from saved_facts_are_served [OF this(1) st this(2) refl, of zero_time "day 4"] show ?thesis
    by (simp add: saved_def sample_facts_def)
qed

text \<open>
  End to end, internal detail never reaches a caller: facts that differ only in what the
  public view leaves out are served with byte-identical responses by \<open>GET /servers/{id}\<close>, from
  the save to the response body.
\<close>

lemma responses_hide_internals:
  assumes "sql_good db" and "storable f" and "storable g"
    and "public_part f = public_part g"
    and "all_before db (sf_ServerID f) (stamp now f)" and "all_before db (sf_ServerID g) (stamp now g)"
  shows "Routes (GetLatestFacts sound_driver (fst (SaveFacts sound_driver now db (Some f)))) t (get_server (sf_ServerID f))
    = Routes (GetLatestFacts sound_driver (fst (SaveFacts sound_driver now db (Some g)))) t (get_server (sf_ServerID f))"
proof -
  have "sf_ServerID f = sf_ServerID g"
    using arg_cong [OF assms(4), of sf_ServerID] by (simp add: public_part_def)
  moreover have "PublicView (Some f) = PublicView (Some g)"
    using public_view_part [of f] public_view_part [of g] assms(4) by simp
  ultimately show ?thesis
    using sqlite.served_after_save [OF assms(1,2,5), of t] sqlite.served_after_save [OF assms(1,3,6), of t] by simp
qed

end
