(* ===== verification/Scan.thy ===== *)
theory Scan
  imports Soundness Handlers
begin

text \<open>
  The command line of \<open>cmd/rewsr-maxfields/main.go\<close> and its \<open>scan\<close> command: choosing the command,
  the flags, the facts of one scan, the report and the JSON output.
\<close>


section \<open>The command line\<close>

datatype command = RunScan "string list" | RunServe | ShowUsage | UnknownCommand string

text \<open>The switch of \<open>main\<close> over the words after the program's name.\<close>

definition dispatch :: "string list \<Rightarrow> command" where
  "dispatch osargs =
     (let (cmd, args) =
        (case osargs of
           [] \<Rightarrow> (''scan'', [])
         | a # rest \<Rightarrow> if HasPrefix a ''-'' then (''scan'', osargs) else (a, rest))
      in if cmd = ''scan'' then RunScan args
         else if cmd = ''serve'' then RunServe
         else if cmd = ''-h'' \<or> cmd = ''--help'' \<or> cmd = ''help'' then ShowUsage
         else UnknownCommand cmd)"

text \<open>\<open>strconv.ParseBool\<close>.\<close>

definition ParseBool :: "string \<Rightarrow> bool option" where
  "ParseBool s =
     (if s \<in> {''1'', ''t'', ''T'', ''true'', ''TRUE'', ''True''} then Some True
      else if s \<in> {''0'', ''f'', ''F'', ''false'', ''FALSE'', ''False''} then Some False else None)"

text \<open>
  \<open>flag.FlagSet.Parse\<close> for the two boolean flags of a scan: a flag starts with one or two minus
  signs, its value may follow an equals sign, and the first word that is no flag, or \<open>--\<close>, ends
  the flags. \<open>ExitOnError\<close> makes \<open>Parse\<close> exit, with 0 for help and with 2 after an error.
\<close>

record scan_flags =
  fl_json :: bool
  fl_verbose :: bool

datatype flag_error = FlagSyntax string | FlagNotDefined string | FlagNotBoolean string string

datatype flag_outcome = Parsed scan_flags | HelpShown | FlagFailed flag_error

text \<open>A word that may be a flag: not one, the terminator, bad syntax, or a name with a value.\<close>

datatype flag_word = NoFlag | Terminator | BadSyntax | Flag string "string option"

definition flag_word :: "string \<Rightarrow> flag_word" where
  "flag_word s =
     (if length s < 2 \<or> hd s \<noteq> CHR ''-'' then NoFlag
      else if s = ''--'' then Terminator
      else let name = (if s ! 1 = CHR ''-'' then drop 2 s else drop 1 s)
           in if name = [] \<or> hd name = CHR ''-'' \<or> hd name = CHR ''='' then BadSyntax
              else case Cut name (CHR ''='') of (n, v, ok) \<Rightarrow> Flag n (if ok then Some v else None))"

definition set_flag :: "string \<Rightarrow> bool \<Rightarrow> scan_flags \<Rightarrow> scan_flags" where
  "set_flag name b fl = (if name = ''json'' then fl\<lparr>fl_json := b\<rparr> else fl\<lparr>fl_verbose := b\<rparr>)"

fun parse_flags :: "scan_flags \<Rightarrow> string list \<Rightarrow> flag_outcome" where
  "parse_flags fl [] = Parsed fl"
| "parse_flags fl (s # args) =
     (case flag_word s of
        NoFlag \<Rightarrow> Parsed fl
      | Terminator \<Rightarrow> Parsed fl
      | BadSyntax \<Rightarrow> FlagFailed (FlagSyntax s)
      | Flag name value \<Rightarrow>
          if name \<noteq> ''json'' \<and> name \<noteq> ''verbose'' then
            (if name = ''help'' \<or> name = ''h'' then HelpShown
             else FlagFailed (FlagNotDefined name))
          else case value of
            None \<Rightarrow> parse_flags (set_flag name True fl) args
          | Some v \<Rightarrow>
              (case ParseBool v of
                 None \<Rightarrow> FlagFailed (FlagNotBoolean name v)
               | Some b \<Rightarrow> parse_flags (set_flag name b fl) args))"

definition no_flags :: scan_flags where
  "no_flags = \<lparr>fl_json = False, fl_verbose = False\<rparr>"


section \<open>One scan\<close>

definition scan_host :: "string \<Rightarrow> string" where
  "scan_host hostname = (if hostname = [] then ''localhost'' else hostname)"

definition scan_facts :: "gotime \<Rightarrow> string \<Rightarrow> world \<Rightarrow> ServerFacts" where
  "scan_facts now hostname w =
     (let host = scan_host hostname
      in case fst (BuildServerFacts now host (scan_collectors w)) of
           None \<Rightarrow> zero_facts\<lparr>sf_ServerID := host\<rparr>
         | Some f \<Rightarrow> f)"


subsection \<open>The report\<close>

definition orNA :: "string \<Rightarrow> string" where
  "orNA s = (if s = [] then ''n/a'' else s)"

definition line :: "string \<Rightarrow> string" where
  "line s = s @ [CHR 0x0A]"

definition has_cpu :: "ServerFacts \<Rightarrow> bool" where
  "has_cpu f \<longleftrightarrow> cpu_Model (sf_CPU f) \<noteq> [] \<or> cpu_Cores (sf_CPU f) > 0"

definition hadHardware :: "ServerFacts \<Rightarrow> bool" where
  "hadHardware f \<longleftrightarrow> has_cpu f \<or> sf_MemoryGB f > 0 \<or> sf_Disks f \<noteq> [] \<or> sf_NICs f \<noteq> []"

definition cpu_line :: "CPUFacts \<Rightarrow> string" where
  "cpu_line c =
     line (''  CPU      '' @ cpu_Vendor c @ '' '' @ cpu_Model c @ ''  '' @ Itoa (cpu_Sockets c) @ ''S / ''
       @ Itoa (cpu_Cores c) @ ''C / '' @ Itoa (cpu_Threads c) @ ''T'')"

definition disk_line :: "DiskFacts \<Rightarrow> string" where
  "disk_line d =
     line (''  Disk     '' @ disk_Name d @ ''  '' @ orNA (disk_Type d) @ ''  '' @ Itoa (disk_SizeGB d) @ '' GB'')"

definition nic_line :: "NICFacts \<Rightarrow> string" where
  "nic_line n =
     line (''  NIC      '' @ nic_Name n @ ''  '' @ Itoa (nic_SpeedGbps n) @ '' Gbps  '' @ orNA (nic_Driver n)
       @ (if nic_Features n = [] then [] else ''  ['' @ Join (nic_Features n) '' '' @ '']''))"

definition capability_lines :: "ServerFacts \<Rightarrow> string" where
  "capability_lines f =
     (if sf_Capabilities f = [] then
        line ''  Capabilities  none detected (this tool targets bare-metal Linux;''
        @ line ''                run it on the real host to see RDMA, NUMA, GPU, and more)''
      else line (''  Capabilities  '' @ Join (sort_Strings (sf_Capabilities f)) ''  ''))"

definition printFactsReport :: "ServerFacts \<Rightarrow> string" where
  "printFactsReport f =
     line (''rewsr-maxfields  '' @ sf_ServerID f)
     @ line (''  scanned '' @ format_seconds (sf_ObservedAt f) @ ''   health='' @ orNA (sf_Health f))
     @ (if hadHardware f then line [] else [])
     @ (if has_cpu f then cpu_line (sf_CPU f) else [])
     @ (if sf_MemoryGB f > 0 then line (''  Memory   '' @ Itoa (sf_MemoryGB f) @ '' GB'') else [])
     @ concat (map disk_line (sf_Disks f))
     @ concat (map nic_line (sf_NICs f))
     @ line []
     @ capability_lines f
     @ (if sf_NetworkModes f \<noteq> [] then line (''  Network       '' @ Join (sf_NetworkModes f) ''  '') else [])
     @ line []"


subsection \<open>JSON\<close>

text \<open>
  The text of an \<open>Encoder\<close> with two blanks of indentation per level: empty arrays and objects stay
  closed, every other element and member stands on a line of its own.
\<close>

definition new_line :: "nat \<Rightarrow> string" where
  "new_line depth = CHR 0x0A # concat (replicate depth ''  '')"

fun indented :: "nat \<Rightarrow> json \<Rightarrow> string" where
  "indented d (JArr vs) =
     (if vs = [] then ''[]''
      else [CHR 0x5B] @ new_line (Suc d) @ Join (map (indented (Suc d)) vs) (CHR '','' # new_line (Suc d))
        @ new_line d @ [CHR 0x5D])"
| "indented d (JObj kvs) =
     (if kvs = [] then [CHR 0x7B, CHR 0x7D]
      else [CHR 0x7B] @ new_line (Suc d)
        @ Join (map (\<lambda>kv. quoted (fst kv) @ '': '' @ indented (Suc d) (snd kv)) kvs) (CHR '','' # new_line (Suc d))
        @ new_line d @ [CHR 0x7D])"
| "indented d v = print_json v"

text \<open>
  What a run of the program leaves: its output, what it says on the error output, apart from the
  log, and its exit status.
\<close>

datatype message = UsageText | FlagUsage | FlagMessage flag_error | EncodeFailed string | CommandUnknown string

record process =
  pr_stdout :: string
  pr_stderr :: "message list"
  pr_status :: int

definition printJSON :: "ServerFacts \<Rightarrow> process" where
  "printJSON f =
     (case marshal_facts f of
        Inl e \<Rightarrow> \<lparr>pr_stdout = [], pr_stderr = [EncodeFailed e], pr_status = 1\<rparr>
      | Inr _ \<Rightarrow> \<lparr>pr_stdout = line (indented 0 (facts_json f)), pr_stderr = [], pr_status = 0\<rparr>)"

definition runScan :: "gotime \<Rightarrow> string \<Rightarrow> world \<Rightarrow> string list \<Rightarrow> process" where
  "runScan now hostname w args =
     (case parse_flags no_flags args of
        HelpShown \<Rightarrow> \<lparr>pr_stdout = [], pr_stderr = [FlagUsage], pr_status = 0\<rparr>
      | FlagFailed e \<Rightarrow> \<lparr>pr_stdout = [], pr_stderr = [FlagMessage e, FlagUsage], pr_status = 2\<rparr>
      | Parsed fl \<Rightarrow>
          let f = scan_facts now hostname w
          in if fl_json fl then printJSON f
             else \<lparr>pr_stdout = printFactsReport f, pr_stderr = [], pr_status = 0\<rparr>)"

datatype program = Finished process | Serving

definition run_main :: "gotime \<Rightarrow> string \<Rightarrow> world \<Rightarrow> string list \<Rightarrow> program" where
  "run_main now hostname w osargs =
     (case dispatch osargs of
        RunScan args \<Rightarrow> Finished (runScan now hostname w args)
      | RunServe \<Rightarrow> Serving
      | ShowUsage \<Rightarrow> Finished \<lparr>pr_stdout = [], pr_stderr = [UsageText], pr_status = 0\<rparr>
      | UnknownCommand cmd \<Rightarrow> Finished \<lparr>pr_stdout = [], pr_stderr = [CommandUnknown cmd, UsageText], pr_status = 1\<rparr>)"


section \<open>Lemmas on the command line\<close>

text \<open>
  A word that starts with a minus sign is never taken as the command, so only the word \<open>help\<close> shows
  the usage text and succeeds: \<open>-h\<close> and \<open>--help\<close> are flags of a scan.
\<close>

lemma dispatch_cases:
  "dispatch (a # rest) =
     (if HasPrefix a ''-'' then RunScan (a # rest)
      else if a = ''scan'' then RunScan rest else if a = ''serve'' then RunServe
      else if a = ''help'' then ShowUsage else UnknownCommand a)"
proof (cases "HasPrefix a ''-''")
  case False
  moreover have "HasPrefix ''-h'' ''-'' \<and> HasPrefix ''--help'' ''-''"
    by code_simp
  ultimately have "a \<noteq> ''-h'' \<and> a \<noteq> ''--help''"
    by metis
  with False show ?thesis
    by (simp add: dispatch_def Let_def)
qed (simp add: dispatch_def Let_def)

lemma dispatch_Nil: "dispatch [] = RunScan []"
  by (simp add: dispatch_def)

lemma usage_only_help: "dispatch osargs = ShowUsage \<longleftrightarrow> (\<exists>rest. osargs = ''help'' # rest)"
proof (cases osargs)
  case (Cons a rest)
  have "\<not> HasPrefix ''help'' ''-''"
    by code_simp
  with Cons show ?thesis
    by (auto simp: dispatch_cases)
qed (simp add: dispatch_Nil)

lemma dash_help_is_a_scan_flag:
  "run_main now hostname w [''--help''] = Finished \<lparr>pr_stdout = [], pr_stderr = [FlagUsage], pr_status = 0\<rparr>"
  "run_main now hostname w [''-h''] = Finished \<lparr>pr_stdout = [], pr_stderr = [FlagUsage], pr_status = 0\<rparr>"
proof -
  have "dispatch [''--help''] = RunScan [''--help''] \<and> dispatch [''-h''] = RunScan [''-h'']
      \<and> parse_flags no_flags [''--help''] = HelpShown \<and> parse_flags no_flags [''-h''] = HelpShown"
    by code_simp
  then show "run_main now hostname w [''--help''] = Finished \<lparr>pr_stdout = [], pr_stderr = [FlagUsage], pr_status = 0\<rparr>"
    "run_main now hostname w [''-h''] = Finished \<lparr>pr_stdout = [], pr_stderr = [FlagUsage], pr_status = 0\<rparr>"
    by (simp_all add: run_main_def runScan_def)
qed


section \<open>Lemmas on the scan\<close>

definition scan_labels :: "string list list" where
  "scan_labels = [''linux_host''] # map (\<lambda>l. [l]) wave2_labels"

lemma scan_answers: "list_all2 answers (scan_collectors w) scan_labels"
  using collectors_answer by (simp add: scan_collectors_def Wave2Collectors_def scan_labels_def wave2_labels_def Let_def)

text \<open>A scan always has facts, so the record it falls back to is never printed.\<close>

lemma scan_build: "\<exists>f. BuildServerFacts now sid (scan_collectors w) = (Some f, None)"
proof -
  have "contributions sid (scan_collectors w) \<noteq> []"
    unfolding contributions_answering [OF scan_answers] by (simp add: scan_collectors_def Let_def)
  then show ?thesis
    by (simp add: BuildServerFacts_eq)
qed

lemma scan_facts_built:
  "BuildServerFacts now (scan_host hostname) (scan_collectors w) = (Some (scan_facts now hostname w), None)"
  using scan_build [of now "scan_host hostname" w] by (auto simp: scan_facts_def Let_def)

lemma scan_power_unknown: "sf_Provisioning (scan_facts now hostname w) = []"
proof -
  have "sf_Provisioning (scan_facts now hostname w) =
      first_set [] (map (\<lambda>c. sf_Provisioning (reported c (scan_host hostname))) (scan_collectors w))"
    using build_Some [OF scan_facts_built]
    by (simp add: finish_build_keeps merged_fields build_start_zero contributions_answering [OF scan_answers] comp_def)
  then show ?thesis
    by (simp add: scan_collectors_def Wave2Collectors_def Let_def reported_simps)
qed


section \<open>Indented JSON\<close>

lemma new_line_blank: "list_all json_space (new_line d)"
  by (induction d) (simp_all add: new_line_def json_space_def)

lemma lex_new_line: "lex (new_line d @ s) = lex s"
  by (rule lex_blank [OF new_line_blank])

lemma stops_new_line [simp]: "stops (new_line d @ s)"
  by (simp add: new_line_def stops_def num_char_def)

text \<open>The indentation changes nothing the scanner sees.\<close>

lemma lex_indented:
  "json_ok v \<Longrightarrow> stops s \<Longrightarrow> lex (indented d v @ s) = map_option ((@) (toks v)) (lex s)"
proof (induction d v arbitrary: s rule: indented.induct)
  case (1 d vs)
  show ?case
  proof (cases "vs = []")
    case False
    have "lex (Join (map (indented (Suc d)) vs) (CHR '','' # new_line (Suc d)) @ new_line d @ [CHR 0x5D] @ s)
        = map_option ((@) (sep_toks (map toks vs))) (lex (new_line d @ [CHR 0x5D] @ s))"
    proof (rule lex_Join_blank [OF _ stops_new_line new_line_blank])
      fix x s'
      assume "x \<in> set vs" and "stops s'"
      with 1 False show "lex (indented (Suc d) x @ s') = map_option ((@) (toks x)) (lex s')"
        by (auto simp: list_all_iff)
    qed
    with False show ?thesis
      by (cases "lex s") (simp_all add: lex_punct lex_new_line)
  qed (cases "lex s"; simp add: lex_punct)
next
  case (2 d kvs)
  show ?case
  proof (cases "kvs = []")
    case False
    have "lex (Join (map (\<lambda>kv. quoted (fst kv) @ '': '' @ indented (Suc d) (snd kv)) kvs) (CHR '','' # new_line (Suc d))
          @ new_line d @ [CHR 0x7D] @ s)
        = map_option ((@) (sep_toks (map (\<lambda>kv. TStr (fst kv) # TColon # toks (snd kv)) kvs))) (lex (new_line d @ [CHR 0x7D] @ s))"
    proof (rule lex_Join_blank [OF _ stops_new_line new_line_blank])
      fix kv s'
      assume kv: "kv \<in> set kvs" and "stops s'"
      with 2 False have "lex (indented (Suc d) (snd kv) @ s') = map_option ((@) (toks (snd kv))) (lex s')"
        by (auto simp: list_all_iff)
      moreover have "lex (CHR '' '' # t) = lex t" for t
        using lex_blank [of "'' ''" t] by (simp add: json_space_def)
      ultimately show "lex ((quoted (fst kv) @ '': '' @ indented (Suc d) (snd kv)) @ s')
          = map_option ((@) (TStr (fst kv) # TColon # toks (snd kv))) (lex s')"
        using 2 kv by (cases "lex s'") (auto simp: list_all_iff lex_quoted lex_punct)
    qed
    with False show ?thesis
      by (cases "lex s") (simp_all add: lex_punct lex_new_line)
  qed (cases "lex s"; simp add: lex_punct)
qed (simp_all only: indented.simps lex_print)

lemma parse_indented: "json_ok v \<Longrightarrow> parse_json (line (indented 0 v)) = Some v"
proof -
  assume "json_ok v"
  moreover have "stops [CHR 0x0A]" "lex [CHR 0x0A] = Some []"
    using lex_blank [of "[CHR 0x0A]" "[]"] by (simp_all add: json_space_def stops_def num_char_def)
  ultimately have "lex (line (indented 0 v)) = Some (toks v)"
    by (simp add: line_def lex_indented)
  then show ?thesis
    using prun_value [of "[]" v "[]"] by (simp add: parse_json_def parse_tokens_def)
qed


section \<open>Properties of the scan\<close>

lemma printJSON_ok: "facts_ok f \<Longrightarrow> pr_status (printJSON f) = 0 \<and> unmarshal_facts (pr_stdout (printJSON f)) = Some (normal_raw f)"
  by (simp add: printJSON_def marshal_ok unmarshal_facts_def parse_indented json_ok_facts dec_facts_json)

lemma scan_facts_ok:
  assumes "sound_machine w" and "valid_utf8 hostname" and "valid_time now"
  shows "facts_ok (scan_facts now hostname w)"
proof -
  have host: "valid_utf8 (scan_host hostname)"
    using assms(2) valid_utf8_plain [of "''localhost''"] by (simp add: scan_host_def ascii_def byte_in_def)
  have "\<forall>c\<in>set (scan_collectors w). facts_ok (reported c (scan_host hostname))"
    using wave2_reports_ok [OF assms(1) host] host_reports_ok [OF assms(1) host] by (auto simp: scan_collectors_def Let_def)
  then have "\<forall>g\<in>set (contributions (scan_host hostname) (scan_collectors w)). facts_ok g"
    unfolding contributions_answering [OF scan_answers] by auto
  with build_ok [OF scan_facts_built host assms(3)] show ?thesis
    by blast
qed



end
