(* ===== verification/Durations.thy ===== *)
theory Durations
  imports Float64 Go_Strings
begin

text \<open>
  \<open>time.ParseDuration\<close>, which \<open>envDuration\<close> of \<open>cmd/rewsr-maxfields/main.go\<close> reads the refresh
  interval with: a sequence of decimal numbers with units, in nanoseconds. The counters are
  \<open>uint64\<close>, the fraction is computed in \<open>float64\<close>.
\<close>

definition max_uint63 :: int where
  "max_uint63 = 2 ^ 63"

text \<open>\<open>leadingInt\<close>: the value of the leading digits and the rest, unless it overflows.\<close>

fun leadingInt :: "int \<Rightarrow> string \<Rightarrow> (int \<times> string) option" where
  "leadingInt x [] = Some (x, [])"
| "leadingInt x (c # s) =
     (if \<not> is_digit c then Some (x, c # s)
      else if x > max_uint63 div 10 then None
      else if x * 10 + digit_val c > max_uint63 then None
      else leadingInt (x * 10 + digit_val c) s)"

text \<open>\<open>leadingFraction\<close>: further digits are dropped once the counter would overflow.\<close>

fun leadingFraction :: "bool \<Rightarrow> int \<Rightarrow> int \<Rightarrow> string \<Rightarrow> int \<times> int \<times> string" where
  "leadingFraction full x scale [] = (x, scale, [])"
| "leadingFraction full x scale (c # s) =
     (if \<not> is_digit c then (x, scale, c # s)
      else if full \<or> x > (max_uint63 - 1) div 10 \<or> x * 10 + digit_val c > max_uint63 then leadingFraction True x scale s
      else leadingFraction False (x * 10 + digit_val c) (scale * 10) s)"

text \<open>The nanoseconds of a unit; both spellings of the micro sign count.\<close>

definition unit_ns :: "string \<Rightarrow> int option" where
  "unit_ns =
     map_of [(''ns'', 1), (''us'', 1000), ([CHR 0xC2, CHR 0xB5, CHR ''s''], 1000),
       ([CHR 0xCE, CHR 0xBC, CHR ''s''], 1000), (''ms'', 1000000), (''s'', 1000000000),
       (''m'', 60 * 1000000000), (''h'', 3600 * 1000000000)]"

definition fmul :: "float64 \<Rightarrow> float64 \<Rightarrow> float64" where
  "fmul a b =
     (case (a, b) of
        (Finite s m e, Finite t n d) \<Rightarrow>
          (case scaled (m * n) 1 (- (e + d)) of (p, q) \<Rightarrow>
             (case round_float (s \<noteq> t) p q of Some f \<Rightarrow> f | None \<Rightarrow> Infinite (s \<noteq> t)))
      | _ \<Rightarrow> NaN)"

definition nearest :: "int \<Rightarrow> int \<Rightarrow> float64" where
  "nearest p q = (case round_float False p q of Some f \<Rightarrow> f | None \<Rightarrow> Infinite False)"

definition truncated :: "float64 \<Rightarrow> int" where
  "truncated f = (case f of Finite _ m e \<Rightarrow> if 0 \<le> e then m * 2 ^ nat e else m div 2 ^ nat (- e) | _ \<Rightarrow> 0)"

text \<open>\<open>uint64(float64(f) * (float64(unit) / scale))\<close>; the factors and the product are finite here.\<close>

definition fraction_ns :: "int \<Rightarrow> int \<Rightarrow> int \<Rightarrow> int" where
  "fraction_ns f unit scale = truncated (fmul (nearest f 1) (nearest unit scale))"

definition unit_end :: "char \<Rightarrow> bool" where
  "unit_end c \<longleftrightarrow> c = CHR ''.'' \<or> is_digit c"

text \<open>What follows the digits: a fraction, its scale, the rest, and whether the point had digits.\<close>

definition fraction_part :: "string \<Rightarrow> int \<times> int \<times> string \<times> bool" where
  "fraction_part s =
     (if s \<noteq> [] \<and> hd s = CHR ''.'' then
        (case leadingFraction False 0 1 (tl s) of (f, scale, r) \<Rightarrow> (f, scale, r, length r \<noteq> length (tl s)))
      else (0, 1, s, False))"

text \<open>One number with its unit: its nanoseconds and the rest of the text.\<close>

definition duration_term :: "string \<Rightarrow> (int \<times> string) option" where
  "duration_term s =
     (if s = [] \<or> \<not> unit_end (hd s) then None
      else case leadingInt 0 s of
        None \<Rightarrow> None
      | Some (v, s1) \<Rightarrow>
          let pre = length s1 \<noteq> length s;
              (f, scale, s2, post) = fraction_part s1;
              u = takeWhile (\<lambda>c. \<not> unit_end c) s2
          in if \<not> pre \<and> \<not> post then None
             else if u = [] then None
             else case unit_ns u of
               None \<Rightarrow> None
             | Some unit \<Rightarrow>
                 if v > max_uint63 div unit then None
                 else let v = (if f > 0 then v * unit + fraction_ns f unit scale else v * unit)
                      in if v > max_uint63 then None else Some (v, drop (length u) s2))"

lemma leadingInt_shorter: "leadingInt x s = Some (v, r) \<Longrightarrow> length r \<le> length s"
  by (induction x s rule: leadingInt.induct) (auto split: if_splits)

lemma leadingFraction_shorter: "leadingFraction full x scale s = (f, c, r) \<Longrightarrow> length r \<le> length s"
  by (induction full x scale s rule: leadingFraction.induct) (auto split: if_splits)

lemma duration_term_shorter:
  assumes "duration_term s = Some (v, r)"
  shows "length r < length s"
proof -
  obtain n s1 where n: "leadingInt 0 s = Some (n, s1)"
    using assms by (auto simp: duration_term_def split: if_splits option.splits)
  obtain f c s2 post where q: "fraction_part s1 = (f, c, s2, post)"
    by (cases "fraction_part s1") auto
  then have "length s2 \<le> length s1"
    using leadingFraction_shorter [of False 0 1 "tl s1"]
    by (fastforce simp: fraction_part_def split: if_splits prod.splits)
  moreover have "takeWhile (\<lambda>c. \<not> unit_end c) s2 \<noteq> []" "r = drop (length (takeWhile (\<lambda>c. \<not> unit_end c) s2)) s2"
    using assms unfolding duration_term_def n
    by (auto simp: q Let_def split: if_splits option.splits)
  moreover have "length s1 \<le> length s"
    by (rule leadingInt_shorter [OF n])
  ultimately show ?thesis
    by (cases s2) (auto simp: length_greater_0_conv)
qed

text \<open>The sum, in \<open>uint64\<close>, of the terms.\<close>

function duration_sum :: "int \<Rightarrow> string \<Rightarrow> int option" where
  "duration_sum d s =
     (if s = [] then Some d
      else case duration_term s of
        None \<Rightarrow> None
      | Some (v, r) \<Rightarrow>
          let d = (d + v) mod 2 ^ 64
          in if d > max_uint63 then None else duration_sum d r)"
  by pat_completeness auto
termination
  by (relation "measure (\<lambda>(d, s). length s)") (auto dest: duration_term_shorter)

declare duration_sum.simps [simp del]

definition ParseDuration :: "string \<Rightarrow> int option" where
  "ParseDuration s =
     (case sign_of s of (neg, r) \<Rightarrow>
        if r = ''0'' then Some 0
        else if r = [] then None
        else case duration_sum 0 r of
          None \<Rightarrow> None
        | Some d \<Rightarrow> if neg then Some (- d) else if d > max_uint63 - 1 then None else Some d)"


section \<open>Bounds\<close>

lemma duration_sum_range: "0 \<le> d \<Longrightarrow> d \<le> max_uint63 \<Longrightarrow> duration_sum d s = Some e \<Longrightarrow> 0 \<le> e \<and> e \<le> max_uint63"
proof (induction d s rule: duration_sum.induct)
  case (1 d s)
  show ?case
  proof (cases "s = []")
    case True
    with 1 show ?thesis by (simp add: duration_sum.simps [of d "[]"])
  next
    case False
    with "1.prems"(3) obtain v r where t: "duration_term s = Some (v, r)"
      and le: "(d + v) mod 2 ^ 64 \<le> max_uint63" and e: "duration_sum ((d + v) mod 2 ^ 64) r = Some e"
      by (auto simp: duration_sum.simps [of d s] Let_def split: option.splits if_splits)
    show ?thesis
      by (rule "1.IH" [OF False t _ refl]) (use le e in auto)
  qed
qed

text \<open>A duration is always an \<open>int64\<close>.\<close>

lemma ParseDuration_range: "ParseDuration s = Some d \<Longrightarrow> in_int64 d"
proof -
  have "\<And>e r. duration_sum 0 r = Some e \<Longrightarrow> 0 \<le> e \<and> e \<le> max_uint63"
    by (rule duration_sum_range) (simp_all add: max_uint63_def)
  then show "ParseDuration s = Some d \<Longrightarrow> ?thesis"
    by (force simp: ParseDuration_def in_int64_def max_uint63_def split: prod.splits option.splits if_splits)
qed

end
