(* ===== verification/Serve.thy ===== *)
theory Serve
  imports Scan Durations
begin

text \<open>
  The \<open>serve\<close> command of \<open>cmd/rewsr-maxfields/main.go\<close>: its settings, the start-up with the seeding of
  demo provisioning records, and the running program, in which the refresher, the HTTP server and the
  shutdown interleave.
\<close>


section \<open>Settings\<close>

definition second :: int where
  "second = 1000000000"

definition envDuration :: "environment \<Rightarrow> string \<Rightarrow> int \<Rightarrow> int" where
  "envDuration getenv key fallback =
     (let v = getenv key
      in if v = [] then fallback else case ParseDuration v of None \<Rightarrow> fallback | Some d \<Rightarrow> d)"

definition envServerIDs :: "environment \<Rightarrow> string list" where
  "envServerIDs getenv =
     (let v = getenv ''REWSR_MAXFIELDS_SERVER_IDS''
      in if v = [] then [''demo-server-1''] else filter (\<lambda>sid. sid \<noteq> []) (map TrimSpace (Split v (CHR '',''))))"

record settings =
  cfg_dbPath :: string
  cfg_addr :: string
  cfg_interval :: int
  cfg_serverIDs :: "string list"

definition settings_of :: "environment \<Rightarrow> settings" where
  "settings_of getenv =
     \<lparr>cfg_dbPath = envOr getenv ''REWSR_MAXFIELDS_DB_PATH'' ''./rewsr-maxfields.db'',
      cfg_addr = '':'' @ envOr getenv ''PORT'' ''8080'',
      cfg_interval = envDuration getenv ''REWSR_MAXFIELDS_REFRESH_INTERVAL'' (60 * second),
      cfg_serverIDs = envServerIDs getenv\<rparr>"


section \<open>Start-up\<close>

text \<open>What seeding one server meets: the driver of its query and of its write, and the clock.\<close>

record seed_moment =
  se_get :: driver
  se_set :: driver
  se_now :: gotime

definition seed_one :: "seed_moment \<Rightarrow> string \<Rightarrow> database \<Rightarrow> database" where
  "seed_one m sid db =
     (case GetProvisioning (se_get m) db sid of
        Inl _ \<Rightarrow> fst (SetProvisioning (se_set m) (se_now m) db sid ''provisioned'' ''demo-fd-1'')
      | Inr _ \<Rightarrow> db)"

fun seed :: "(nat \<Rightarrow> seed_moment) \<Rightarrow> nat \<Rightarrow> string list \<Rightarrow> database \<Rightarrow> database" where
  "seed ms n [] db = db"
| "seed ms n (sid # sids) db = seed ms (Suc n) sids (seed_one (ms n) sid db)"

record startup =
  su_open :: "open_fault option"
  su_facts :: driver
  su_prov :: driver
  su_seed :: "nat \<Rightarrow> seed_moment"

definition prepare :: "startup \<Rightarrow> settings \<Rightarrow> database \<Rightarrow> database \<times> string option" where
  "prepare su c db =
     (case Open (su_open su) (cfg_dbPath c) db of
        Inl e \<Rightarrow> (db, Some e)
      | Inr db \<Rightarrow>
          (case NewSQLiteStore (su_facts su) db of
             (db, Some e) \<Rightarrow> (db, Some e)
           | (db, None) \<Rightarrow>
               (case NewSQLiteProvisioningStore (su_prov su) db of
                  (db, Some e) \<Rightarrow> (db, Some e)
                | (db, None) \<Rightarrow> (seed (su_seed su) 0 (cfg_serverIDs c) db, None))))"

text \<open>
  What the refresh of one server meets in the serving program: the machine, the drivers of the
  provisioning query and of the save, and the clock.
\<close>

record host_moment =
  ho_world :: world
  ho_query :: driver
  ho_save :: driver
  ho_now :: gotime

definition serving_env :: "environment \<Rightarrow> (nat \<Rightarrow> host_moment) \<Rightarrow> nat \<Rightarrow> moment" where
  "serving_env getenv host n =
     \<lparr>mo_collectors = (\<lambda>db. buildCollectors getenv (ho_query (host n)) db (ho_world (host n))),
      mo_now = ho_now (host n), mo_driver = ho_save (host n)\<rparr>"


section \<open>The running program\<close>

text \<open>
  The refresher's goroutine is in its first batch, receives, or has returned; the HTTP server
  listens, was shut down, or failed to listen; the process runs, returned from \<open>runServe\<close> with or
  without an error, or crashed in a panic.
\<close>

datatype refresher_phase = FirstBatch | Selecting | Stopped

datatype listener = Listening | ShutDown | ListenFailed string

datatype ending = Running | Exited "string option" | Crashed

record serving =
  sg_refresh :: refresh_state
  sg_batch :: "string list"
  sg_phase :: refresher_phase
  sg_cancelled :: bool
  sg_listener :: listener
  sg_inflight :: "request list"
  sg_responses :: "(request \<times> response) list"
  sg_end :: ending

definition serve_initial :: "database \<Rightarrow> string list \<Rightarrow> serving" where
  "serve_initial db ids =
     \<lparr>sg_refresh = fresh_state db, sg_batch = ids, sg_phase = FirstBatch, sg_cancelled = False, sg_listener = Listening,
      sg_inflight = [], sg_responses = [], sg_end = Running\<rparr>"

definition runServe :: "environment \<Rightarrow> startup \<Rightarrow> database \<Rightarrow> string + serving" where
  "runServe getenv su db =
     (let c = settings_of getenv
      in case prepare su c db of
           (_, Some e) \<Rightarrow> Inl e
         | (db, None) \<Rightarrow> Inr (serve_initial db (cfg_serverIDs c)))"

text \<open>
  One step: the refresh of one server, the ticker after the first batch, a tick or the end of the
  refresher, a request that arrives or is answered, the signal, the shutdown, an error of
  \<open>ListenAndServe\<close>, and the return of \<open>runServe\<close>. A handler reads the database the refresher
  writes, through any driver; requests that were accepted before the shutdown may still be answered,
  but \<open>ListenAndServe\<close> returns at once and nobody waits for \<open>Shutdown\<close>.
\<close>

datatype label =
    RefreshServer | ArmTicker | TickReceived | StopRefresher
  | Accept request | Answer | Interrupt | ShutServer | ListenError string | Return

inductive serve_step :: "(nat \<Rightarrow> moment) \<Rightarrow> int \<Rightarrow> string list \<Rightarrow> serving \<Rightarrow> label \<Rightarrow> serving \<Rightarrow> bool"
  for env interval ids where
  refresh_server:
    "sg_end s = Running \<Longrightarrow> sg_batch s = sid # rest \<Longrightarrow>
     serve_step env interval ids s RefreshServer (s\<lparr>sg_refresh := refresh_one env (sg_refresh s) sid, sg_batch := rest\<rparr>)"
| arm_ticker:
    "sg_end s = Running \<Longrightarrow> sg_batch s = [] \<Longrightarrow> sg_phase s = FirstBatch \<Longrightarrow> 0 < interval \<Longrightarrow>
     serve_step env interval ids s ArmTicker (s\<lparr>sg_phase := Selecting\<rparr>)"
| ticker_panics:
    "sg_end s = Running \<Longrightarrow> sg_batch s = [] \<Longrightarrow> sg_phase s = FirstBatch \<Longrightarrow> interval \<le> 0 \<Longrightarrow>
     serve_step env interval ids s ArmTicker (s\<lparr>sg_end := Crashed\<rparr>)"
| tick:
    "sg_end s = Running \<Longrightarrow> sg_batch s = [] \<Longrightarrow> sg_phase s = Selecting \<Longrightarrow>
     serve_step env interval ids s TickReceived (s\<lparr>sg_batch := ids\<rparr>)"
| stop_refresher:
    "sg_end s = Running \<Longrightarrow> sg_batch s = [] \<Longrightarrow> sg_phase s = Selecting \<Longrightarrow> sg_cancelled s \<Longrightarrow>
     serve_step env interval ids s StopRefresher (s\<lparr>sg_phase := Stopped\<rparr>)"
| accept_request:
    "sg_end s = Running \<Longrightarrow> sg_listener s = Listening \<Longrightarrow>
     serve_step env interval ids s (Accept r) (s\<lparr>sg_inflight := sg_inflight s @ [r]\<rparr>)"
| answer_request:
    "sg_end s = Running \<Longrightarrow> sg_inflight s = before @ r # after \<Longrightarrow>
     serve_step env interval ids s Answer
       (s\<lparr>sg_inflight := before @ after,
          sg_responses := sg_responses s @ [(r, Routes (GetLatestFacts d (re_db (sg_refresh s))) now r)]\<rparr>)"
| signal_arrives:
    "sg_end s = Running \<Longrightarrow> \<not> sg_cancelled s \<Longrightarrow>
     serve_step env interval ids s Interrupt (s\<lparr>sg_cancelled := True\<rparr>)"
| shut_server:
    "sg_end s = Running \<Longrightarrow> sg_listener s = Listening \<Longrightarrow> sg_cancelled s \<Longrightarrow>
     serve_step env interval ids s ShutServer (s\<lparr>sg_listener := ShutDown\<rparr>)"
| listen_error:
    "sg_end s = Running \<Longrightarrow> sg_listener s = Listening \<Longrightarrow>
     serve_step env interval ids s (ListenError e) (s\<lparr>sg_listener := ListenFailed e\<rparr>)"
| return_shut:
    "sg_end s = Running \<Longrightarrow> sg_listener s = ShutDown \<Longrightarrow>
     serve_step env interval ids s Return (s\<lparr>sg_end := Exited None\<rparr>)"
| return_error:
    "sg_end s = Running \<Longrightarrow> sg_listener s = ListenFailed e \<Longrightarrow>
     serve_step env interval ids s Return (s\<lparr>sg_end := Exited (Some e)\<rparr>)"

inductive serve_run :: "(nat \<Rightarrow> moment) \<Rightarrow> int \<Rightarrow> string list \<Rightarrow> serving \<Rightarrow> label list \<Rightarrow> serving \<Rightarrow> bool"
  for env interval ids where
  run_none: "serve_run env interval ids s [] s"
| run_step:
    "serve_run env interval ids s ls t \<Longrightarrow> serve_step env interval ids t l u \<Longrightarrow> serve_run env interval ids s (ls @ [l]) u"

inductive_cases serve_stepE: "serve_step env interval ids s l t"

text \<open>\<open>log.Fatal\<close> exits with 1, a panic with 2.\<close>

definition exit_status :: "ending \<Rightarrow> int option" where
  "exit_status e =
     (case e of Running \<Rightarrow> None | Exited None \<Rightarrow> Some 0 | Exited (Some _) \<Rightarrow> Some 1 | Crashed \<Rightarrow> Some 2)"


section \<open>Lemmas on the settings\<close>

lemma envDuration_range: "in_int64 fallback \<Longrightarrow> in_int64 (envDuration getenv key fallback)"
  using ParseDuration_range by (simp add: envDuration_def Let_def split: option.split)

lemma server_ids_named: "[] \<notin> set (envServerIDs getenv)"
  by (auto simp: envServerIDs_def Let_def)

text \<open>An interval of zero is read as such, and then the refresher panics at its ticker.\<close>

lemma zero_interval: "cfg_interval (settings_of (\<lambda>k. if k = ''REWSR_MAXFIELDS_REFRESH_INTERVAL'' then ''0'' else [])) = 0"
proof -
  have "ParseDuration ''0'' = Some 0"
    by code_simp
  then show ?thesis
    by (simp add: settings_of_def envDuration_def)
qed


section \<open>Lemmas on the seeding\<close>

definition seed_sound :: "seed_moment \<Rightarrow> bool" where
  "seed_sound m \<longleftrightarrow> faultless (se_get m) \<and> faultless (se_set m)"

lemma seed_one_record:
  assumes "prov_good db" and "seed_sound m" and "sid \<noteq> []"
  shows "prov_good (seed_one m sid db)
    \<and> prov_record (seed_one m sid db) =
        (if prov_record db sid = None then (prov_record db)(sid \<mapsto> (''provisioned'', ''demo-fd-1'')) else prov_record db)
    \<and> db_facts (seed_one m sid db) = db_facts db"
proof (cases "prov_record db sid")
  case None
  then have "seed_one m sid db = fst (SetProvisioning (se_set m) (se_now m) db sid ''provisioned'' ''demo-fd-1'')"
    using assms by (simp add: seed_one_def GetProvisioning_record seed_sound_def prov_good_def)
  then show ?thesis
    using SetProvisioning_record [OF assms(1) _ assms(3), of "se_set m" "se_now m"] None assms(2)
    by (simp add: seed_sound_def)
next
  case (Some p)
  then show ?thesis
    using assms by (simp add: seed_one_def GetProvisioning_record seed_sound_def prov_good_def)
qed

lemma seed_record:
  "prov_good db \<Longrightarrow> \<forall>n. seed_sound (ms n) \<Longrightarrow> [] \<notin> set ids \<Longrightarrow>
     prov_good (seed ms n ids db)
     \<and> prov_record (seed ms n ids db) =
         (\<lambda>sid. case prov_record db sid of
            Some p \<Rightarrow> Some p
          | None \<Rightarrow> if sid \<in> set ids then Some (''provisioned'', ''demo-fd-1'') else None)
     \<and> db_facts (seed ms n ids db) = db_facts db"
proof (induction ids arbitrary: n db)
  case Nil
  then show ?case by (auto simp: fun_eq_iff split: option.split)
next
  case (Cons sid ids)
  have one: "prov_good (seed_one (ms n) sid db)"
    "prov_record (seed_one (ms n) sid db) =
        (if prov_record db sid = None then (prov_record db)(sid \<mapsto> (''provisioned'', ''demo-fd-1'')) else prov_record db)"
    "db_facts (seed_one (ms n) sid db) = db_facts db"
    using seed_one_record [of db "ms n" sid] Cons.prems by auto
  from Cons.IH [OF one(1), of "Suc n"] Cons.prems one(2,3) show ?case
    by (auto simp: fun_eq_iff split: option.split)
qed

text \<open>
  A query that fails for any other reason than a missing record is taken for one: the real record is
  replaced by the demo record.
\<close>

lemma seed_overwrites_on_fault:
  assumes "prov_good db" and "faultless (se_set m)" and "exec_fault (se_get m) = Some e" and "sid \<noteq> []"
  shows "prov_record (seed_one m sid db) sid = Some (''provisioned'', ''demo-fd-1'')"
proof -
  have "seed_one m sid db = fst (SetProvisioning (se_set m) (se_now m) db sid ''provisioned'' ''demo-fd-1'')"
    using assms(3) by (simp add: seed_one_def GetProvisioning_def prov_table_def)
  then show ?thesis
    using SetProvisioning_record [OF assms(1,2,4)] by simp
qed


section \<open>What runs together\<close>

text \<open>
  The refresher's state after \<open>n\<close> whole batches and the first \<open>k\<close> servers of the next one: what the
  sequential refresher computes, with no server and no signal beside it.
\<close>

definition after_servers :: "(nat \<Rightarrow> moment) \<Rightarrow> string list \<Rightarrow> database \<Rightarrow> nat \<Rightarrow> nat \<Rightarrow> refresh_state" where
  "after_servers env ids db n k = refreshAll env (take k ids) ((refreshAll env ids ^^ n) (fresh_state db))"

lemma after_servers_next:
  assumes "drop k ids = sid # rest"
  shows "after_servers env ids db n (Suc k) = refresh_one env (after_servers env ids db n k) sid \<and> drop (Suc k) ids = rest
    \<and> Suc k \<le> length ids"
proof -
  have k: "k < length ids"
    using assms by (metis drop_eq_Nil list.distinct(1) not_le_imp_less)
  then have "ids ! k = sid" "drop (Suc k) ids = rest"
    using assms by (simp_all add: Cons_nth_drop_Suc [symmetric])
  with k show ?thesis
    by (simp add: after_servers_def take_Suc_conv_app_nth refreshAll_def)
qed

lemma after_servers_all: "after_servers env ids db n (length ids) = (refreshAll env ids ^^ Suc n) (fresh_state db)"
  by (simp add: after_servers_def)

lemma after_batches: "after_servers env ids db (Suc n) 0 = after_servers env ids db n (length ids)"
  by (simp add: after_servers_def)

text \<open>The invariant of the running program.\<close>

definition progress :: "(nat \<Rightarrow> moment) \<Rightarrow> int \<Rightarrow> string list \<Rightarrow> database \<Rightarrow> serving \<Rightarrow> nat \<Rightarrow> nat \<Rightarrow> bool" where
  "progress env interval ids db s n k \<longleftrightarrow>
     k \<le> length ids \<and> sg_batch s = drop k ids \<and> sg_refresh s = after_servers env ids db n k
     \<and> (sg_phase s = FirstBatch \<longrightarrow> n = 0) \<and> (sg_phase s \<noteq> FirstBatch \<longrightarrow> 0 < interval)"

definition served_from :: "(nat \<Rightarrow> moment) \<Rightarrow> string list \<Rightarrow> database \<Rightarrow> request \<times> response \<Rightarrow> bool" where
  "served_from env ids db rr \<longleftrightarrow>
     (\<exists>n k d now. k \<le> length ids
        \<and> snd rr = Routes (GetLatestFacts d (re_db (after_servers env ids db n k))) now (fst rr))"

definition ends_well :: "int \<Rightarrow> serving \<Rightarrow> bool" where
  "ends_well interval s \<longleftrightarrow>
     (sg_listener s = ShutDown \<longrightarrow> sg_cancelled s) \<and> (sg_phase s = Stopped \<longrightarrow> sg_cancelled s)
     \<and> (sg_end s = Exited None \<longrightarrow> sg_listener s = ShutDown)
     \<and> (\<forall>e. sg_end s = Exited (Some e) \<longrightarrow> sg_listener s = ListenFailed e)
     \<and> (sg_end s = Crashed \<longrightarrow> interval \<le> 0 \<and> sg_batch s = [])"

lemma step_progress:
  assumes "serve_step env interval ids s l t" and "progress env interval ids db s n k"
  shows "\<exists>n k. progress env interval ids db t n k"
  using assms(1)
proof cases
  case (refresh_server sid rest)
  then have "drop k ids = sid # rest"
    using assms(2) by (simp add: progress_def)
  from after_servers_next [OF this, of env db n] refresh_server assms(2) show ?thesis
    by (intro exI [of _ n] exI [of _ "Suc k"]) (simp add: progress_def)
next
  case tick
  then have "k = length ids"
    using assms(2) by (simp add: progress_def)
  with tick assms(2) show ?thesis
    by (intro exI [of _ "Suc n"] exI [of _ 0]) (simp add: progress_def after_batches)
qed (use assms(2) in \<open>auto simp: progress_def\<close>)

lemma step_served:
  assumes "serve_step env interval ids s l t" and "progress env interval ids db s n k"
    and "\<forall>rr\<in>set (sg_responses s). served_from env ids db rr"
  shows "\<forall>rr\<in>set (sg_responses t). served_from env ids db rr"
  using assms(1)
proof cases
  case (answer_request before r after d now)
  have "served_from env ids db (r, Routes (GetLatestFacts d (re_db (sg_refresh s))) now r)"
    using assms(2) unfolding served_from_def progress_def by auto
  with answer_request assms(3) show ?thesis by simp
qed (use assms(3) in auto)

lemma step_ends_well: "serve_step env interval ids s l t \<Longrightarrow> ends_well interval s \<Longrightarrow> ends_well interval t"
  by (erule serve_stepE) (auto simp: ends_well_def)

lemma run_invariant:
  assumes "serve_run env interval ids s ls t" and "s = serve_initial db ids"
  shows "(\<exists>n k. progress env interval ids db t n k) \<and> (\<forall>rr\<in>set (sg_responses t). served_from env ids db rr)
    \<and> ends_well interval t"
  using assms
proof (induction rule: serve_run.induct)
  case (run_none s)
  have "progress env interval ids db (serve_initial db ids) 0 0"
    by (simp add: progress_def serve_initial_def after_servers_def)
  with run_none show ?case
    by (auto simp: serve_initial_def ends_well_def)
next
  case (run_step s ls t l u)
  then show ?case
    using step_progress step_served step_ends_well by meson
qed

text \<open>
  C15. The serving program implements the sequential refresher: however requests, answers, the signal
  and the shutdown interleave with the refreshes, between two batches the database and the log are
  those the refresher alone reaches with some number of ticks, and within a batch those after the
  servers done so far. Every response was computed from such a database. The program returns without
  error only after the signal; it crashes only for an interval that is not positive, after the first
  batch.
\<close>

theorem serving_implements_refresher:
  assumes "serve_run env interval ids (serve_initial db ids) ls s"
  shows "(\<exists>n k. k \<le> length ids \<and> sg_batch s = drop k ids
        \<and> sg_refresh s = refreshAll env (take k ids) ((refreshAll env ids ^^ n) (fresh_state db)))
    \<and> (sg_batch s = [] \<longrightarrow>
         (\<exists>n. sg_refresh s = fst (Start env interval ids (replicate n Tick) (fresh_state db))))
    \<and> (\<forall>rr\<in>set (sg_responses s). served_from env ids db rr)
    \<and> (sg_end s = Exited None \<longrightarrow> sg_cancelled s)
    \<and> (sg_end s = Crashed \<longrightarrow>
         interval \<le> 0 \<and> sg_refresh s = refreshAll env ids (fresh_state db))"
proof -
  obtain n k where p: "progress env interval ids db s n k" and resp: "\<forall>rr\<in>set (sg_responses s). served_from env ids db rr"
    and e: "ends_well interval s"
    using run_invariant [OF assms refl] by blast
  have whole: "sg_refresh s = (refreshAll env ids ^^ n) (refreshAll env ids (fresh_state db))" if "sg_batch s = []"
  proof -
    have "k = length ids"
      using p that by (simp add: progress_def)
    then show ?thesis
      using p by (simp add: progress_def after_servers_all funpow_swap1)
  qed
  have first: "n = 0" if "interval \<le> 0"
    using p that by (cases "sg_phase s") (auto simp: progress_def)
  have "sg_refresh s = fst (Start env interval ids (replicate n Tick) (fresh_state db))" if "sg_batch s = []"
  proof (cases "0 < interval")
    case True
    then show ?thesis using whole [OF that] by (simp only: Start_ticks)
  next
    case False
    then show ?thesis using whole [OF that] first by (simp add: Start_def)
  qed
  moreover have "interval \<le> 0 \<and> sg_refresh s = refreshAll env ids (fresh_state db)" if "sg_end s = Crashed"
    using that e whole first by (simp add: ends_well_def)
  moreover have "sg_cancelled s" if "sg_end s = Exited None"
    using that e by (simp add: ends_well_def)
  ultimately show ?thesis
    using p resp unfolding progress_def after_servers_def by blast
qed

text \<open>A run with a tick, a request answered in the middle of the second batch, and a shutdown that cuts it off.\<close>

definition healthz_request :: request where
  "healthz_request = \<lparr>rq_method = ''GET'', rq_path = [''healthz'']\<rparr>"

lemma sample_run:
  "\<exists>s. serve_run picky_env second [''a'', ''b''] (serve_initial created_db [''a'', ''b''])
      [RefreshServer, RefreshServer, ArmTicker, TickReceived, Accept healthz_request, RefreshServer, Answer, Interrupt, ShutServer, Return] s
    \<and> sg_batch s = [''b''] \<and> sg_end s = Exited None \<and> sg_cancelled s \<and> sg_phase s = Selecting
    \<and> sg_responses s = [(healthz_request, handleHealthz (day 8))]"
proof -
  let ?e = "picky_env" and ?ids = "[''a'', ''b'']"
  define s0 where "s0 = serve_initial created_db ?ids"
  define s1 where "s1 = s0\<lparr>sg_refresh := refresh_one ?e (sg_refresh s0) ''a'', sg_batch := [''b'']\<rparr>"
  define s2 where "s2 = s1\<lparr>sg_refresh := refresh_one ?e (sg_refresh s1) ''b'', sg_batch := []\<rparr>"
  define s3 where "s3 = s2\<lparr>sg_phase := Selecting\<rparr>"
  define s4 where "s4 = s3\<lparr>sg_batch := ?ids\<rparr>"
  define s5 where "s5 = s4\<lparr>sg_inflight := sg_inflight s4 @ [healthz_request]\<rparr>"
  define s6 where "s6 = s5\<lparr>sg_refresh := refresh_one ?e (sg_refresh s5) ''a'', sg_batch := [''b'']\<rparr>"
  define s7 where "s7 = s6\<lparr>sg_inflight := [] @ [], sg_responses := sg_responses s6 @
      [(healthz_request, Routes (GetLatestFacts sound_driver (re_db (sg_refresh s6))) (day 8) healthz_request)]\<rparr>"
  define s8 where "s8 = s7\<lparr>sg_cancelled := True\<rparr>"
  define s9 where "s9 = s8\<lparr>sg_listener := ShutDown\<rparr>"
  define s10 where "s10 = s9\<lparr>sg_end := Exited None\<rparr>"
  note defs = s0_def s1_def s2_def s3_def s4_def s5_def s6_def s7_def s8_def s9_def s10_def serve_initial_def
  have "serve_run ?e second ?ids s0 [] s0"
    by (rule run_none)
  then have "serve_run ?e second ?ids s0 ([] @ [RefreshServer]) s1"
    by (rule run_step) (unfold s1_def, rule refresh_server, simp_all add: defs)
  then have "serve_run ?e second ?ids s0 (([] @ [RefreshServer]) @ [RefreshServer]) s2"
    by (rule run_step) (unfold s2_def, rule refresh_server, simp_all add: defs)
  then have "serve_run ?e second ?ids s0 ((([] @ [RefreshServer]) @ [RefreshServer]) @ [ArmTicker]) s3"
    by (rule run_step) (unfold s3_def, rule arm_ticker, simp_all add: defs second_def)
  then have "serve_run ?e second ?ids s0 (([RefreshServer, RefreshServer, ArmTicker]) @ [TickReceived]) s4"
    by (intro run_step) (simp, unfold s4_def, rule tick, simp_all add: defs)
  then have "serve_run ?e second ?ids s0 ([RefreshServer, RefreshServer, ArmTicker, TickReceived] @ [Accept healthz_request]) s5"
    by (intro run_step) (simp, unfold s5_def, rule accept_request, simp_all add: defs)
  then have "serve_run ?e second ?ids s0 ([RefreshServer, RefreshServer, ArmTicker, TickReceived, Accept healthz_request] @ [RefreshServer]) s6"
    by (intro run_step) (simp, unfold s6_def, rule refresh_server, simp_all add: defs)
  then have "serve_run ?e second ?ids s0
      ([RefreshServer, RefreshServer, ArmTicker, TickReceived, Accept healthz_request, RefreshServer] @ [Answer]) s7"
    by (intro run_step) (simp, unfold s7_def, rule answer_request, simp_all add: defs)
  then have "serve_run ?e second ?ids s0
      ([RefreshServer, RefreshServer, ArmTicker, TickReceived, Accept healthz_request, RefreshServer, Answer] @ [Interrupt]) s8"
    by (intro run_step) (simp, unfold s8_def, rule signal_arrives, simp_all add: defs)
  then have "serve_run ?e second ?ids s0
      ([RefreshServer, RefreshServer, ArmTicker, TickReceived, Accept healthz_request, RefreshServer, Answer, Interrupt] @ [ShutServer]) s9"
    by (intro run_step) (simp, unfold s9_def, rule shut_server, simp_all add: defs)
  then have "serve_run ?e second ?ids s0
      ([RefreshServer, RefreshServer, ArmTicker, TickReceived, Accept healthz_request, RefreshServer, Answer, Interrupt, ShutServer] @ [Return]) s10"
    by (intro run_step) (simp, unfold s10_def, rule return_shut, simp_all add: defs)
  moreover have "Routes latest (day 8) healthz_request = handleHealthz (day 8)" for latest
    by (simp add: Routes_def healthz_request_def match_path_def)
  ultimately show ?thesis
    unfolding s0_def [symmetric] by (intro exI [of _ s10]) (simp add: defs)
qed

theorem serving_implements_refresher_witness:
  "\<exists>s :: serving. sg_end s = Exited None \<and> sg_cancelled s \<and> sg_batch s = [''b'']
     \<and> served_from picky_env [''a'', ''b''] created_db (healthz_request, handleHealthz (day 8))"
proof -
  obtain s where run: "serve_run picky_env second [''a'', ''b''] (serve_initial created_db [''a'', ''b''])
      [RefreshServer, RefreshServer, ArmTicker, TickReceived, Accept healthz_request, RefreshServer, Answer, Interrupt, ShutServer, Return] s"
    and s: "sg_batch s = [''b'']" "sg_end s = Exited None" "sg_responses s = [(healthz_request, handleHealthz (day 8))]"
    using sample_run by blast
  note implements = serving_implements_refresher [OF run]
  have "sg_cancelled s"
    using implements s(2) by blast
  moreover have "served_from picky_env [''a'', ''b''] created_db (healthz_request, handleHealthz (day 8))"
    using implements s(3) by simp
  ultimately show ?thesis
    using s(1,2) by blast
qed


section \<open>Coming to an end\<close>

text \<open>How many steps are left that need neither a new request nor a tick.\<close>

definition phase_rank :: "refresher_phase \<Rightarrow> nat" where
  "phase_rank p = (case p of FirstBatch \<Rightarrow> 2 | Selecting \<Rightarrow> 1 | Stopped \<Rightarrow> 0)"

definition pending :: "serving \<Rightarrow> nat" where
  "pending s =
     length (sg_batch s) + phase_rank (sg_phase s) + length (sg_inflight s)
     + (if sg_cancelled s then 0 else 1) + (if sg_listener s = Listening then 1 else 0) + (if sg_end s = Running then 1 else 0)"

definition is_accept :: "label \<Rightarrow> bool" where
  "is_accept l = (case l of Accept r \<Rightarrow> True | _ \<Rightarrow> False)"

definition fresh_work :: "string list \<Rightarrow> label list \<Rightarrow> nat" where
  "fresh_work ids ls =
     2 * length (filter is_accept ls) + Suc (length ids) * length (filter (\<lambda>l. l = TickReceived) ls)"

lemma fresh_work_snoc: "fresh_work ids (ls @ [l]) = fresh_work ids ls + fresh_work ids [l]"
  by (simp add: fresh_work_def algebra_simps)

lemma step_pending:
  assumes "serve_step env interval ids s l t"
  shows "Suc (pending t) \<le> pending s + fresh_work ids [l]"
  using assms by cases (simp_all add: pending_def phase_rank_def fresh_work_def is_accept_def)

lemma run_pending: "serve_run env interval ids s ls t \<Longrightarrow> length ls + pending t \<le> pending s + fresh_work ids ls"
proof (induction rule: serve_run.induct)
  case (run_step s ls t l u)
  then show ?case
    using step_pending [OF run_step.hyps(2)] by (simp add: fresh_work_snoc)
qed (simp add: fresh_work_def)

lemma ends_for_good: "serve_step env interval ids s l t \<Longrightarrow> sg_end s = Running"
  by (erule serve_stepE) simp_all

lemma signal_ends:
  assumes "sg_end s = Running" and "sg_cancelled s \<or> sg_listener s \<noteq> Listening"
  shows "\<exists>ls t e. serve_run env interval ids s ls t \<and> length ls \<le> 2 \<and> sg_end t = Exited e \<and> sg_inflight t = sg_inflight s"
proof (cases "sg_listener s")
  case Listening
  define t where "t = s\<lparr>sg_listener := ShutDown\<rparr>"
  have "serve_run env interval ids s ([] @ [ShutServer]) t"
    unfolding t_def using assms Listening by (intro run_step [OF run_none] shut_server) simp_all
  then have "serve_run env interval ids s (([] @ [ShutServer]) @ [Return]) (t\<lparr>sg_end := Exited None\<rparr>)"
    by (rule run_step) (rule return_shut; simp add: t_def assms(1))
  then show ?thesis
    by (intro exI [of _ "([] @ [ShutServer]) @ [Return]"] exI [of _ "t\<lparr>sg_end := Exited None\<rparr>"]) (simp add: t_def)
next
  case ShutDown
  then have "serve_run env interval ids s ([] @ [Return]) (s\<lparr>sg_end := Exited None\<rparr>)"
    using assms(1) by (intro run_step [OF run_none] return_shut)
  then show ?thesis
    by (intro exI [of _ "[] @ [Return]"] exI [of _ "s\<lparr>sg_end := Exited None\<rparr>"]) simp
next
  case (ListenFailed e)
  then have "serve_run env interval ids s ([] @ [Return]) (s\<lparr>sg_end := Exited (Some e)\<rparr>)"
    using assms(1) by (intro run_step [OF run_none] return_error)
  then show ?thesis
    by (intro exI [of _ "[] @ [Return]"] exI [of _ "s\<lparr>sg_end := Exited (Some e)\<rparr>"]) simp
qed

text \<open>
  C17. The serving program never runs on by itself: any run is at most as long as the work it started
  with plus two steps per accepted request and one batch per tick, so without new requests and ticks
  it comes to rest. Once the signal has arrived, or listening has failed, a running program is at
  most two steps from its exit, which waits neither for the batch nor for the requests in flight;
  after its end no step is possible.
\<close>

theorem serving_comes_to_rest:
  assumes "serve_run env interval ids (serve_initial db ids) ls s"
  shows "length ls \<le> length ids + 5 + 2 * length (filter is_accept ls)
        + Suc (length ids) * length (filter (\<lambda>l. l = TickReceived) ls)
    \<and> (sg_end s = Running \<and> (sg_cancelled s \<or> sg_listener s \<noteq> Listening) \<longrightarrow>
         (\<exists>more t e. serve_run env interval ids s more t \<and> length more \<le> 2 \<and> sg_end t = Exited e
            \<and> sg_inflight t = sg_inflight s))
    \<and> (sg_end s \<noteq> Running \<longrightarrow> (\<nexists>l t. serve_step env interval ids s l t))"
proof -
  have "pending (serve_initial db ids) = length ids + 5"
    by (simp add: pending_def serve_initial_def phase_rank_def)
  then have "length ls \<le> length ids + 5 + fresh_work ids ls"
    using run_pending [OF assms] by simp
  then show ?thesis
    using signal_ends ends_for_good unfolding fresh_work_def by (metis add.assoc)
qed

theorem serving_comes_to_rest_witness:
  "\<exists>s. sg_end s = Exited None \<and> (\<nexists>l t. serve_step picky_env second [''a'', ''b''] s l t)"
proof -
  obtain s where run: "serve_run picky_env second [''a'', ''b''] (serve_initial created_db [''a'', ''b''])
      [RefreshServer, RefreshServer, ArmTicker, TickReceived, Accept healthz_request, RefreshServer, Answer, Interrupt, ShutServer, Return] s"
    and s: "sg_end s = Exited None"
    using sample_run by blast
  from serving_comes_to_rest [OF run] s show ?thesis
    by auto
qed

text \<open>
  In the serving program no server is ever skipped: its build cannot fail, so the only thing a refresh
  logs is a save that failed.
\<close>

lemma serving_refresh:
  "\<exists>f. BuildServerFacts (ho_now (host (re_begun st))) sid
        (buildCollectors getenv (ho_query (host (re_begun st))) (re_db st) (ho_world (host (re_begun st)))) = (Some f, None)
    \<and> refresh_one (serving_env getenv host) st sid =
        (case SaveFacts (ho_save (host (re_begun st))) (ho_now (host (re_begun st))) (re_db st) (Some f) of (db, err) \<Rightarrow>
          st\<lparr>re_begun := Suc (re_begun st), re_db := db,
             re_log := re_log st @ (case err of None \<Rightarrow> [] | Some e \<Rightarrow> [''rewsr-maxfields: saving facts for server '' @ sid @ '': '' @ e])\<rparr>)"
proof -
  define h where "h = host (re_begun st)"
  obtain f where f: "BuildServerFacts (ho_now h) sid (buildCollectors getenv (ho_query h) (re_db st) (ho_world h)) = (Some f, None)"
    using serving_build by blast
  obtain db err where save: "SaveFacts (ho_save h) (ho_now h) (re_db st) (Some f) = (db, err)"
    by (cases "SaveFacts (ho_save h) (ho_now h) (re_db st) (Some f)") auto
  have "refresh_one (serving_env getenv host) st sid =
      st\<lparr>re_begun := Suc (re_begun st), re_db := db,
         re_log := re_log st @ (case err of None \<Rightarrow> [] | Some e \<Rightarrow> [''rewsr-maxfields: saving facts for server '' @ sid @ '': '' @ e])\<rparr>"
    by (cases err) (simp_all add: refresh_one_def serving_env_def h_def [symmetric] f save)
  then show ?thesis
    unfolding h_def [symmetric] using f save by auto
qed


section \<open>From an empty machine\<close>

definition startup_sound :: "startup \<Rightarrow> bool" where
  "startup_sound su \<longleftrightarrow>
     su_open su = None \<and> faultless (su_facts su) \<and> faultless (su_prov su) \<and> (\<forall>n. seed_sound (su_seed su n))"

text \<open>The database \<open>runServe\<close> starts with.\<close>

lemma startup_ready:
  assumes "startup_sound su" and "db_ok db"
  shows "\<exists>db'. runServe getenv su db = Inr (serve_initial db' (envServerIDs getenv))
    \<and> prov_good db' \<and> sql_good db' \<and> db_rows db' = db_rows db
    \<and> prov_record db' = (\<lambda>sid. case prov_record db sid of
            Some p \<Rightarrow> Some p
          | None \<Rightarrow> if sid \<in> set (envServerIDs getenv) then Some (''provisioned'', ''demo-fd-1'') else None)"
proof -
  define db1 where "db1 = fst (NewSQLiteStore (su_facts su) db)"
  define db2 where "db2 = fst (NewSQLiteProvisioningStore (su_prov su) db1)"
  have made: "NewSQLiteStore (su_facts su) db = (db1, None)" "NewSQLiteProvisioningStore (su_prov su) db1 = (db2, None)"
    using assms(1) by (simp_all add: startup_sound_def db1_def db2_def NewSQLiteStore_def NewSQLiteProvisioningStore_def)
  have good: "prov_good db2"
  proof -
    have "db_step db db1" "db_step db1 db2"
      unfolding db1_def db2_def by (rule db_step.create_facts, rule db_step.create_prov)
    then have "db_ok db2"
      using assms(2) by (blast intro: db_step_ok)
    moreover have "db_prov db2 \<noteq> None"
      using assms(1) by (simp add: db2_def NewSQLiteProvisioningStore_def startup_sound_def)
    ultimately show ?thesis by (simp add: prov_good_def)
  qed
  have same: "prov_record db2 = prov_record db" "db_rows db2 = db_rows db" "db_facts db2 \<noteq> None"
    using assms(1) by (auto simp: db1_def db2_def NewSQLiteStore_def NewSQLiteProvisioningStore_def startup_sound_def
        prov_record_def db_rows_def fun_eq_iff split: option.split)
  let ?db = "seed (su_seed su) 0 (envServerIDs getenv) db2"
  have run: "runServe getenv su db = Inr (serve_initial ?db (envServerIDs getenv))"
    using assms(1) made by (simp add: runServe_def prepare_def Open_def startup_sound_def settings_of_def Let_def)
  have seeded: "prov_good ?db \<and> prov_record ?db = (\<lambda>sid. case prov_record db2 sid of
            Some p \<Rightarrow> Some p
          | None \<Rightarrow> if sid \<in> set (envServerIDs getenv) then Some (''provisioned'', ''demo-fd-1'') else None)
      \<and> db_facts ?db = db_facts db2"
    using assms(1) by (intro seed_record [OF good _ server_ids_named]) (simp add: startup_sound_def)
  note seeded1 = conjunct1 [OF seeded] and seeded2 = conjunct1 [OF conjunct2 [OF seeded]]
    and seeded3 = conjunct2 [OF conjunct2 [OF seeded]]
  show ?thesis
  proof (rule exI [of _ ?db], intro conjI)
    show "db_rows ?db = db_rows db"
      using seeded3 same(2) by (simp add: db_rows_def)
    show "sql_good ?db"
      using seeded1 seeded3 same(3) by (simp add: sql_good_def prov_good_def has_facts_table_def)
  qed (rule run, rule seeded1, rule seeded2 [unfolded same(1)])
qed

text \<open>
  C14. Start-up keeps what is there: with a working driver \<open>runServe\<close> starts, on a new database as on an
  old one, every provisioning record already there stays as it is, every other server of the list,
  and no server besides, gets the demo record, and no facts are touched.
\<close>

theorem startup_seeds:
  assumes "startup_sound su" and "db_ok db"
  shows "\<exists>s. runServe getenv su db = Inr s \<and> sg_batch s = envServerIDs getenv
    \<and> prov_good (re_db (sg_refresh s)) \<and> (\<forall>sid. history (re_db (sg_refresh s)) sid = history db sid)
    \<and> (\<forall>sid. GetProvisioning sound_driver (re_db (sg_refresh s)) sid =
         (case prov_record db sid of
            Some p \<Rightarrow> Inr p
          | None \<Rightarrow> if sid \<in> set (envServerIDs getenv) then Inr (''provisioned'', ''demo-fd-1'')
                    else Inl (''store: no provisioning record for server '' @ sid)))"
proof -
  obtain db' where run: "runServe getenv su db = Inr (serve_initial db' (envServerIDs getenv))"
    and db': "prov_good db'" "db_rows db' = db_rows db"
    and rec: "prov_record db' = (\<lambda>sid. case prov_record db sid of
            Some p \<Rightarrow> Some p
          | None \<Rightarrow> if sid \<in> set (envServerIDs getenv) then Some (''provisioned'', ''demo-fd-1'') else None)"
    using startup_ready [OF assms] by blast
  have "history db' sid = history db sid" for sid
    using db'(2) by (simp add: history_def)
  moreover have "GetProvisioning sound_driver db' sid =
      (case prov_record db' sid of
         None \<Rightarrow> Inl (''store: no provisioning record for server '' @ sid) | Some p \<Rightarrow> Inr p)" for sid
    using db'(1) by (intro GetProvisioning_record) (simp_all add: prov_good_def)
  ultimately show ?thesis
    unfolding run using db'(1) rec
    by (simp add: serve_initial_def fresh_state_def split: option.split)
qed

definition sound_startup :: startup where
  "sound_startup = \<lparr>su_open = None, su_facts = sound_driver, su_prov = sound_driver,
     su_seed = (\<lambda>_. \<lparr>se_get = sound_driver, se_set = sound_driver, se_now = day 1\<rparr>)\<rparr>"

theorem startup_seeds_witness:
  "\<exists>s. runServe (\<lambda>_. []) sound_startup (fst (SetProvisioning sound_driver (day 1) created_db ''r7'' ''rescue'' ''fd-7'')) = Inr s
     \<and> GetProvisioning sound_driver (re_db (sg_refresh s)) ''r7'' = Inr (''rescue'', ''fd-7'')
     \<and> GetProvisioning sound_driver (re_db (sg_refresh s)) ''demo-server-1'' = Inr (''provisioned'', ''demo-fd-1'')"
proof -
  let ?db = "fst (SetProvisioning sound_driver (day 1) created_db ''r7'' ''rescue'' ''fd-7'')"
  have pre: "startup_sound sound_startup" "db_ok ?db"
    using created_db_good set_prov_ok [of created_db] by (simp_all add: startup_sound_def sound_startup_def seed_sound_def prov_good_def)
  have "prov_record ?db ''r7'' = Some (''rescue'', ''fd-7'')" "prov_record ?db ''demo-server-1'' = None"
    using SetProvisioning_record [of created_db sound_driver "''r7''" "day 1" "''rescue''" "''fd-7''"] created_db_good
    by (simp_all add: created_db_def prov_record_def NewSQLiteProvisioningStore_def NewSQLiteStore_def empty_db_def)
  moreover have "envServerIDs (\<lambda>_. []) = [''demo-server-1'']"
    by (simp add: envServerIDs_def)
  ultimately show ?thesis
    using startup_seeds [OF pre, of "\<lambda>_. []"] by auto
qed

end
