(* ===== verification/Availability.thy ===== *)
theory Availability
  imports Serve Soundness
begin

text \<open>
  Start-up, refresher, collectors, store and API together: once the first batch is done every listed
  server is served, with the provisioning record start-up found or seeded.
\<close>


section \<open>What a refresh of the serving program leaves\<close>

text \<open>Facts that present the provisioning record of a server.\<close>

definition presents :: "(string \<Rightarrow> string \<times> string) \<Rightarrow> string \<Rightarrow> ServerFacts \<Rightarrow> bool" where
  "presents rec sid f \<longleftrightarrow>
     sf_ServerID f = sid \<and> sf_Provisioning f = fst (rec sid)
     \<and> (snd (rec sid) \<noteq> [] \<longrightarrow> sf_FailureDomain f = snd (rec sid))"

definition presented :: "(string \<Rightarrow> string \<times> string) \<Rightarrow> database \<Rightarrow> string \<Rightarrow> bool" where
  "presented rec db sid \<longleftrightarrow> (\<exists>f. GetLatestFacts sound_driver db sid = Inr f \<and> presents rec sid f)"

lemma presents_normal_raw [simp]: "presents rec sid (normal_raw f) = presents rec sid f"
  by (simp add: presents_def normal_raw_def)

lemma view_of_presented:
  "ps_ServerID (PublicView (Some f)) = sf_ServerID f" "pl_Provisioning (ps_Lifecycle (PublicView (Some f))) = sf_Provisioning f"
  "ps_Region (PublicView (Some f)) = sf_FailureDomain f"
  by (simp_all add: PublicView_def)

lemma stored_provisioning_record:
  assumes "faultless d" and "prov_record db sid = Some p"
  shows "stored_provisioning d db sid = p"
proof -
  have "db_prov db \<noteq> None"
    using assms(2) by (cases "db_prov db") (simp_all add: prov_record_def)
  with assms show ?thesis
    by (simp add: stored_provisioning_def GetProvisioning_record)
qed

lemma build_presents:
  assumes "BuildServerFacts now sid (buildCollectors getenv d db w) = (Some f, e)"
    and "faultless d" and "prov_record db sid = Some (rec sid)"
  shows "presents rec sid f"
proof -
  have "sf_ServerID f = sid"
    using build_Some [OF assms(1)] by (simp add: finish_build_keeps)
  then show ?thesis
    using serving_authority [OF assms(1)] stored_provisioning_record [OF assms(2,3)] by (simp add: presents_def)
qed

text \<open>Everything on record for a server is older than a later instant, also after a save.\<close>

lemma all_before_saved:
  assumes "sql_good db" and "storable f" and "stamp now f < t" and "all_before db sid t"
  shows "all_before (fst (SaveFacts sound_driver now db (Some f))) sid t"
  using assms by (simp add: all_before_def save_sql new_row_def)



section \<open>Dependable surroundings\<close>

text \<open>What one refresh meets, when its drivers work, its machine is sound and its clock shows a date.\<close>

definition dependable :: "host_moment \<Rightarrow> bool" where
  "dependable h \<longleftrightarrow>
     faultless (ho_query h) \<and> faultless (ho_save h) \<and> sound_machine (ho_world h)
     \<and> valid_time (ho_now h) \<and> ho_now h \<noteq> zero_time"

text \<open>The first \<open>N\<close> refreshes, each later than the ones before.\<close>

definition undisturbed :: "nat \<Rightarrow> (nat \<Rightarrow> host_moment) \<Rightarrow> bool" where
  "undisturbed N host \<longleftrightarrow>
     (\<forall>n<N. dependable (host n)) \<and> (\<forall>m n. m < n \<and> n < N \<longrightarrow> ho_now (host m) < ho_now (host n))"

definition text_record :: "string \<times> string \<Rightarrow> bool" where
  "text_record p \<longleftrightarrow> valid_utf8 (fst p) \<and> valid_utf8 (snd p)"

lemma demo_record_text: "text_record (''provisioned'', ''demo-fd-1'')"
  by code_simp

text \<open>The provisioning records after start-up: they are text, and the listed servers have theirs.\<close>

definition known :: "(string \<Rightarrow> string \<times> string) \<Rightarrow> string list \<Rightarrow> database \<Rightarrow> bool" where
  "known rec ids db \<longleftrightarrow>
     (\<forall>sid p. prov_record db sid = Some p \<longrightarrow> text_record p)
     \<and> (\<forall>sid\<in>set ids. server_id_ok sid \<and> prov_record db sid = Some (rec sid))"

lemma known_cong: "db_prov db = db_prov db' \<Longrightarrow> known rec ids db = known rec ids db'"
  by (simp add: known_def prov_record_def)

lemma records_are_text:
  assumes "faultless d" and "known rec ids db"
  shows "text_records d db"
proof (cases "db_prov db")
  case None
  then show ?thesis
    using assms(1) by (simp add: text_records_def GetProvisioning_def prov_table_def)
next
  case (Some rows)
  then have read: "GetProvisioning d db sid =
      (case prov_record db sid of
         None \<Rightarrow> Inl (''store: no provisioning record for server '' @ sid) | Some p \<Rightarrow> Inr p)" for sid
    using assms(1) by (intro GetProvisioning_record) simp_all
  show ?thesis
    unfolding text_records_def read using assms(2) by (auto simp: known_def text_record_def split: option.splits)
qed

lemma dependable_moment:
  assumes "dependable (host n)" and "known rec ids db" and "sid \<in> set ids"
  shows "sound_moment (serving_env getenv host n) db sid"
proof -
  have "text_records (ho_query (host n)) db"
    using assms(1,2) by (intro records_are_text) (simp_all add: dependable_def)
  with assms sound_contributions [of "ho_world (host n)" sid "ho_query (host n)" db getenv] show ?thesis
    by (simp add: dependable_def known_def server_id_ok_def sound_moment_def serving_env_def)
qed

definition fresh :: "nat \<Rightarrow> (nat \<Rightarrow> host_moment) \<Rightarrow> (string \<Rightarrow> string \<times> string) \<Rightarrow> string list \<Rightarrow> refresh_state \<Rightarrow> bool" where
  "fresh N host rec ids st \<longleftrightarrow>
     sql_good (re_db st) \<and> known rec ids (re_db st)
     \<and> (\<forall>n sid. re_begun st \<le> n \<and> n < N \<longrightarrow> all_before (re_db st) sid (ho_now (host n)))"

text \<open>One refresh presents its server, leaves the others as they are, and keeps what the next ones need.\<close>

lemma refresh_step:
  assumes "undisturbed N host" and "fresh N host rec ids st" and "re_begun st < N" and "sid \<in> set ids"
    and st'_def: "st' = refresh_one (serving_env getenv host) st sid"
  shows "fresh N host rec ids st'" and "presented rec (re_db st') sid"
    and "s \<noteq> sid \<Longrightarrow> presented rec (re_db st') s = presented rec (re_db st) s"
proof -
  let ?b = "re_begun st" and ?env = "serving_env getenv host"
  have good: "sql_good (re_db st)" and knows: "known rec ids (re_db st)"
    and before: "\<And>t n. ?b \<le> n \<Longrightarrow> n < N \<Longrightarrow> all_before (re_db st) t (ho_now (host n))"
    using assms(2) unfolding fresh_def by blast+
  have dep: "dependable (host ?b)"
    using assms(1,3) by (simp add: undisturbed_def)
  have ok: "server_id_ok sid" and has_rec: "prov_record (re_db st) sid = Some (rec sid)"
    using knows assms(4) by (simp_all add: known_def)
  note step = good ok dependable_moment [where getenv = getenv and host = host, OF dep knows assms(4)]
  have now: "mo_now (?env n) = ho_now (host n)" for n
    by (simp add: serving_env_def)
  obtain f where f: "BuildServerFacts (ho_now (host ?b)) sid (buildCollectors getenv (ho_query (host ?b)) (re_db st) (ho_world (host ?b))) = (Some f, None)"
    using serving_build by blast
  have shows_record: "presents rec sid f"
    using dep by (intro build_presents [where rec = rec, OF f _ has_rec]) (simp add: dependable_def)
  have "all_before (re_db st) sid (mo_now (?env ?b))"
    using before [OF order_refl assms(3)] by (simp add: now)
  from refresh_one_latest [where env = ?env and st = st, OF step this] show "presented rec (re_db st') sid"
    using f shows_record by (simp add: presented_def st'_def serving_env_def)
  show "presented rec (re_db st') s = presented rec (re_db st) s" if "s \<noteq> sid"
    using refresh_one_good(2) [where env = ?env and st = st, OF step that] by (simp add: presented_def st'_def)
  have "all_before (re_db st') s (ho_now (host n))" if n: "Suc ?b \<le> n" "n < N" for n s
  proof (cases rule: refresh_one_cases [where env = ?env and st = st and sid = sid, OF step])
    case (1 e)
    then show ?thesis using before n by (simp add: st'_def)
  next
    case (2 g)
    have "stamp (mo_now (?env ?b)) g < ho_now (host n)"
      using 2(4) assms(1) n by (simp add: stamp_def now undisturbed_def)
    with 2 before [of n s] n all_before_saved [OF good 2(2)] show ?thesis
      by (simp add: st'_def)
  qed
  moreover have "known rec ids (re_db st')"
    unfolding st'_def using knows by (rule iffD2 [OF known_cong [OF refresh_one_prov]])
  ultimately show "fresh N host rec ids st'"
    using refresh_one_good(1) [where env = ?env and st = st, OF step] by (simp add: fresh_def refresh_one_begun st'_def)
qed


section \<open>The running program\<close>

text \<open>Every listed server is presented already, or its turn in the first batch is still to come.\<close>

definition all_presented ::
  "nat \<Rightarrow> (nat \<Rightarrow> host_moment) \<Rightarrow> (string \<Rightarrow> string \<times> string) \<Rightarrow> string list \<Rightarrow> serving \<Rightarrow> bool" where
  "all_presented N host rec ids s \<longleftrightarrow>
     fresh N host rec ids (sg_refresh s) \<and> set (sg_batch s) \<subseteq> set ids
     \<and> (\<forall>sid\<in>set ids. presented rec (re_db (sg_refresh s)) sid \<or> sg_phase s = FirstBatch \<and> sid \<in> set (sg_batch s))"

lemma step_begun: "serve_step env interval ids s l t \<Longrightarrow> re_begun (sg_refresh s) \<le> re_begun (sg_refresh t)"
  by (erule serve_stepE) (simp_all add: refresh_one_begun)

lemma step_all_presented:
  assumes "serve_step (serving_env getenv host) interval ids s l t" and "all_presented N host rec ids s"
    and "undisturbed N host" and "re_begun (sg_refresh t) \<le> N"
  shows "all_presented N host rec ids t"
  using assms(1)
proof cases
  case (refresh_server sid rest)
  have b: "fresh N host rec ids (sg_refresh s)" "re_begun (sg_refresh s) < N" "sid \<in> set ids"
    using assms(2,4) refresh_server by (auto simp: all_presented_def refresh_one_begun)
  note step = refresh_step [where getenv = getenv, OF assms(3) b refl]
  have "presented rec (re_db (refresh_one (serving_env getenv host) (sg_refresh s) sid)) x
      \<or> sg_phase s = FirstBatch \<and> x \<in> set rest" if "x \<in> set ids" for x
  proof (cases "x = sid")
    case True
    then show ?thesis using step(2) by simp
  next
    case False
    then show ?thesis
      using step(3) [OF False] assms(2) that refresh_server by (auto simp: all_presented_def)
  qed
  moreover have "set rest \<subseteq> set ids"
    using assms(2) refresh_server by (auto simp: all_presented_def)
  ultimately show ?thesis
    unfolding all_presented_def refresh_server using step(1) by simp
qed (use assms(2) in \<open>auto simp: all_presented_def\<close>)

lemma run_all_presented:
  assumes "serve_run (serving_env getenv host) interval ids s ls t" and "all_presented N host rec ids s"
    and "undisturbed N host" and "re_begun (sg_refresh t) \<le> N"
  shows "all_presented N host rec ids t"
  using assms
proof (induction rule: serve_run.induct)
  case (run_step s ls t l u)
  then show ?case
    using step_begun step_all_presented by (meson le_trans)
qed

text \<open>The provisioning record a listed server has after start-up.\<close>

definition record_or_demo :: "database \<Rightarrow> string \<Rightarrow> string \<times> string" where
  "record_or_demo db sid = (case prov_record db sid of Some p \<Rightarrow> p | None \<Rightarrow> (''provisioned'', ''demo-fd-1''))"

lemma startup_fresh:
  assumes "startup_sound su" and "db_ok db" and "runServe getenv su db = Inr s0"
    and "\<forall>sid p. prov_record db sid = Some p \<longrightarrow> text_record p" and "\<forall>sid\<in>set (envServerIDs getenv). valid_utf8 sid"
    and "\<forall>n<N. \<forall>sid. all_before db sid (ho_now (host n))"
  shows "all_presented N host (record_or_demo db) (envServerIDs getenv) s0"
proof -
  obtain db' where s0: "s0 = serve_initial db' (envServerIDs getenv)" and good: "sql_good db'" and rows: "db_rows db' = db_rows db"
    and rec: "prov_record db' = (\<lambda>sid. case prov_record db sid of
            Some p \<Rightarrow> Some p
          | None \<Rightarrow> if sid \<in> set (envServerIDs getenv) then Some (''provisioned'', ''demo-fd-1'') else None)"
    using startup_ready [OF assms(1,2), of getenv] assms(3) by auto
  have "server_id_ok sid" if "sid \<in> set (envServerIDs getenv)" for sid
    using that assms(5) server_ids_named by (auto simp: server_id_ok_def)
  moreover have "text_record p" if "prov_record db' sid = Some p" for sid p
    using that assms(4) demo_record_text by (auto simp: rec split: option.splits if_splits)
  ultimately have "known (record_or_demo db) (envServerIDs getenv) db'"
    by (simp add: known_def rec record_or_demo_def split: option.split)
  then show ?thesis
    using good rows assms(6) by (simp add: all_presented_def fresh_def s0 serve_initial_def fresh_state_def all_before_def)
qed


text \<open>The first batch of a program that starts on a machine without tools, with a new database.\<close>

definition bare_host :: "nat \<Rightarrow> host_moment" where
  "bare_host n = \<lparr>ho_world = bare_world, ho_query = sound_driver, ho_save = sound_driver, ho_now = day 7\<rparr>"

lemma bare_host_undisturbed: "undisturbed 1 bare_host"
  using bare_machine_sound
  by (simp add: undisturbed_def dependable_def bare_host_def day_def valid_time_def days_in_def zero_time_def)

lemma first_batch_run:
  assumes "s0 = serve_initial db [''demo-server-1'']"
  shows "\<exists>s. serve_run env second [''demo-server-1''] s0 [RefreshServer, ArmTicker] s \<and> sg_phase s = Selecting
    \<and> re_begun (sg_refresh s) = 1"
proof -
  define s1 where "s1 = s0\<lparr>sg_refresh := refresh_one env (sg_refresh s0) ''demo-server-1'', sg_batch := []\<rparr>"
  have "serve_run env second [''demo-server-1''] s0 ([] @ [RefreshServer]) s1"
    unfolding s1_def by (intro run_step [OF run_none] refresh_server) (simp_all add: assms serve_initial_def)
  then have "serve_run env second [''demo-server-1''] s0 (([] @ [RefreshServer]) @ [ArmTicker]) (s1\<lparr>sg_phase := Selecting\<rparr>)"
    by (rule run_step) (rule arm_ticker; simp add: s1_def assms serve_initial_def second_def)
  then show ?thesis
    by (intro exI [of _ "s1\<lparr>sg_phase := Selecting\<rparr>"]) (simp add: s1_def assms serve_initial_def fresh_state_def refresh_one_begun)
qed


end
