(* ===== verification/Fleet.thy ===== *)
theory Fleet
  imports Facts_Json
begin

text \<open>
  \<open>fleet/fleet.go\<close>: the fleet rollup, the search for servers with given capabilities, and the
  spread of firmware versions. Entries of the input are optional, as the code skips nil ones;
  counters and totals are 64-bit.
\<close>


section \<open>Aggregate\<close>

record Summary =
  sm_Servers :: int
  sm_Healthy :: int
  sm_Degraded :: int
  sm_Unknown :: int
  sm_PoweredOn :: int
  sm_TotalCores :: int
  sm_TotalThreads :: int
  sm_TotalMemoryGB :: int
  sm_TotalDiskGB :: int
  sm_TotalNICGbps :: int
  sm_CapabilityCounts :: "(string, int) gomap"
  sm_NetworkModeCounts :: "(string, int) gomap"
  sm_NICSpeedPorts :: "(int, int) gomap"
  sm_CPUModels :: "(string, int) gomap"
  sm_FailureDomains :: "(string, string list) gomap"

definition empty_summary :: Summary where
  "empty_summary =
     \<lparr>sm_Servers = 0, sm_Healthy = 0, sm_Degraded = 0, sm_Unknown = 0, sm_PoweredOn = 0,
      sm_TotalCores = 0, sm_TotalThreads = 0, sm_TotalMemoryGB = 0, sm_TotalDiskGB = 0, sm_TotalNICGbps = 0,
      sm_CapabilityCounts = [], sm_NetworkModeCounts = [], sm_NICSpeedPorts = [], sm_CPUModels = [],
      sm_FailureDomains = []\<rparr>"

definition inc64 :: "int \<Rightarrow> int" where
  "inc64 n = wrap64 (n + 1)"

definition add_port :: "(int, int) gomap \<Rightarrow> NICFacts \<Rightarrow> (int, int) gomap" where
  "add_port m n = (if nic_SpeedGbps n > 0 then incr (nic_SpeedGbps n) m else m)"

definition domain_of :: "ServerFacts \<Rightarrow> string" where
  "domain_of f = (if sf_FailureDomain f = [] then ''unassigned'' else sf_FailureDomain f)"

text \<open>Appending to the slice of a map key; a missing key reads as nil.\<close>

definition push :: "string \<Rightarrow> string \<Rightarrow> (string, string list) gomap \<Rightarrow> (string, string list) gomap" where
  "push k x m = AList.update k ((case map_of m k of None \<Rightarrow> [] | Some xs \<Rightarrow> xs) @ [x]) m"

definition aggregate_one :: "Summary \<Rightarrow> ServerFacts \<Rightarrow> Summary" where
  "aggregate_one s f =
     s\<lparr>sm_Servers := inc64 (sm_Servers s),
       sm_Healthy := (if sf_Health f = ''healthy'' then inc64 (sm_Healthy s) else sm_Healthy s),
       sm_Degraded := (if sf_Health f = ''degraded'' then inc64 (sm_Degraded s) else sm_Degraded s),
       sm_Unknown := (if sf_Health f \<noteq> ''healthy'' \<and> sf_Health f \<noteq> ''degraded'' then inc64 (sm_Unknown s) else sm_Unknown s),
       sm_PoweredOn := (if sf_PowerState f = ''on'' then inc64 (sm_PoweredOn s) else sm_PoweredOn s),
       sm_TotalCores := wrap64 (sm_TotalCores s + cpu_Cores (sf_CPU f)),
       sm_TotalThreads := wrap64 (sm_TotalThreads s + cpu_Threads (sf_CPU f)),
       sm_TotalMemoryGB := wrap64 (sm_TotalMemoryGB s + sf_MemoryGB f),
       sm_TotalDiskGB := foldl (\<lambda>t d. wrap64 (t + disk_SizeGB d)) (sm_TotalDiskGB s) (sf_Disks f),
       sm_TotalNICGbps := foldl (\<lambda>t n. wrap64 (t + nic_SpeedGbps n)) (sm_TotalNICGbps s) (sf_NICs f),
       sm_NICSpeedPorts := foldl add_port (sm_NICSpeedPorts s) (sf_NICs f),
       sm_CapabilityCounts := foldl (\<lambda>m c. incr c m) (sm_CapabilityCounts s) (sf_Capabilities f),
       sm_NetworkModeCounts := foldl (\<lambda>m c. incr c m) (sm_NetworkModeCounts s) (sf_NetworkModes f),
       sm_CPUModels := (if cpu_Model (sf_CPU f) \<noteq> [] then incr (cpu_Model (sf_CPU f)) (sm_CPUModels s) else sm_CPUModels s),
       sm_FailureDomains := push (domain_of f) (sf_ServerID f) (sm_FailureDomains s)\<rparr>"

definition Aggregate :: "ServerFacts option list \<Rightarrow> Summary" where
  "Aggregate all_facts =
     (let s = foldl (\<lambda>s fo. case fo of None \<Rightarrow> s | Some f \<Rightarrow> aggregate_one s f) empty_summary all_facts
      in s\<lparr>sm_FailureDomains := map (\<lambda>(k, sids). (k, sort_Strings sids)) (sm_FailureDomains s)\<rparr>)"


section \<open>FindCapable\<close>

fun has_all :: "string list \<Rightarrow> string list \<Rightarrow> bool" where
  "has_all have_caps [] = True"
| "has_all have_caps (r # rs) = (if r \<notin> set have_caps then False else has_all have_caps rs)"

definition FindCapable :: "ServerFacts option list \<Rightarrow> string list \<Rightarrow> string list" where
  "FindCapable all_facts required =
     sort_Strings
       (foldl (\<lambda>sids fo. case fo of
                 None \<Rightarrow> sids
               | Some f \<Rightarrow> if has_all (sf_Capabilities f) required then sids @ [sf_ServerID f] else sids) [] all_facts)"


section \<open>FirmwareSpread\<close>

type_synonym spread = "(string, (string, int) gomap) gomap"

definition bump :: "spread \<Rightarrow> string \<Rightarrow> string \<Rightarrow> spread" where
  "bump s component version =
     (if component = [] \<or> version = [] then s
      else AList.update component (incr version (case map_of s component of None \<Rightarrow> [] | Some m \<Rightarrow> m)) s)"

text \<open>
  \<open>decodeRaw\<close>: the entry is marshalled and unmarshalled into the wanted type; a missing or nil entry, one
  that has no JSON text, or one of another shape, is refused. The two anonymous struct types of the
  code are decoded as pairs and as driver maps.
\<close>

definition decodeRaw :: "json option \<Rightarrow> 'a decoder \<Rightarrow> 'a option" where
  "decodeRaw v dec =
     (case v of
        None \<Rightarrow> None
      | Some j \<Rightarrow>
          if j = JNull then None
          else if bad_numbers j \<noteq> [] then None
          else Option.bind (parse_json (print_json j)) dec)"

lemma decodeRaw_ok: "json_ok j \<Longrightarrow> j \<noteq> JNull \<Longrightarrow> decodeRaw (Some j) dec = dec j"
  by (simp add: decodeRaw_def json_ok_numbers parse_print)

definition dec_drive :: "(string \<times> string) decoder" where
  "dec_drive v =
     do { kvs \<leftarrow> as_object v;
          m \<leftarrow> field ''model'' dec_string [] kvs;
          fw \<leftarrow> field ''firmware'' dec_string [] kvs;
          Some (m, fw) }"

definition dec_offload :: "(string, string) gomap decoder" where
  "dec_offload v =
     do { kvs \<leftarrow> as_object v;
          field ''driver'' (dec_map (or_zero [] dec_string)) [] kvs }"

definition driver_pair :: "(string, string) gomap \<Rightarrow> string \<times> string" where
  "driver_pair d =
     ((case map_of d ''driver'' of None \<Rightarrow> [] | Some s \<Rightarrow> s),
      (case map_of d ''firmware-version'' of None \<Rightarrow> [] | Some s \<Rightarrow> s))"

text \<open>The two loops with their \<open>seen\<close> maps; they differ in the prefix of the component.\<close>

fun bump_unseen :: "string \<Rightarrow> (string \<times> string) list \<Rightarrow> spread \<Rightarrow> (string \<times> string) list \<Rightarrow> spread" where
  "bump_unseen prefix seen s [] = s"
| "bump_unseen prefix seen s ((name, fw) # ps) =
     (if (name, fw) \<in> set seen then bump_unseen prefix seen s ps
      else bump_unseen prefix ((name, fw) # seen) (bump s (prefix @ name) fw) ps)"

definition nvme_pairs :: "ServerFacts \<Rightarrow> (string \<times> string) list" where
  "nvme_pairs f = (case decodeRaw (raw_get f ''nvme'') (dec_slice dec_drive) of None \<Rightarrow> [] | Some ps \<Rightarrow> ps)"

definition nic_pairs :: "ServerFacts \<Rightarrow> (string \<times> string) list" where
  "nic_pairs f =
     (case decodeRaw (raw_get f ''nic_offload'') (dec_map dec_offload) of
        None \<Rightarrow> [] | Some m \<Rightarrow> map (\<lambda>(_, d). driver_pair d) m)"

definition spread_one :: "spread \<Rightarrow> ServerFacts option \<Rightarrow> spread" where
  "spread_one s fo =
     (case fo of
        None \<Rightarrow> s
      | Some f \<Rightarrow>
          if sf_Raw f = None then s
          else bump_unseen ''nic:'' [] (bump_unseen ''nvme:'' [] s (nvme_pairs f)) (nic_pairs f))"

definition FirmwareSpread :: "ServerFacts option list \<Rightarrow> spread" where
  "FirmwareSpread all_facts = foldl spread_one [] all_facts"

definition spread_count :: "spread \<Rightarrow> string \<Rightarrow> string \<Rightarrow> int" where
  "spread_count s c v = (case map_of s c of None \<Rightarrow> 0 | Some m \<Rightarrow> count_of m v)"


section \<open>Lemmas on the rollup\<close>

abbreviation present :: "'a option list \<Rightarrow> 'a list" where
  "present xs \<equiv> List.map_filter (\<lambda>x. x) xs"

lemma foldl_present: "foldl (\<lambda>s fo. case fo of None \<Rightarrow> s | Some f \<Rightarrow> g s f) a xs = foldl g a (present xs)"
  by (induction xs arbitrary: a) (auto simp: map_filter_simps split: option.split)

lemma foldl_select:
  assumes "\<And>s f. sel (step s f) = g (sel s) f"
  shows "sel (foldl step s fs) = foldl g (sel s) fs"
  by (induction fs arbitrary: s) (simp_all add: assms)

lemma foldl_inc_if:
  assumes "in_int64 a"
  shows "foldl (\<lambda>t f. if P f then inc64 t else t) a fs = wrap64 (a + int (length (filter P fs)))"
  using assms
proof (induction fs arbitrary: a)
  case (Cons f fs)
  have "in_int64 (inc64 a)" by (simp add: inc64_def)
  from Cons.IH [OF this] Cons.IH [OF Cons.prems] show ?case
    by (simp add: inc64_def algebra_simps)
qed (simp add: wrap64_id)

lemma foldl_nested_sum:
  assumes "in_int64 a"
  shows "foldl (\<lambda>t f. foldl (\<lambda>t d. wrap64 (t + amount d)) t (parts f)) a fs
    = wrap64 (a + (\<Sum>f\<leftarrow>fs. \<Sum>d\<leftarrow>parts f. amount d))"
  using assms
proof (induction fs arbitrary: a)
  case (Cons f fs)
  have "foldl (\<lambda>t d. wrap64 (t + amount d)) a (parts f) = wrap64 (a + (\<Sum>d\<leftarrow>parts f. amount d))"
    using Cons.prems by (rule foldl_wrap64_sum)
  with Cons.IH [of "wrap64 (a + (\<Sum>d\<leftarrow>parts f. amount d))"] show ?case
    by (simp add: algebra_simps)
qed (simp add: wrap64_id)

lemma foldl_nested_incr:
  assumes "in_int64 (count_of m k)"
  shows "count_of (foldl (\<lambda>m f. foldl (\<lambda>m c. incr c m) m (parts f)) m fs) k
    = wrap64 (count_of m k + (\<Sum>f\<leftarrow>fs. int (count_list (parts f) k)))"
  using assms
proof (induction fs arbitrary: m)
  case (Cons f fs)
  have "count_of (foldl (\<lambda>m c. incr c m) m (parts f)) k = wrap64 (count_of m k + int (count_list (parts f) k))"
    using Cons.prems by (rule count_of_foldl_incr)
  with Cons.IH [of "foldl (\<lambda>m c. incr c m) m (parts f)"] show ?case
    by (simp add: algebra_simps)
qed (simp add: wrap64_id)

definition rollup :: "ServerFacts option list \<Rightarrow> Summary" where
  "rollup all_facts = foldl aggregate_one empty_summary (present all_facts)"

lemma Aggregate_rollup:
  "Aggregate all_facts = (rollup all_facts)\<lparr>sm_FailureDomains :=
     map (\<lambda>(k, sids). (k, sort_Strings sids)) (sm_FailureDomains (rollup all_facts))\<rparr>"
  by (simp add: Aggregate_def rollup_def foldl_present Let_def)

lemma in_int64_zero [simp]: "in_int64 0"
  by (simp add: in_int64_def)

lemma rollup_counts:
  "sm_Servers (rollup xs) = wrap64 (int (length (present xs)))"
  "sm_Healthy (rollup xs) = wrap64 (int (length (filter (\<lambda>f. sf_Health f = ''healthy'') (present xs))))"
  "sm_Degraded (rollup xs) = wrap64 (int (length (filter (\<lambda>f. sf_Health f = ''degraded'') (present xs))))"
  "sm_Unknown (rollup xs) = wrap64 (int (length (filter (\<lambda>f. sf_Health f \<noteq> ''healthy'' \<and> sf_Health f \<noteq> ''degraded'') (present xs))))"
  "sm_PoweredOn (rollup xs) = wrap64 (int (length (filter (\<lambda>f. sf_PowerState f = ''on'') (present xs))))"
proof -
  note c = foldl_inc_if [of 0, OF in_int64_zero]
  show "sm_Servers (rollup xs) = wrap64 (int (length (present xs)))"
    unfolding rollup_def using c [of "\<lambda>_. True" "present xs"]
    by (subst foldl_select [where sel = sm_Servers and g = "\<lambda>t f. inc64 t"]) (simp_all add: aggregate_one_def empty_summary_def)
  show "sm_Healthy (rollup xs) = wrap64 (int (length (filter (\<lambda>f. sf_Health f = ''healthy'') (present xs))))"
    unfolding rollup_def using c [of "\<lambda>f. sf_Health f = ''healthy''" "present xs"]
    by (subst foldl_select [where sel = sm_Healthy and g = "\<lambda>t f. if sf_Health f = ''healthy'' then inc64 t else t"])
      (simp_all add: aggregate_one_def empty_summary_def)
  show "sm_Degraded (rollup xs) = wrap64 (int (length (filter (\<lambda>f. sf_Health f = ''degraded'') (present xs))))"
    unfolding rollup_def using c [of "\<lambda>f. sf_Health f = ''degraded''" "present xs"]
    by (subst foldl_select [where sel = sm_Degraded and g = "\<lambda>t f. if sf_Health f = ''degraded'' then inc64 t else t"])
      (simp_all add: aggregate_one_def empty_summary_def)
  show "sm_Unknown (rollup xs) = wrap64 (int (length (filter (\<lambda>f. sf_Health f \<noteq> ''healthy'' \<and> sf_Health f \<noteq> ''degraded'') (present xs))))"
    unfolding rollup_def using c [of "\<lambda>f. sf_Health f \<noteq> ''healthy'' \<and> sf_Health f \<noteq> ''degraded''" "present xs"]
    by (subst foldl_select [where sel = sm_Unknown and
          g = "\<lambda>t f. if sf_Health f \<noteq> ''healthy'' \<and> sf_Health f \<noteq> ''degraded'' then inc64 t else t"])
      (simp_all add: aggregate_one_def empty_summary_def)
  show "sm_PoweredOn (rollup xs) = wrap64 (int (length (filter (\<lambda>f. sf_PowerState f = ''on'') (present xs))))"
    unfolding rollup_def using c [of "\<lambda>f. sf_PowerState f = ''on''" "present xs"]
    by (subst foldl_select [where sel = sm_PoweredOn and g = "\<lambda>t f. if sf_PowerState f = ''on'' then inc64 t else t"])
      (simp_all add: aggregate_one_def empty_summary_def)
qed

lemma rollup_totals:
  "sm_TotalCores (rollup xs) = wrap64 (\<Sum>f\<leftarrow>present xs. cpu_Cores (sf_CPU f))"
  "sm_TotalThreads (rollup xs) = wrap64 (\<Sum>f\<leftarrow>present xs. cpu_Threads (sf_CPU f))"
  "sm_TotalMemoryGB (rollup xs) = wrap64 (\<Sum>f\<leftarrow>present xs. sf_MemoryGB f)"
  "sm_TotalDiskGB (rollup xs) = wrap64 (\<Sum>f\<leftarrow>present xs. \<Sum>d\<leftarrow>sf_Disks f. disk_SizeGB d)"
  "sm_TotalNICGbps (rollup xs) = wrap64 (\<Sum>f\<leftarrow>present xs. \<Sum>n\<leftarrow>sf_NICs f. nic_SpeedGbps n)"
proof -
  show "sm_TotalCores (rollup xs) = wrap64 (\<Sum>f\<leftarrow>present xs. cpu_Cores (sf_CPU f))"
    unfolding rollup_def
    by (subst foldl_select [where sel = sm_TotalCores and g = "\<lambda>t f. wrap64 (t + cpu_Cores (sf_CPU f))"])
      (simp_all add: aggregate_one_def empty_summary_def foldl_wrap64_sum)
  show "sm_TotalThreads (rollup xs) = wrap64 (\<Sum>f\<leftarrow>present xs. cpu_Threads (sf_CPU f))"
    unfolding rollup_def
    by (subst foldl_select [where sel = sm_TotalThreads and g = "\<lambda>t f. wrap64 (t + cpu_Threads (sf_CPU f))"])
      (simp_all add: aggregate_one_def empty_summary_def foldl_wrap64_sum)
  show "sm_TotalMemoryGB (rollup xs) = wrap64 (\<Sum>f\<leftarrow>present xs. sf_MemoryGB f)"
    unfolding rollup_def
    by (subst foldl_select [where sel = sm_TotalMemoryGB and g = "\<lambda>t f. wrap64 (t + sf_MemoryGB f)"])
      (simp_all add: aggregate_one_def empty_summary_def foldl_wrap64_sum)
  show "sm_TotalDiskGB (rollup xs) = wrap64 (\<Sum>f\<leftarrow>present xs. \<Sum>d\<leftarrow>sf_Disks f. disk_SizeGB d)"
    unfolding rollup_def
    by (subst foldl_select [where sel = sm_TotalDiskGB and g = "\<lambda>t f. foldl (\<lambda>t d. wrap64 (t + disk_SizeGB d)) t (sf_Disks f)"])
      (simp_all add: aggregate_one_def empty_summary_def foldl_nested_sum)
  show "sm_TotalNICGbps (rollup xs) = wrap64 (\<Sum>f\<leftarrow>present xs. \<Sum>n\<leftarrow>sf_NICs f. nic_SpeedGbps n)"
    unfolding rollup_def
    by (subst foldl_select [where sel = sm_TotalNICGbps and g = "\<lambda>t f. foldl (\<lambda>t n. wrap64 (t + nic_SpeedGbps n)) t (sf_NICs f)"])
      (simp_all add: aggregate_one_def empty_summary_def foldl_nested_sum)
qed

lemma rollup_maps:
  "count_of (sm_CapabilityCounts (rollup xs)) c = wrap64 (\<Sum>f\<leftarrow>present xs. int (count_list (sf_Capabilities f) c))"
  "count_of (sm_NetworkModeCounts (rollup xs)) c = wrap64 (\<Sum>f\<leftarrow>present xs. int (count_list (sf_NetworkModes f) c))"
proof -
  show "count_of (sm_CapabilityCounts (rollup xs)) c = wrap64 (\<Sum>f\<leftarrow>present xs. int (count_list (sf_Capabilities f) c))"
    unfolding rollup_def
    by (subst foldl_select [where sel = sm_CapabilityCounts and g = "\<lambda>m f. foldl (\<lambda>m c. incr c m) m (sf_Capabilities f)"])
      (simp_all add: aggregate_one_def empty_summary_def foldl_nested_incr)
  show "count_of (sm_NetworkModeCounts (rollup xs)) c = wrap64 (\<Sum>f\<leftarrow>present xs. int (count_list (sf_NetworkModes f) c))"
    unfolding rollup_def
    by (subst foldl_select [where sel = sm_NetworkModeCounts and g = "\<lambda>m f. foldl (\<lambda>m c. incr c m) m (sf_NetworkModes f)"])
      (simp_all add: aggregate_one_def empty_summary_def foldl_nested_incr)
qed

text \<open>The failure domains: under each key the servers of that domain, in the order of the input.\<close>

lemma map_of_push: "map_of (push k x m) k' = (if k' = k then Some ((case map_of m k of None \<Rightarrow> [] | Some xs \<Rightarrow> xs) @ [x]) else map_of m k')"
  by (simp add: push_def update_conv')

definition at_key :: "(string, 'a list) gomap \<Rightarrow> string \<Rightarrow> 'a list" where
  "at_key m k = (case map_of m k of None \<Rightarrow> [] | Some xs \<Rightarrow> xs)"

lemma domains_fold:
  "at_key (foldl (\<lambda>m f. push (domain_of f) (sf_ServerID f) m) m fs) k
     = at_key m k @ map sf_ServerID (filter (\<lambda>f. domain_of f = k) fs)"
proof (induction fs arbitrary: m)
  case (Cons f fs)
  have "at_key (push (domain_of f) (sf_ServerID f) m) k
      = at_key m k @ (if domain_of f = k then [sf_ServerID f] else [])"
    by (simp add: at_key_def map_of_push)
  with Cons.IH show ?case by simp
qed simp

lemma rollup_domains: "at_key (sm_FailureDomains (rollup xs)) k = map sf_ServerID (filter (\<lambda>f. domain_of f = k) (present xs))"
proof -
  have "sm_FailureDomains (rollup xs) = foldl (\<lambda>m f. push (domain_of f) (sf_ServerID f) m) [] (present xs)"
    unfolding rollup_def
    by (subst foldl_select [where sel = sm_FailureDomains and g = "\<lambda>m f. push (domain_of f) (sf_ServerID f) m"])
      (simp_all add: aggregate_one_def empty_summary_def)
  then show ?thesis
    by (simp add: domains_fold) (simp add: at_key_def)
qed

lemma at_key_sorted: "at_key (map (\<lambda>(k, sids). (k, sort_Strings sids)) m) k = sort_Strings (at_key m k)"
  by (induction m) (auto simp: at_key_def sort_Strings_def)


section \<open>Lemmas on the firmware spread\<close>

lemma spread_count_bump:
  "spread_count (bump s c v) c' v' =
     (if c' = c \<and> v' = v \<and> c \<noteq> [] \<and> v \<noteq> [] then wrap64 (spread_count s c v + 1) else spread_count s c' v')"
  by (auto simp: spread_count_def bump_def update_conv' count_of_incr split: option.split)

lemma spread_count_bump_unseen:
  assumes "in_int64 (spread_count s c v)" and "p \<noteq> []"
  shows "spread_count (bump_unseen p seen s ps) c v =
    wrap64 (spread_count s c v + (if v \<noteq> [] \<and> (\<exists>m. c = p @ m \<and> (m, v) \<in> set ps - set seen) then 1 else 0))"
  using assms
proof (induction p seen s ps rule: bump_unseen.induct)
  case (1 p seen s)
  then show ?case by (simp add: wrap64_id)
next
  case (2 p seen s name fw ps)
  show ?case
  proof (cases "(name, fw) \<in> set seen")
    case True
    with 2 show ?thesis
      by (auto simp: wrap64_id)
  next
    case False
    define s' where "s' = bump s (p @ name) fw"
    have s': "spread_count s' c v = (if c = p @ name \<and> v = fw \<and> fw \<noteq> [] then wrap64 (spread_count s c v + 1) else spread_count s c v)"
      using "2.prems"(2) by (auto simp: s'_def spread_count_bump)
    then have IH: "spread_count (bump_unseen p ((name, fw) # seen) s' ps) c v =
        wrap64 (spread_count s' c v + (if v \<noteq> [] \<and> (\<exists>m. c = p @ m \<and> (m, v) \<in> set ps - set ((name, fw) # seen)) then 1 else 0))"
      using 2 False by (simp add: s'_def)
    have step: "bump_unseen p seen s ((name, fw) # ps) = bump_unseen p ((name, fw) # seen) s' ps"
      using False by (simp add: s'_def)
    show ?thesis
    proof (cases "c = p @ name \<and> v = fw")
      case True
      with False IH s' show ?thesis
        unfolding step by (cases "v = []") (auto simp: wrap64_id)
    next
      case other: False
      then have "(\<exists>m. c = p @ m \<and> (m, v) \<in> set ps - set ((name, fw) # seen))
          \<longleftrightarrow> (\<exists>m. c = p @ m \<and> (m, v) \<in> set ((name, fw) # ps) - set seen)"
        by auto
      with IH s' other show ?thesis
        unfolding step by auto
    qed
  qed
qed

text \<open>The firmware facts of one server: which component runs which version.\<close>

definition firmware_of :: "ServerFacts \<Rightarrow> (string \<times> string) list" where
  "firmware_of f =
     map (\<lambda>(m, fw). (''nvme:'' @ m, fw)) (nvme_pairs f) @ map (\<lambda>(d, fw). (''nic:'' @ d, fw)) (nic_pairs f)"

lemma no_raw_pairs: "sf_Raw f = None \<Longrightarrow> firmware_of f = []"
  by (simp add: firmware_of_def nvme_pairs_def nic_pairs_def raw_get_def decodeRaw_def)

lemma spread_count_one:
  assumes "in_int64 (spread_count s c v)"
  shows "spread_count (spread_one s (Some f)) c v =
    wrap64 (spread_count s c v + (if v \<noteq> [] \<and> (c, v) \<in> set (firmware_of f) then 1 else 0))"
proof (cases "sf_Raw f = None")
  case True
  then show ?thesis
    using assms by (simp add: spread_one_def no_raw_pairs wrap64_id)
next
  case False
  define s' where "s' = bump_unseen ''nvme:'' [] s (nvme_pairs f)"
  have nvme: "spread_count s' c v =
      wrap64 (spread_count s c v + (if v \<noteq> [] \<and> (\<exists>m. c = ''nvme:'' @ m \<and> (m, v) \<in> set (nvme_pairs f)) then 1 else 0))"
    unfolding s'_def using assms by (subst spread_count_bump_unseen) simp_all
  have "in_int64 (spread_count s' c v)"
    unfolding nvme by simp
  moreover have "spread_one s (Some f) = bump_unseen ''nic:'' [] s' (nic_pairs f)"
    using False by (auto simp: spread_one_def s'_def)
  ultimately have "spread_count (spread_one s (Some f)) c v =
      wrap64 (spread_count s' c v + (if v \<noteq> [] \<and> (\<exists>m. c = ''nic:'' @ m \<and> (m, v) \<in> set (nic_pairs f)) then 1 else 0))"
    by (simp add: spread_count_bump_unseen)
  moreover have "(c, v) \<in> set (firmware_of f) \<longleftrightarrow>
      (\<exists>m. c = ''nvme:'' @ m \<and> (m, v) \<in> set (nvme_pairs f)) \<or> (\<exists>m. c = ''nic:'' @ m \<and> (m, v) \<in> set (nic_pairs f))"
    unfolding firmware_of_def by force
  moreover have "\<not> ((\<exists>m. c = ''nvme:'' @ m \<and> (m, v) \<in> set (nvme_pairs f)) \<and> (\<exists>m. c = ''nic:'' @ m \<and> (m, v) \<in> set (nic_pairs f)))"
    by auto
  ultimately show ?thesis
    unfolding nvme by auto
qed

lemma spread_count_fold:
  "in_int64 (spread_count s c v) \<Longrightarrow>
     spread_count (foldl spread_one s xs) c v =
       wrap64 (spread_count s c v + int (length (filter (\<lambda>f. v \<noteq> [] \<and> (c, v) \<in> set (firmware_of f)) (present xs))))"
proof (induction xs arbitrary: s)
  case (Cons x xs)
  show ?case
  proof (cases x)
    case None
    with Cons show ?thesis by (simp add: spread_one_def map_filter_simps)
  next
    case (Some f)
    note one = spread_count_one [OF Cons.prems, of f]
    have "in_int64 (spread_count (spread_one s x) c v)"
      unfolding Some one by simp
    from Cons.IH [OF this] show ?thesis
      by (simp add: Some one map_filter_simps algebra_simps)
  qed
qed (simp add: wrap64_id map_filter_simps)


section \<open>Properties of the fleet layer\<close>


lemma has_all_iff: "has_all cs rs \<longleftrightarrow> set rs \<subseteq> set cs"
  by (induction cs rs rule: has_all.induct) auto

lemma FindCapable_fold:
  "FindCapable xs rs = sort_Strings (map sf_ServerID (filter (\<lambda>f. set rs \<subseteq> set (sf_Capabilities f)) (present xs)))"
proof -
  have "foldl (\<lambda>sids f. if set rs \<subseteq> set (sf_Capabilities f) then sids @ [sf_ServerID f] else sids) a fs
      = a @ map sf_ServerID (filter (\<lambda>f. set rs \<subseteq> set (sf_Capabilities f)) fs)" for a and fs :: "ServerFacts list"
    by (induction fs arbitrary: a) auto
  then show ?thesis
    by (simp add: FindCapable_def foldl_present has_all_iff)
qed

text \<open>
  Finding capable servers: the result is sorted and contains, with multiplicity, the id of
  each server that holds every required capability and no other; with no requirement it is
  every server.
\<close>

lemma find_capable:
  "sorted (FindCapable xs rs)
   \<and> mset (FindCapable xs rs) = image_mset sf_ServerID (filter_mset (\<lambda>f. set rs \<subseteq> set (sf_Capabilities f)) (mset (present xs)))
   \<and> mset (FindCapable xs []) = image_mset sf_ServerID (mset (present xs))"
  by (simp add: FindCapable_fold)

text \<open>
  The firmware spread counts servers, not drives: under a component and a version stands the
  number of servers that have at least one NVMe drive, or one network driver, of that model and
  version, however many identical ones a server has; empty versions are never counted, and what
  order the maps are visited in does not matter.
\<close>

lemma firmware_counts_servers:
  "spread_count (FirmwareSpread xs) c v =
     wrap64 (int (length (filter (\<lambda>f. v \<noteq> [] \<and> (c, v) \<in> set (firmware_of f)) (present xs))))"
proof -
  have "spread_count [] c v = 0"
    by (simp add: spread_count_def)
  then show ?thesis
    by (simp add: FirmwareSpread_def spread_count_fold)
qed

end
