(* ===== verification/Firmware.thy ===== *)
theory Firmware
  imports Soundness Fleet
begin

text \<open>
  The firmware spread over the machines: what \<open>nvme list\<close> and \<open>ethtool -i\<close> print on each server, through
  the collectors, the build, the merge and the JSON the store keeps, up to the counts of
  \<open>FirmwareSpread\<close>.
\<close>


section \<open>Reading back what the collectors put below Raw\<close>

lemma dec_entries_enc:
  assumes "distinct (map fst (m @ map (\<lambda>(k, v). (k, out v)) kvs))"
    and "\<And>k v. (k, v) \<in> set kvs \<Longrightarrow> valid_utf8 k \<and> dec (enc v) = Some (out v)"
  shows "dec_entries dec (map (\<lambda>(k, v). (quote k, enc v)) kvs) m = Some (m @ map (\<lambda>(k, v). (k, out v)) kvs)"
  using assms
proof (induction kvs arbitrary: m)
  case (Cons kv kvs)
  obtain k v where kv: "kv = (k, v)" by fastforce
  have fresh: "AList.update k (out v) m = m @ [(k, out v)]"
    using Cons.prems(1) by (intro update_new) (auto simp: kv)
  have "distinct (map fst ((m @ [(k, out v)]) @ map (\<lambda>(k, v). (k, out v)) kvs))"
    using Cons.prems(1) by (simp add: kv)
  from Cons.IH [OF this] Cons.prems(2) have
    "dec_entries dec (map (\<lambda>(k, v). (quote k, enc v)) kvs) (m @ [(k, out v)])
      = Some ((m @ [(k, out v)]) @ map (\<lambda>(k, v). (k, out v)) kvs)"
    by auto
  then show ?case
    using Cons.prems(2) [of k v] by (simp add: kv unquote_quote fresh)
qed simp

lemma sort_key_map: "sort_key key (map g xs) = map g (sort_key (key \<circ> g) xs)"
proof -
  have "insort_key key (g x) (map g xs) = map g (insort_key (key \<circ> g) x xs)" for x xs
    by (induction xs) simp_all
  then show ?thesis
    by (induction xs) simp_all
qed

lemma dec_map_raw:
  assumes "distinct (map fst m)" and "\<And>k v. (k, v) \<in> set m \<Longrightarrow> valid_utf8 k \<and> dec (enc v) = Some (out v)"
  shows "dec_map dec (raw_json (map (\<lambda>(k, v). (k, enc v)) m)) = Some (map (\<lambda>(k, v). (k, out v)) (sort_key fst m))"
proof -
  have sorted: "sort_key fst (map (\<lambda>(k, v). (k, enc v)) m) = map (\<lambda>(k, v). (k, enc v)) (sort_key fst m)"
    by (simp add: sort_key_map comp_def case_prod_unfold)
  have "distinct (map fst (sort_key fst m))"
    using assms(1) by (metis distinct_map mset_eq_imp_distinct_iff mset_map mset_sort)
  then have "dec_entries dec (map (\<lambda>(k, v). (quote k, enc v)) (sort_key fst m)) [] = Some ([] @ map (\<lambda>(k, v). (k, out v)) (sort_key fst m))"
    using assms(2) by (intro dec_entries_enc) (auto simp: comp_def case_prod_unfold)
  then show ?thesis
    unfolding raw_json_def sorted by (simp add: dec_map_def as_object_def comp_def case_prod_unfold)
qed

lemma firmware_names:
  "list_all json_name [''device_path'', ''serial'', ''firmware'', ''rings_max'', ''rings_current'', ''channels_max'', ''channels_current'',
     ''timestamp_caps'', ''phc_index'']"
  by code_simp

lemma dec_drive_json:
  assumes "valid_utf8 (nv_Model d)" and "valid_utf8 (nv_Firmware d)"
  shows "dec_drive (nvme_json d) = Some (nv_Model d, nv_Firmware d)"
  using assms json_name_facts firmware_names
  by (simp add: dec_drive_def nvme_json_def as_object_def field_lookup names_ok_def dec_string_jstr)

lemma dec_offload_json:
  assumes "distinct (map fst (no_Driver n))" and "list_all (\<lambda>(k, v). valid_utf8 k \<and> valid_utf8 v) (no_Driver n)"
  shows "dec_offload (offload_json n) = Some (sort_key fst (no_Driver n))"
proof -
  have "valid_utf8 k \<and> or_zero [] dec_string (jstr v) = Some v" if "(k, v) \<in> set (no_Driver n)" for k v
    using that assms(2) by (auto simp: list_all_iff or_zero_def dec_string_jstr)
  from dec_map_raw [of "no_Driver n" "or_zero [] dec_string" jstr "\<lambda>v. v", OF assms(1) this]
  have read: "dec_map (or_zero [] dec_string) (raw_json (map (\<lambda>(k, v). (k, jstr v)) (no_Driver n))) = Some (sort_key fst (no_Driver n))"
    by simp
  obtain rest where o: "offload_json n = JObj (unless_empty (no_Driver n = []) ''driver'' (raw_json (map (\<lambda>(k, v). (k, jstr v)) (no_Driver n))) @ rest)"
    and rest: "set (map fst rest) \<subseteq> set [''rings_max'', ''rings_current'', ''channels_max'', ''channels_current'', ''timestamp_caps'', ''phc_index'']"
      "distinct (map fst rest)"
    by (simp add: offload_json_def unless_empty_def)
  have "json_name k \<and> k \<noteq> ''driver''" if "k \<in> fst ` set rest" for k
    using that rest(1) firmware_names by auto
  then have names: "names_ok (unless_empty (no_Driver n = []) ''driver'' v @ rest)" "map_of rest ''driver'' = None" for v
    using rest(2) json_name_facts by (auto simp: names_ok_def unless_empty_def list_all_iff map_of_eq_None_iff)
  show ?thesis
    using names json_name_facts read
    by (auto simp: dec_offload_def o as_object_def field_lookup unless_empty_def split: option.split)
qed


section \<open>What the tools print\<close>

definition nvme_listed :: "world \<Rightarrow> nvmeDevice list" where
  "nvme_listed w =
     (case tool_json w (NewLocalRunner w) (w_LookPath w) ''nvme'' [''list'', ''-o'', ''json''] dec_nvme_list of
        Inl _ \<Rightarrow> [] | Inr ds \<Rightarrow> ds)"

definition nics_listed :: "world \<Rightarrow> string list" where
  "nics_listed w =
     (case offload_links w (NewLocalRunner w) (w_LookPath w) of Inl _ \<Rightarrow> [] | Inr links \<Rightarrow> ethers links)"

definition nic_driver :: "world \<Rightarrow> string \<Rightarrow> string \<times> string" where
  "nic_driver w n =
     (case NewLocalRunner w ''ethtool'' [''-i'', n] of
        (out, None) \<Rightarrow> driver_pair (parseEthtoolDriverInfo out) | _ \<Rightarrow> ([], []))"

text \<open>The components of a machine with their firmware, as its tools print them.\<close>

definition machine_firmware :: "world \<Rightarrow> (string \<times> string) set" where
  "machine_firmware w =
     (\<lambda>d. (''nvme:'' @ nv_Model d, nv_Firmware d)) ` set (nvme_listed w)
     \<union> (\<lambda>n. (''nic:'' @ fst (nic_driver w n), snd (nic_driver w n))) ` set (nics_listed w)"

lemma nvme_reported:
  "raw_get (reported (nvme_collect (NewNVMeCollector (NewLocalRunner w) w) w) sid) ''nvme''
     = (if nvme_listed w = [] then None else Some (JArr (map nvme_json (nvme_listed w))))"
  by (auto simp: reported_def nvme_collect_def nvme_listed_def tool_json_def NewNVMeCollector_def lookPath_def Let_def
      split: sum.split)

lemma nvme_listed_utf8: "d \<in> set (nvme_listed w) \<Longrightarrow> valid_utf8 (nv_Model d) \<and> valid_utf8 (nv_Firmware d)"
proof -
  have dev: "valid_utf8 (nv_Model d) \<and> valid_utf8 (nv_Firmware d)" if "dec_nvme_device v = Some d" for v d
    using that field_string_valid by (auto simp: dec_nvme_device_def split: Option.bind_splits)
  have "list_all (\<lambda>d. valid_utf8 (nv_Model d) \<and> valid_utf8 (nv_Firmware d)) ds" if "dec_nvme_list v = Some ds" for v ds
  proof -
    obtain kvs where "field ''Devices'' (dec_slice dec_nvme_device) [] kvs = Some ds"
      using \<open>dec_nvme_list v = Some ds\<close> by (auto simp: dec_nvme_list_def split: Option.bind_splits)
    then show ?thesis
    proof (rule field_holds)
      show "list_all (\<lambda>d. valid_utf8 (nv_Model d) \<and> valid_utf8 (nv_Firmware d)) y" if "dec_slice dec_nvme_device v = Some y" for v y
        using that by (rule dec_slice_holds) (rule dev)
    qed simp
  qed
  then have "list_all (\<lambda>d. valid_utf8 (nv_Model d) \<and> valid_utf8 (nv_Firmware d)) (nvme_listed w)"
    by (auto simp: nvme_listed_def split: sum.split elim!: tool_json_holds)
  then show "d \<in> set (nvme_listed w) \<Longrightarrow> valid_utf8 (nv_Model d) \<and> valid_utf8 (nv_Firmware d)"
    by (simp add: list_all_iff)
qed

lemma driver_info_ok:
  assumes "valid_utf8 out"
  shows "distinct (map fst (parseEthtoolDriverInfo out))
    \<and> list_all (\<lambda>(k, v). valid_utf8 k \<and> valid_utf8 v) (parseEthtoolDriverInfo out)"
proof -
  let ?ok = "\<lambda>m. distinct (map fst m) \<and> list_all (\<lambda>(k, v). valid_utf8 k \<and> valid_utf8 v) m"
  have update: "list_all (\<lambda>(k, v). valid_utf8 k \<and> valid_utf8 v) (AList.update k v m)"
    if "list_all (\<lambda>(k, v). valid_utf8 k \<and> valid_utf8 v) m" "valid_utf8 k" "valid_utf8 v" for k v m
    using that by (induction m) auto
  have ascii: "ascii (CHR '':'')" "ascii (CHR 0x0A)"
    by code_simp+
  have step: "?ok (driver_line m l)" if "?ok m" "valid_utf8 l" for m l
    using that Cut_valid [OF _ ascii(1), of l]
    by (auto simp: driver_line_def Let_def distinct_update intro!: update TrimSpace_valid split: prod.split)
  have "?ok (foldl driver_line m ls)" if "?ok m" "\<forall>l\<in>set ls. valid_utf8 l" for m ls
    using that step by (induction ls arbitrary: m) auto
  from this [of "[]"] show ?thesis
    using Split_valid [OF ascii(2) assms] by (simp add: parseEthtoolDriverInfo_def)
qed

lemma offload_driver:
  "no_Driver (nic_offload run n) = (case run ''ethtool'' [''-i'', n] of (out, None) \<Rightarrow> parseEthtoolDriverInfo out | _ \<Rightarrow> [])"
  by (simp add: nic_offload_def ethtool_section_def Let_def split: prod.split option.split)

lemma offload_driver_ok:
  assumes "text_runner run"
  shows "distinct (map fst (no_Driver (nic_offload run n)))
    \<and> list_all (\<lambda>(k, v). valid_utf8 k \<and> valid_utf8 v) (no_Driver (nic_offload run n))"
  using assms driver_info_ok by (auto simp: offload_driver text_runner_def split: prod.split option.split)

lemma offload_entries:
  "foldl (offload_link run) ([], False) links = (perNIC, saw) \<Longrightarrow>
     distinct (map fst perNIC) \<and> set perNIC = (\<lambda>n. (n, nic_offload run n)) ` set (ethers links)"
proof -
  have "distinct (map fst (fst (foldl (offload_link run) st links)))" if "distinct (map fst (fst st))" for st
    using that by (induction links arbitrary: st) (auto simp: offload_link_def Let_def distinct_update)
  moreover assume fold: "foldl (offload_link run) ([], False) links = (perNIC, saw)"
  ultimately have d: "distinct (map fst perNIC)"
    by (metis fst_conv list.simps(8) distinct.simps(1))
  have entry: "map_of perNIC n = (if n \<in> set (ethers links) then Some (nic_offload run n) else None)" for n
    using offload_fold [where run = run and m = "[]" and saw = False and links = links] fold by auto
  then have "(n, e) \<in> set perNIC \<longleftrightarrow> n \<in> set (ethers links) \<and> e = nic_offload run n" for n e
    unfolding map_of_eq_Some_iff [OF d, symmetric] entry by auto
  with d show ?thesis by auto
qed

lemma nics_listed_utf8: "n \<in> set (nics_listed w) \<Longrightarrow> valid_utf8 n"
proof -
  have "list_all (\<lambda>l. valid_utf8 (il_IfName l) \<and> valid_utf8 (il_Address l)) links"
    if "offload_links w (NewLocalRunner w) (w_LookPath w) = Inr links" for links
    using that by (auto simp: offload_links_def unmarshal_def bind_eq_Some_conv split: option.splits prod.splits
        elim!: dec_slice_holds dest: link_valid)
  then show "n \<in> set (nics_listed w) \<Longrightarrow> valid_utf8 n"
    by (cases "offload_links w (NewLocalRunner w) (w_LookPath w)") (auto simp: nics_listed_def ethers_def list_all_iff)
qed

lemma offload_reported:
  obtains perNIC where "distinct (map fst perNIC)"
    and "set perNIC = (\<lambda>n. (n, nic_offload (NewLocalRunner w) n)) ` set (nics_listed w)"
    and "raw_get (reported (nic_offload_collect (NewNICOffloadCollector (NewLocalRunner w) w) w) sid) ''nic_offload''
     = (if perNIC = [] then None else Some (raw_json (map (\<lambda>(k, v). (k, offload_json v)) perNIC)))"
proof (cases "offload_links w (NewLocalRunner w) (w_LookPath w)")
  case (Inl err)
  then show ?thesis
    by (intro that [of "[]"])
       (simp_all add: nics_listed_def reported_def nic_offload_collect_def NewNICOffloadCollector_def lookPath_def Let_def)
next
  case (Inr links)
  obtain perNIC saw where fold: "foldl (offload_link (NewLocalRunner w)) ([], False) links = (perNIC, saw)"
    by fastforce
  from offload_entries [OF fold] Inr fold show ?thesis
    by (intro that [of perNIC])
       (simp_all add: nics_listed_def reported_def nic_offload_collect_def NewNICOffloadCollector_def lookPath_def Let_def)
qed


section \<open>The firmware of a build\<close>

lemma nvme_pairs_of:
  assumes "raw_get f ''nvme'' = (if nvme_listed w = [] then None else Some (JArr (map nvme_json (nvme_listed w))))"
  shows "nvme_pairs f = map (\<lambda>d. (nv_Model d, nv_Firmware d)) (nvme_listed w)"
proof (cases "nvme_listed w = []")
  case True
  then show ?thesis
    using assms by (simp add: nvme_pairs_def decodeRaw_def)
next
  case False
  have "dec_all dec_drive (map nvme_json ds) = Some (map (\<lambda>d. (nv_Model d, nv_Firmware d)) ds)"
    if "set ds \<subseteq> set (nvme_listed w)" for ds
    using that nvme_listed_utf8 by (induction ds) (auto simp: dec_drive_json)
  then show ?thesis
    using assms False by (simp add: nvme_pairs_def decodeRaw_ok list_all_iff dec_slice_def as_array_def)
qed

lemma map_of_first: "map_of m k = (case filter (\<lambda>kv. fst kv = k) m of [] \<Rightarrow> None | kv # _ \<Rightarrow> Some (snd kv))"
  by (induction m) auto

lemma map_of_sort_key: "map_of (sort_key fst m) = map_of m"
  by (rule ext) (simp only: map_of_first sort_key_stable)

lemma driver_pair_sorted: "driver_pair (sort_key fst m) = driver_pair m"
  by (simp add: driver_pair_def map_of_sort_key)

lemma nic_pairs_of:
  assumes "text_runner (NewLocalRunner w)" and "distinct (map fst perNIC)"
    and "set perNIC = (\<lambda>n. (n, nic_offload (NewLocalRunner w) n)) ` set (nics_listed w)"
    and "raw_get f ''nic_offload'' = (if perNIC = [] then None else Some (raw_json (map (\<lambda>(k, v). (k, offload_json v)) perNIC)))"
  shows "set (nic_pairs f) = nic_driver w ` set (nics_listed w)"
proof (cases "perNIC = []")
  case True
  then have "nics_listed w = []"
    using assms(3) by simp
  then show ?thesis
    using assms(4) True by (simp add: nic_pairs_def decodeRaw_def)
next
  case False
  have entry: "valid_utf8 k \<and> dec_offload (offload_json v) = Some (sort_key fst (no_Driver v))
      \<and> driver_pair (sort_key fst (no_Driver v)) = nic_driver w k" if "(k, v) \<in> set perNIC" for k v
  proof -
    have v: "v = nic_offload (NewLocalRunner w) k" "k \<in> set (nics_listed w)"
      using that assms(3) by auto
    have "driver_pair (no_Driver v) = nic_driver w k"
      by (simp add: v(1) offload_driver nic_driver_def driver_pair_def split: prod.split option.split)
    then show ?thesis
      using nics_listed_utf8 [OF v(2)] offload_driver_ok [OF assms(1), of k] dec_offload_json [of v] v(1)
      by (simp add: driver_pair_sorted)
  qed
  then have read: "dec_map dec_offload (raw_json (map (\<lambda>(k, v). (k, offload_json v)) perNIC))
      = Some (map (\<lambda>(k, v). (k, sort_key fst (no_Driver v))) (sort_key fst perNIC))"
    using assms(2) by (intro dec_map_raw) blast+
  have ok: "json_ok (raw_json (map (\<lambda>(k, v). (k, offload_json v)) perNIC))"
    by (rule json_ok_named) simp
  have "decodeRaw (raw_get f ''nic_offload'') (dec_map dec_offload)
      = Some (map (\<lambda>(k, v). (k, sort_key fst (no_Driver v))) (sort_key fst perNIC))"
    by (simp only: assms(4) False if_False decodeRaw_ok [OF ok enc_simps(6)] read)
  then have "nic_pairs f = map (\<lambda>(k, v). driver_pair (sort_key fst (no_Driver v))) (sort_key fst perNIC)"
    by (simp add: nic_pairs_def comp_def case_prod_unfold)
  then have "set (nic_pairs f) = (\<lambda>(k, v). driver_pair (sort_key fst (no_Driver v))) ` set perNIC"
    by simp
  also have "\<dots> = (\<lambda>(k, v). nic_driver w k) ` set perNIC"
    by (rule image_cong [OF refl]) (use entry in \<open>auto split: prod.split\<close>)
  also have "\<dots> = nic_driver w ` set (nics_listed w)"
    unfolding assms(3) by (simp add: image_image)
  finally show ?thesis .
qed

lemma raw_get_normal: "raw_get (normal_raw f) k = raw_get f k"
  by (simp add: raw_get_def normal_raw_def map_of_sort_key split: option.split)

lemma firmware_of_normal: "firmware_of (normal_raw f) = firmware_of f"
  by (simp add: firmware_of_def nvme_pairs_def nic_pairs_def raw_get_normal)

lemma firmware_of_build:
  assumes "BuildServerFacts now sid (buildCollectors getenv d db w) = (Some f, e)" and "text_runner (NewLocalRunner w)"
  shows "set (firmware_of f) = machine_firmware w"
proof -
  let ?cs = "zip (buildCollectors getenv d db w) serving_keys"
  have owners: "(nvme_collect (NewNVMeCollector (NewLocalRunner w) w) w, [''nvme'']) \<in> set ?cs"
    "(nic_offload_collect (NewNICOffloadCollector (NewLocalRunner w) w) w, [''nic_offload'']) \<in> set ?cs"
    by (simp_all add: buildCollectors_def Wave2Collectors_def serving_keys_def Let_def)
  have nvme: "nvme_pairs f = map (\<lambda>d. (nv_Model d, nv_Firmware d)) (nvme_listed w)"
    by (rule nvme_pairs_of) (simp add: build_raw_owner [OF assms(1) owners(1)] nvme_reported)
  obtain perNIC where p: "distinct (map fst perNIC)"
    "set perNIC = (\<lambda>n. (n, nic_offload (NewLocalRunner w) n)) ` set (nics_listed w)"
    and r: "raw_get (reported (nic_offload_collect (NewNICOffloadCollector (NewLocalRunner w) w) w) sid) ''nic_offload''
      = (if perNIC = [] then None else Some (raw_json (map (\<lambda>(k, v). (k, offload_json v)) perNIC)))"
    by (rule offload_reported [of w sid])
  have "set (nic_pairs f) = nic_driver w ` set (nics_listed w)"
    by (rule nic_pairs_of [OF assms(2) p]) (simp only: build_raw_owner [OF assms(1) owners(2)] r list.set_intros(1))
  then show ?thesis
    by (simp add: firmware_of_def nvme machine_firmware_def image_image case_prod_unfold)
qed

text \<open>
  C27. The firmware spread of a fleet is what the machines' own tools say: for servers built by the serving
  pipeline on machines whose commands print UTF-8, the count under a component and a version is the number
  of servers on which \<open>nvme list\<close> shows a drive, or \<open>ethtool -i\<close> a network driver, of that name and
  version, however many identical ones a server has and whether the facts come straight from the build
  or back from the store; an empty version is never counted.
\<close>

theorem fleet_firmware:
  assumes "\<forall>(w, f)\<in>set ms. text_runner (NewLocalRunner w) \<and>
      (\<exists>now sid getenv d db e. BuildServerFacts now sid (buildCollectors getenv d db w) = (Some f, e))"
    and "via \<in> {(\<lambda>f. f), normal_raw}"
  shows "spread_count (FirmwareSpread (map (\<lambda>(w, f). Some (via f)) ms)) c v =
    wrap64 (int (length (filter (\<lambda>(w, f). v \<noteq> [] \<and> (c, v) \<in> machine_firmware w) ms)))"
proof -
  have via: "firmware_of (via f) = firmware_of f" for f
    using assms(2) firmware_of_normal by auto
  have "length (filter (\<lambda>f. v \<noteq> [] \<and> (c, v) \<in> set (firmware_of f)) (present (map (\<lambda>(w, f). Some (via f)) ms)))
      = length (filter (\<lambda>(w, f). v \<noteq> [] \<and> (c, v) \<in> machine_firmware w) ms)"
    using assms(1)
  proof (induction ms)
    case (Cons m ms)
    obtain w f where m: "m = (w, f)" by fastforce
    with Cons.prems have "set (firmware_of f) = machine_firmware w"
      using firmware_of_build by auto
    with Cons show ?case
      by (cases "v = []") (simp_all add: m via map_filter_simps)
  qed (simp add: map_filter_simps)
  then show ?thesis
    by (simp only: firmware_counts_servers)
qed

text \<open>A machine with two drives of the same model, whose firmware differs.\<close>

definition drive_doc :: json where
  "drive_doc = JObj [(''Devices'', JArr (map (\<lambda>(m, fw). JObj [(''ModelNumber'', jstr m), (''Firmware'', jstr fw)])
     [(''PM9A3'', ''GDC7302Q''), (''PM9A3'', ''GDC7502Q'')]))]"

definition drive_world :: world where
  "drive_world = bare_world\<lparr>w_LookPath := Inr,
     w_exec := (\<lambda>t name args. if name = ''nvme'' then (print_json drive_doc, None) else ([], Some (ExecError ''not found'')))\<rparr>"

lemma drive_world_facts:
  "text_runner (NewLocalRunner drive_world)"
  "machine_firmware drive_world = {(''nvme:PM9A3'', ''GDC7302Q''), (''nvme:PM9A3'', ''GDC7502Q'')}"
proof -
  have "valid_utf8 (print_json drive_doc) \<and> valid_utf8 []"
    by code_simp
  then show "text_runner (NewLocalRunner drive_world)"
    by (auto simp: text_runner_def NewLocalRunner_def LocalRunner_Run_def drive_world_def split: if_splits)
  have run: "NewLocalRunner drive_world name args = (if name = ''nvme'' then (print_json drive_doc, None) else ([], Some (name @ '': not found'')))" for name args
    by (simp add: NewLocalRunner_def LocalRunner_Run_def drive_world_def CommandError_def)
  have look: "requireCommand (w_LookPath drive_world) x = None" for x
    by (simp add: requireCommand_def drive_world_def)
  have "json_ok drive_doc \<and> map_option (map (\<lambda>d. (nv_Model d, nv_Firmware d))) (dec_nvme_list drive_doc)
      = Some [(''PM9A3'', ''GDC7302Q''), (''PM9A3'', ''GDC7502Q'')]"
    by code_simp
  then obtain ds where ds: "nvme_listed drive_world = ds" "map (\<lambda>d. (nv_Model d, nv_Firmware d)) ds = [(''PM9A3'', ''GDC7302Q''), (''PM9A3'', ''GDC7502Q'')]"
    by (auto simp: nvme_listed_def tool_json_doc [OF look] run)
  have "(\<lambda>d. (''nvme:'' @ nv_Model d, nv_Firmware d)) ` set ds
      = (\<lambda>(m, fw). (''nvme:'' @ m, fw)) ` set (map (\<lambda>d. (nv_Model d, nv_Firmware d)) ds)"
    by (simp add: image_image)
  moreover have "nics_listed drive_world = []"
    by (simp add: nics_listed_def offload_links_def require_both_def look run)
  ultimately show "machine_firmware drive_world = {(''nvme:PM9A3'', ''GDC7302Q''), (''nvme:PM9A3'', ''GDC7502Q'')}"
    by (simp add: machine_firmware_def ds)
qed

theorem fleet_firmware_witness:
  "\<exists>f. BuildServerFacts zero_time ''srv'' (buildCollectors (\<lambda>_. []) sound_driver created_db drive_world) = (Some f, None)
     \<and> spread_count (FirmwareSpread [Some (normal_raw f), Some (normal_raw f)]) ''nvme:PM9A3'' ''GDC7502Q'' = 2"
proof -
  obtain f where f: "BuildServerFacts zero_time ''srv'' (buildCollectors (\<lambda>_. []) sound_driver created_db drive_world) = (Some f, None)"
    using serving_build by blast
  have "\<forall>(w, f)\<in>set [(drive_world, f), (drive_world, f)]. text_runner (NewLocalRunner w) \<and>
      (\<exists>now sid getenv d db e. BuildServerFacts now sid (buildCollectors getenv d db w) = (Some f, e))"
  proof (intro ballI)
    show "case m of (w, f) \<Rightarrow> text_runner (NewLocalRunner w) \<and>
        (\<exists>now sid getenv d db e. BuildServerFacts now sid (buildCollectors getenv d db w) = (Some f, e))"
      if "m \<in> set [(drive_world, f), (drive_world, f)]" for m
      using that f drive_world_facts(1) by (simp, intro exI)
  qed
  from fleet_firmware [OF this, of normal_raw "''nvme:PM9A3''" "''GDC7502Q''"] f show ?thesis
    by (simp add: drive_world_facts(2) wrap64_def)
qed

end
