(* ===== verification/Spec2Isabelle.thy ===== *)
theory Spec2Isabelle
  imports Availability Firmware Soundness Vocabulary Utf8 Serve Scan Durations Pipeline Handlers Views Fleet Refresh Store Facts_Json Merge Infer
    Linux_Host Hugepages Iommu Tee Kernel_Facts Nvme Lldp Numa Rdma Net_Topology Nic_Offload Gpu Redfish Pci Ipmi Float64
begin

text \<open>
  A verification development of rewsr-maxfields, a Go program that finds out what a bare-metal Linux
  host can do. As \<open>scan\<close> it runs its collectors once and prints a report; as \<open>serve\<close> it runs them for a
  list of servers on an interval, keeps what they find in SQLite and serves curated views over HTTP.

  \<^bold>\<open>The program's parts and the theories that model them.\<close>

  \<^item> \<open>facts/types.go\<close>: the records of the facts, theory \<open>Facts\<close>; their JSON tags, marshalling and
    unmarshalling, \<open>Facts_Json\<close>, over a model of \<open>encoding/json\<close> in \<open>Json\<close> (strings, values, decoders) and
    \<open>Json_Text\<close> (scanner, parser, printer).
  \<^item> \<open>facts/infer.go\<close>: \<open>Infer\<close> (\<open>InferCapabilities\<close>, \<open>InferHealth\<close>). \<open>facts/merge.go\<close> and
    \<open>facts/collector.go\<close>: \<open>Merge\<close> (\<open>BuildServerFacts\<close> and its helpers; a collector is a function from the
    server's id to facts, possibly nil, and an error text).
  \<^item> \<open>store/\<close>: \<open>Store\<close>. The database is a record of the two tables, the statements are relational
    operations on them; a driver record says which statement or row iteration fails and which of
    equally recent rows comes first.
  \<^item> \<open>refresh/refresher.go\<close>: \<open>Refresh\<close>. Each server refresh meets a moment (collectors, clock, driver);
    \<open>Start\<close> is a loop over the events its select receives, and panics where \<open>time.NewTicker\<close> does.
  \<^item> \<open>api/views.go\<close>, \<open>api/handlers.go\<close>: \<open>Views\<close> and \<open>Handlers\<close> (routes, handlers, response bytes).
  \<^item> \<open>fleet/fleet.go\<close>: \<open>Fleet\<close> (rollup, search, firmware spread).
  \<^item> \<open>runner/runner.go\<close> and what all collectors share: \<open>Host\<close>, with the record \<open>world\<close>: one snapshot of
    files, directories, commands, BMC and clock that a collector sees.
  \<^item> \<open>collectors/\<close>: \<open>Linux_Host\<close> (\<open>linux_host.go\<close>, \<open>linux_cpu.go\<close>, \<open>linux_disk.go\<close>, \<open>linux_nic.go\<close>), \<open>Hugepages\<close>,
    \<open>Iommu\<close>, \<open>Tee\<close>, \<open>Kernel_Facts\<close> (\<open>linux_kernel.go\<close>, \<open>linux_smbios.go\<close>), \<open>Nvme\<close>, \<open>Lldp\<close>, \<open>Numa\<close>, \<open>Rdma\<close>,
    \<open>Net_Topology\<close> (\<open>linux_bond.go\<close>), \<open>Nic_Offload\<close> (\<open>linux_ethtool_deep.go\<close>), \<open>Gpu\<close>, \<open>Pci\<close>, \<open>Ipmi\<close>, and
    \<open>Redfish\<close> (\<open>redfish.go\<close>, \<open>provisioning.go\<close>). \<open>Float64\<close> holds the \<open>float64\<close> values of \<open>Pci\<close> and \<open>Ipmi\<close>.
  \<^item> \<open>collectors/wave2.go\<close> and \<open>buildCollectors\<close>: \<open>Pipeline\<close>, which collectors run and in which order.
    \<open>Vocabulary\<close> shows which words and which keys each collector uses, \<open>Soundness\<close> that its facts are well
    formed, over \<open>Utf8\<close>, and \<open>Firmware\<close> follows firmware versions from the tools to the fleet's counts.
  \<^item> \<open>cmd/rewsr-maxfields/main.go\<close>: \<open>Scan\<close> (command line, flags, report, JSON output) and \<open>Serve\<close> (settings,
    start-up, seeding, and the running program as a labelled step relation in which refreshes,
    requests, the signal and the shutdown interleave). \<open>Durations\<close> is \<open>time.ParseDuration\<close>.
    \<open>Availability\<close> puts start-up, refresher, collectors, store and API together.
  \<^item> \<open>Prelude\<close> and \<open>Go_Strings\<close>: \<open>int\<close> arithmetic with wrap-around, Go maps as association lists, the
    "first value wins" and "seen set" idioms, and the functions of \<open>strings\<close>, \<open>strconv\<close> and \<open>filepath\<close>.

  \<^bold>\<open>Interfaces.\<close> \<open>facts_store\<close> and \<open>provisioning_store\<close> (\<open>Store\<close>) are the contracts the refresher and the
  API rely on, interpreted on the SQLite operations; \<open>fact_collector\<close> (\<open>Host\<close>) says that a collector
  never answers nil and labels its facts with the asked server and its own source, and
  \<open>hardware_collector\<close>, which extends it, that it says nothing on power, provisioning and failure domain.
  \<open>sound_collector\<close> (\<open>Soundness\<close>), which extends it as well, says that the facts are well formed and what of
  the machine that relies on. \<open>vocabulary_collector\<close> (\<open>Vocabulary\<close>) names the keys of a collector and says
  that its capabilities and modes come from the fixed vocabulary. Each collector is interpreted for the contracts it meets; \<open>Pipeline\<close> and
  \<open>Soundness\<close> put the contracts together.

  \<^bold>\<open>What is shown.\<close>

  \<^item> Merging: the first collector that knows a field decides it, capabilities are united, a build fails
    exactly when every collector answered nil, health depends on the merged facts alone.
  \<^item> The JSON document of facts gives the facts back, both as the store writes it and as \<open>scan --json\<close>
    indents it.
  \<^item> The store is an append-only log per server; the queries compute the latest facts from it; writes
    never lose history; provisioning records are last-writer-wins.
  \<^item> A refresh batch handles each server on its own; well-formed facts stay well formed up to the table.
  \<^item> Whatever a machine's tools and files show, its collectors report well-formed facts, as long as text is
    UTF-8 and the numbers read are finite; so each build of the serving pipeline ends up in the store, and
    \<open>scan --json\<close> prints a document.
  \<^item> Start-up seeds exactly the servers without a record; the running program implements the sequential
    refresher however requests and the shutdown interleave; it comes to rest without new work. From the first batch on
    every listed server is served, with the provisioning record start-up found or seeded.
  \<^item> The views show only what they are meant to show, and what was saved is what is served.
  \<^item> The serving pipeline always succeeds and each administrative field has one authority.
  \<^item> The parsers and capability rules of the collectors: round trips with the formats they read,
    equivalence of sorting and pointer-chasing code with plain definitions, and which capability is
    claimed when. For \<open>lspci\<close>, \<open>lldpctl\<close>, \<open>lscpu\<close>, \<open>lsblk\<close> and \<open>ibv_devinfo\<close> this goes from the text the tool
    prints for a given machine to the facts that are read.
  \<^item> Capabilities and network modes come from a fixed vocabulary, whatever tools and files say, and
    related words come together; each key of \<open>Raw\<close> belongs to one collector, so nothing the others report
    can change it; the firmware spread of a fleet counts exactly what the machines' tools print.

  \<^bold>\<open>Choices.\<close> \<open>int\<close> is HOL's \<open>int\<close> with \<open>wrap64\<close> after every operation that can overflow; \<open>uint64\<close> counters
  of \<open>ParseDuration\<close> are reduced modulo \<open>2 ^ 64\<close>; \<open>float64\<close> is a sign, a mantissa and an exponent with
  correct rounding. Strings are byte lists; letter case is that of ASCII. All recursions terminate, no
  fuel is used. All collectors of a build see one snapshot of the machine, different builds may see
  different ones. Where Go leaves an order open (map iteration, ties in a query, which ready channel a
  select takes) the order is a parameter or a nondeterministic step. Concurrency is interleaving at
  the granularity of one server's refresh and one request: only the refresher writes the database.

  \<^bold>\<open>Parameters.\<close> What is not part of the repository is an argument: the results of commands, files and
  HTTP requests (\<open>world\<close>), the faults of the database driver (\<open>driver\<close>), error texts of \<open>encoding/json\<close>,
  the growth of slices (\<open>w_grow\<close>), the clock, the environment variables, the host's name.

  \<^bold>\<open>Not modelled.\<close> The C sources under \<open>cprobe/\<close> and \<open>cstore/\<close>, which no Go file uses; tests; log lines
  other than those of the refresher; the texts of usage messages; timeouts of contexts other than the
  runner's (a cancelled command or statement is a failing one); the HTTP transport and TLS; the depth
  limit of the JSON parser; letter case outside ASCII.
\<close>

end
